(* ===== verification/Prelude.thy ===== *)
theory Prelude
  imports Main "HOL-Library.Word" "HOL-Library.Multiset"
begin

text \<open>
  The library's prelude: the machine integers of the C programs under their kernel names, the
  theorem collections the components share, and the generic lemmas on words, maps and byte
  lists that more than one component uses.
\<close>

unbundle bit_operations_syntax

section \<open>Machine integers\<close>

type_synonym u8 = "8 word"
type_synonym u16 = "16 word"
type_synonym u32 = "32 word"
type_synonym u64 = "64 word"

section \<open>Collections\<close>

text \<open>
  \<open>byte_order\<close>: how the byte-order macros compose (the facts the packet-level proofs rewrite
  with). \<open>ctx_simps\<close>: the observations on hook contexts. \<open>go_simps\<close>: the standard-library
  facts the Go components use.
\<close>

named_theorems byte_order
named_theorems ctx_simps
named_theorems go_simps

section \<open>Words\<close>

lemma ucast_down_up_u16 [simp]: "ucast (ucast (x :: u16) :: u32) = x"
  by (rule bit_word_eqI) (simp add: bit_simps)

lemma ucast_u16_u32_inj [simp]:
  "(ucast (x :: u16) :: u32) = ucast (y :: u16) \<longleftrightarrow> x = y"
  by (metis ucast_down_up_u16)

section \<open>Maps and options\<close>

lemma option_ext: "(\<And>w. a = Some w \<longleftrightarrow> b = Some w) \<Longrightarrow> a = b"
  by (cases a; cases b) auto

lemma map_upd_None_other [simp]: "k \<noteq> k' \<Longrightarrow> (m(k := None)) k' = m k'"
  by simp

lemma card_dom_upd_le:
  "finite (dom m) \<Longrightarrow> card (dom (m(k \<mapsto> v))) \<le> Suc (card (dom m))"
  by (simp add: card_insert_le_m1 card_insert_if)

lemma card_dom_del_le:
  "finite (dom m) \<Longrightarrow> card (dom (m(k := None))) \<le> card (dom m)"
  by (simp add: card_Diff1_le)

end
