(* ===== verification/Byte_Order.thy ===== *)
theory Byte_Order
  imports Prelude
begin

text \<open>
  The byte-order macros of \<^verbatim>\<open>bpf-utils.h\<close> (\<^verbatim>\<open>ntohs\<close>, \<^verbatim>\<open>htons\<close>, \<^verbatim>\<open>ntohl\<close>, \<^verbatim>\<open>htonl\<close>, selected
  by the target's byte order), over the compiler's byte swaps, and the way the C programs and the
  Go program lay integers out in memory.
\<close>

section \<open>The compiler's byte swaps\<close>

datatype endian = LE | BE

text \<open>\<^verbatim>\<open>__builtin_bswap16\<close> and \<^verbatim>\<open>__builtin_bswap32\<close>.\<close>

definition bswap16 :: "u16 \<Rightarrow> u16" where
  "bswap16 x = push_bit 8 x OR drop_bit 8 x"

definition bswap32 :: "u32 \<Rightarrow> u32" where
  "bswap32 x =
     push_bit 24 (take_bit 8 x) OR push_bit 16 (take_bit 8 (drop_bit 8 x)) OR
     push_bit 8 (take_bit 8 (drop_bit 16 x)) OR take_bit 8 (drop_bit 24 x)"

section \<open>The macros\<close>

definition ntohs :: "endian \<Rightarrow> u16 \<Rightarrow> u16" where
  "ntohs e x = (case e of LE \<Rightarrow> bswap16 x | BE \<Rightarrow> x)"

definition htons :: "endian \<Rightarrow> u16 \<Rightarrow> u16" where
  "htons e x = (case e of LE \<Rightarrow> bswap16 x | BE \<Rightarrow> x)"

definition ntohl :: "endian \<Rightarrow> u32 \<Rightarrow> u32" where
  "ntohl e x = (case e of LE \<Rightarrow> bswap32 x | BE \<Rightarrow> x)"

definition htonl :: "endian \<Rightarrow> u32 \<Rightarrow> u32" where
  "htonl e x = (case e of LE \<Rightarrow> bswap32 x | BE \<Rightarrow> x)"

section \<open>Integers in memory\<close>

definition store16 :: "endian \<Rightarrow> u16 \<Rightarrow> u8 list" where
  "store16 e x = (case e of LE \<Rightarrow> [ucast x, ucast (drop_bit 8 x)]
                          | BE \<Rightarrow> [ucast (drop_bit 8 x), ucast x])"

definition store32 :: "endian \<Rightarrow> u32 \<Rightarrow> u8 list" where
  "store32 e x =
     (let bs = [ucast x, ucast (drop_bit 8 x), ucast (drop_bit 16 x), ucast (drop_bit 24 x)]
      in case e of LE \<Rightarrow> bs | BE \<Rightarrow> rev bs)"

lemma length_store16 [simp]: "length (store16 e x) = 2"
  by (simp add: store16_def split: endian.split)

lemma length_store32 [simp]: "length (store32 e x) = 4"
  by (simp add: store32_def Let_def split: endian.split)

lemma store16_bytes: "\<exists>b0 b1. store16 e x = [b0, b1]"
  by (cases e) (simp_all add: store16_def)

lemma store32_bytes: "\<exists>b0 b1 b2 b3. store32 e x = [b0, b1, b2, b3]"
  by (cases e) (simp_all add: store32_def Let_def)

section \<open>How the macros compose\<close>

lemma bit_bswap16: "bit (bswap16 x) n = (n < 16 \<and> bit x (if n < 8 then n + 8 else n - 8))"
  by (auto simp: bswap16_def bit_simps not_less add.commute dest: bit_imp_le_length)

lemma bswap16_bswap16 [simp]: "bswap16 (bswap16 x) = x"
  by (rule bit_word_eqI) (auto simp: bit_bswap16)

lemma bit_bswap32:
  "bit (bswap32 x) n =
     (n < 32 \<and> bit x (if n < 8 then n + 24 else if n < 16 then n + 8
                       else if n < 24 then n - 8 else n - 24))"
  by (auto simp: bswap32_def bit_simps not_less add.commute dest: bit_imp_le_length)

lemma bswap32_bswap32 [simp]: "bswap32 (bswap32 x) = x"
  by (rule bit_word_eqI) (auto simp: bit_bswap32)

lemma ntohs_htons [byte_order, simp]: "ntohs e (htons e x) = x"
  by (simp add: ntohs_def htons_def split: endian.split)

lemma htons_ntohs [byte_order, simp]: "htons e (ntohs e x) = x"
  by (simp add: ntohs_def htons_def split: endian.split)

lemma ntohl_htonl [byte_order, simp]: "ntohl e (htonl e x) = x"
  by (simp add: ntohl_def htonl_def split: endian.split)

lemma htonl_ntohl [byte_order, simp]: "htonl e (ntohl e x) = x"
  by (simp add: ntohl_def htonl_def split: endian.split)

lemma htons_eq_iff [simp]: "htons e x = htons e y \<longleftrightarrow> x = y"
  using ntohs_htons by metis

text \<open>The two places where \<^verbatim>\<open>proxy.c\<close> moves a 16-bit port through a 32-bit swap.\<close>

lemma bswap32_ucast_bswap16 [byte_order]:
  "ucast (drop_bit 16 (bswap32 (ucast (bswap16 p)))) = p"
  by (rule bit_word_eqI) (auto simp: bit_simps bit_bswap32 bit_bswap16 add.commute)

lemma bswap32_push16 [byte_order]:
  "bswap32 (push_bit 16 (ucast (p :: u16))) = ucast (bswap16 p)"
  by (rule bit_word_eqI) (auto simp: bit_simps bit_bswap32 bit_bswap16 add.commute dest: bit_imp_le_length)

end
