(* ===== verification/Bpf_Kernel.thy ===== *)
theory Bpf_Kernel
  imports Byte_Order
begin

text \<open>
  What the programs of \<^verbatim>\<open>proxy.c\<close> use of the kernel. The kernel is not part of the repository:
  it is a record of helper functions over an arbitrary kernel state, an argument of every
  program. The contract of the helpers, as \<^verbatim>\<open>bpf-builtin.h\<close> documents them, is a family of
  locales: one BPF hash map (\<open>bpf_hash\<close>), the kernel seen by the programs (\<open>bpf_kernel\<close>), and
  two stronger contracts, one where a hash map accepts entries up to its capacity
  (\<open>bpf_kernel_room\<close>) and one where a deleted element stays readable while the program that
  deleted it runs (\<open>bpf_kernel_rcu\<close>).
\<close>

section \<open>The data the maps hold\<close>

definition MAX_CONNECTIONS :: nat where
  "MAX_CONNECTIONS = 100000"

record Config =
  proxy_port :: u16
  proxy_pid :: u64

record Socket =
  src_addr :: u32
  src_port :: u16
  dst_addr :: u32
  dst_port :: u16

section \<open>The helpers as parameters\<close>

text \<open>
  A lookup returns a pointer into the map, or NULL (\<open>None\<close>); \<open>deref\<close> reads the value a pointer
  points to in the current kernel state, so that a program that reads through a pointer after
  it has deleted the element is modelled as it is written. Updates and deletes return 0 or a
  negative error.
\<close>

type_synonym ptr = nat

record ('k, 'key, 'v) map_ops =
  lookup_elem :: "'k \<Rightarrow> 'key \<Rightarrow> ptr option \<times> 'k"
  update_elem :: "'k \<Rightarrow> 'key \<Rightarrow> 'v \<Rightarrow> u64 \<Rightarrow> int \<times> 'k"
  delete_elem :: "'k \<Rightarrow> 'key \<Rightarrow> int \<times> 'k"
  deref :: "'k \<Rightarrow> ptr \<Rightarrow> 'v"

text \<open>
  A hook runs in the context of a task (\<open>task\<close>: its tgid in the upper and its pid in the lower
  32 bits) and for a socket (\<open>sk_id\<close>: the kernel's identity of that socket).
\<close>

record hook =
  task :: u64
  sk_id :: nat

record 'k kernel =
  map_config :: "('k, u32, Config) map_ops"
  map_socks :: "('k, u64, Socket) map_ops"
  map_ports :: "('k, u16, u64) map_ops"
  get_current_pid_tgid :: "hook \<Rightarrow> 'k \<Rightarrow> u64 \<times> 'k"
  get_socket_cookie :: "hook \<Rightarrow> 'k \<Rightarrow> u64 \<times> 'k"
  trace_printk :: "string \<Rightarrow> u64 list \<Rightarrow> 'k \<Rightarrow> int \<times> 'k"

definition BPF_ANY :: u64 where
  "BPF_ANY = 0"

section \<open>The contract of a hash map\<close>

text \<open>
  \<open>get\<close> is the map's content, \<open>rest\<close> whatever else of the kernel state the programs can see,
  which operations on this map leave alone.
\<close>

locale bpf_hash =
  fixes M :: "('k, 'key, 'v) map_ops"
    and inv :: "'k \<Rightarrow> bool"
    and get :: "'k \<Rightarrow> 'key \<Rightarrow> 'v option"
    and rest :: "'k \<Rightarrow> 'r"
    and cap :: nat
  assumes lookup_law:
      "inv k \<Longrightarrow> lookup_elem M k x = (r, k') \<Longrightarrow>
         inv k' \<and> rest k' = rest k \<and> get k' = get k \<and> map_option (deref M k') r = get k x"
    and update_law:
      "inv k \<Longrightarrow> update_elem M k x v BPF_ANY = (rc, k') \<Longrightarrow>
         inv k' \<and> rest k' = rest k \<and> rc \<le> 0 \<and>
         get k' = (if rc = 0 then (get k)(x \<mapsto> v) else get k)"
    and delete_law:
      "inv k \<Longrightarrow> delete_elem M k x = (rc, k') \<Longrightarrow>
         inv k' \<and> rest k' = rest k \<and> get k' = (get k)(x := None)"
    and bounded_law: "inv k \<Longrightarrow> finite (dom (get k)) \<and> card (dom (get k)) \<le> cap"
begin

lemma lookup_None:
  "inv k \<Longrightarrow> lookup_elem M k x = (None, k') \<Longrightarrow>
     inv k' \<and> rest k' = rest k \<and> get k' = get k \<and> get k x = None"
  using lookup_law [of k x None k'] by simp

lemma lookup_Some:
  "inv k \<Longrightarrow> lookup_elem M k x = (Some p, k') \<Longrightarrow>
     inv k' \<and> rest k' = rest k \<and> get k' = get k \<and> get k x = Some (deref M k' p)"
  using lookup_law [of k x "Some p" k'] by simp

lemma lookup_miss: "inv k \<Longrightarrow> get k x = None \<Longrightarrow> fst (lookup_elem M k x) = None"
  by (cases "lookup_elem M k x") (use lookup_law in fastforce)

lemma lookup_hit:
  "inv k \<Longrightarrow> get k x = Some v \<Longrightarrow>
     \<exists>p k'. lookup_elem M k x = (Some p, k') \<and> deref M k' p = v \<and>
            inv k' \<and> rest k' = rest k \<and> get k' = get k"
proof -
  assume i: "inv k" and v: "get k x = Some v"
  obtain r k' where l: "lookup_elem M k x = (r, k')" by fastforce
  from lookup_law [OF i l] v obtain p where "r = Some p" "deref M k' p = v" by auto
  with l lookup_law [OF i l] show ?thesis by blast
qed

lemma update_snd:
  "inv k \<Longrightarrow> inv (snd (update_elem M k x v BPF_ANY)) \<and>
     rest (snd (update_elem M k x v BPF_ANY)) = rest k"
  by (cases "update_elem M k x v BPF_ANY") (use update_law in fastforce)

lemma update_get:
  "inv k \<Longrightarrow>
     get (snd (update_elem M k x v BPF_ANY)) =
       (if fst (update_elem M k x v BPF_ANY) = 0 then (get k)(x \<mapsto> v) else get k)"
  by (cases "update_elem M k x v BPF_ANY") (use update_law in fastforce)

lemma delete_snd:
  "inv k \<Longrightarrow>
     inv (snd (delete_elem M k x)) \<and> rest (snd (delete_elem M k x)) = rest k \<and>
     get (snd (delete_elem M k x)) = (get k)(x := None)"
  by (cases "delete_elem M k x") (use delete_law in fastforce)

end

section \<open>The contract of the kernel\<close>

text \<open>
  The content of the three maps. \<open>map_config\<close> is an array of one element: it always exists, so
  its lookup at index 0 never fails, and its address does not change.
\<close>

record view =
  v_config :: Config
  v_socks :: "u64 \<Rightarrow> Socket option"
  v_ports :: "u16 \<Rightarrow> u64 option"

abbreviation rest_of_socks :: "('k \<Rightarrow> view) \<Rightarrow> 'k \<Rightarrow> Config \<times> (u16 \<Rightarrow> u64 option)" where
  "rest_of_socks obs k \<equiv> (v_config (obs k), v_ports (obs k))"

abbreviation rest_of_ports :: "('k \<Rightarrow> view) \<Rightarrow> 'k \<Rightarrow> Config \<times> (u64 \<Rightarrow> Socket option)" where
  "rest_of_ports obs k \<equiv> (v_config (obs k), v_socks (obs k))"

locale bpf_kernel =
  socks: bpf_hash "map_socks K" inv "\<lambda>k. v_socks (obs k)" "rest_of_socks obs" MAX_CONNECTIONS +
  ports: bpf_hash "map_ports K" inv "\<lambda>k. v_ports (obs k)" "rest_of_ports obs" MAX_CONNECTIONS
  for K :: "'k kernel" and inv :: "'k \<Rightarrow> bool" and obs :: "'k \<Rightarrow> view" +
  fixes cookie :: "nat \<Rightarrow> u64" and config_ptr :: ptr
  assumes config_law:
      "inv k \<Longrightarrow> lookup_elem (map_config K) k 0 = (r, k') \<Longrightarrow>
         r = Some config_ptr \<and> inv k' \<and> obs k' = obs k"
    and config_deref: "inv k \<Longrightarrow> deref (map_config K) k config_ptr = v_config (obs k)"
    and config_update:
      "inv k \<Longrightarrow> update_elem (map_config K) k 0 c BPF_ANY = (rc, k') \<Longrightarrow>
         rc = 0 \<and> inv k' \<and> obs k' = (obs k)\<lparr>v_config := c\<rparr>"
    and pid_law:
      "inv k \<Longrightarrow> get_current_pid_tgid K h k = (n, k') \<Longrightarrow> n = task h \<and> inv k' \<and> obs k' = obs k"
    and cookie_law:
      "inv k \<Longrightarrow> get_socket_cookie K h k = (ck, k') \<Longrightarrow>
         ck = cookie (sk_id h) \<and> inv k' \<and> obs k' = obs k"
    and printk_law: "inv k \<Longrightarrow> trace_printk K f as k = (rc, k') \<Longrightarrow> inv k' \<and> obs k' = obs k"
begin

lemma config_lookup:
  "inv k \<Longrightarrow> \<exists>k'. lookup_elem (map_config K) k 0 = (Some config_ptr, k') \<and> inv k' \<and> obs k' = obs k"
  by (cases "lookup_elem (map_config K) k 0") (use config_law in fastforce)

lemma pid_result:
  "inv k \<Longrightarrow> \<exists>k'. get_current_pid_tgid K h k = (task h, k') \<and> inv k' \<and> obs k' = obs k"
  by (cases "get_current_pid_tgid K h k") (use pid_law in fastforce)

lemma cookie_result:
  "inv k \<Longrightarrow> \<exists>k'. get_socket_cookie K h k = (cookie (sk_id h), k') \<and> inv k' \<and> obs k' = obs k"
  by (cases "get_socket_cookie K h k") (use cookie_law in fastforce)

lemma printk_snd:
  "inv k \<Longrightarrow> inv (snd (trace_printk K f as k)) \<and> obs (snd (trace_printk K f as k)) = obs k"
  by (cases "trace_printk K f as k") (use printk_law in fastforce)

end

text \<open>An update of a map that has the key, or room for it, succeeds; a full map refuses a new key.\<close>

locale bpf_kernel_room = bpf_kernel +
  assumes socks_room:
      "inv k \<Longrightarrow> fst (update_elem (map_socks K) k c s BPF_ANY) = 0 \<longleftrightarrow>
         c \<in> dom (v_socks (obs k)) \<or> card (dom (v_socks (obs k))) < MAX_CONNECTIONS"
    and ports_room:
      "inv k \<Longrightarrow> fst (update_elem (map_ports K) k p c BPF_ANY) = 0 \<longleftrightarrow>
         p \<in> dom (v_ports (obs k)) \<or> card (dom (v_ports (obs k))) < MAX_CONNECTIONS"

text \<open>
  The memory of an element of \<open>map_ports\<close> keeps its value over a lookup in \<open>map_socks\<close>, a trace
  message, and the deletion of the element itself, until the program that holds the pointer ends.
\<close>

locale bpf_kernel_rcu = bpf_kernel +
  assumes ports_stable_lookup:
      "inv k \<Longrightarrow> deref (map_ports K) (snd (lookup_elem (map_socks K) k c)) q = deref (map_ports K) k q"
    and ports_stable_printk:
      "inv k \<Longrightarrow> deref (map_ports K) (snd (trace_printk K f as k)) q = deref (map_ports K) k q"
    and ports_stable_delete:
      "inv k \<Longrightarrow> deref (map_ports K) (snd (delete_elem (map_ports K) k p)) q = deref (map_ports K) k q"

locale bpf_kernel_full = bpf_kernel_room + bpf_kernel_rcu

end
