(* ===== verification/Proxy_Progs.thy ===== *)
theory Proxy_Progs
  imports Bpf_Kernel
begin

text \<open>
  The three eBPF programs of \<^verbatim>\<open>proxy.c\<close>: \<open>cg_connect4\<close> redirects a client's connect() to the proxy
  and remembers the destination, \<open>cg_sock_ops\<close> records the client's source port once the
  connection is established, and \<open>cg_sock_opt\<close> answers the proxy's SO_ORIGINAL_DST query. Each
  takes the target's byte order, the kernel's helpers, the kernel state and the hook's context,
  and returns its verdict, the new state and the context as the program leaves it.
\<close>

section \<open>Constants of the system headers\<close>

definition AF_INET :: u32 where
  "AF_INET = 2"

definition IPPROTO_TCP :: u32 where
  "IPPROTO_TCP = 6"

definition SO_ORIGINAL_DST :: int where
  "SO_ORIGINAL_DST = 80"

definition BPF_SOCK_OPS_ACTIVE_ESTABLISHED_CB :: u32 where
  "BPF_SOCK_OPS_ACTIVE_ESTABLISHED_CB = 4"

definition sizeof_sockaddr_in :: nat where
  "sizeof_sockaddr_in = 16"

section \<open>Trace messages\<close>

definition connect_fmt :: string where
  "connect_fmt = ''Redirecting client connection to proxy: %d:%d'' @ [CHR 0x0A]"

definition sockops_fmt :: string where
  "sockops_fmt = ''sockops hook successful'' @ [CHR 0x0A]"

definition sockopt_fmt :: string where
  "sockopt_fmt = ''Redirecting connection to original destination'' @ [CHR 0x0A]"

section \<open>Hook contexts\<close>

text \<open>
  The fields the programs use. \<open>user_ip4\<close> and \<open>user_port\<close> are in network byte order, the port in
  the low-addressed half of its 32 bits; \<open>local_port\<close> is in host byte order; \<open>sk_dst_port\<close> is a
  \<^verbatim>\<open>__be16\<close>. \<open>optval\<close> holds the bytes from \<^verbatim>\<open>optval\<close> up to \<^verbatim>\<open>optval_end\<close>.
\<close>

record bpf_sock_addr =
  user_family :: u32
  user_ip4 :: u32
  user_port :: u32
  protocol :: u32

record bpf_sock_ops =
  op :: u32
  family :: u32
  local_port :: u32

record bpf_sock =
  sk_family :: u32
  sk_protocol :: u32
  sk_dst_port :: u16

record bpf_sockopt =
  sk :: bpf_sock
  optname :: int
  optlen :: int
  retval :: int
  optval :: "u8 list"

section \<open>The tracing macros\<close>

text \<open>
  \<^verbatim>\<open>bpf_printk\<close> of \<^verbatim>\<open>proxy.c\<close> has the value of the helper, \<^verbatim>\<open>debug_printf\<close> of \<^verbatim>\<open>bpf-utils.h\<close> is a
  statement. The first keeps the format in read-only memory and the second on the stack, which
  the helper does not distinguish; the programs use the first and drop its value.
\<close>

definition bpf_printk :: "'k kernel \<Rightarrow> string \<Rightarrow> u64 list \<Rightarrow> 'k \<Rightarrow> int \<times> 'k" where
  "bpf_printk K fmt args k = trace_printk K fmt args k"

definition debug_printf :: "'k kernel \<Rightarrow> string \<Rightarrow> u64 list \<Rightarrow> 'k \<Rightarrow> 'k" where
  "debug_printf K fmt args k = snd (trace_printk K fmt args k)"

section \<open>cg\_connect4\<close>

definition cg_connect4 ::
  "endian \<Rightarrow> 'k kernel \<Rightarrow> hook \<Rightarrow> 'k \<Rightarrow> bpf_sock_addr \<Rightarrow> int \<times> 'k \<times> bpf_sock_addr" where
  "cg_connect4 e K h k ctx =
     (if user_family ctx \<noteq> AF_INET then (1, k, ctx)
      else if protocol ctx \<noteq> IPPROTO_TCP then (1, k, ctx)
      else if user_port ctx \<noteq> ucast (htons e 9000) then (1, k, ctx)
      else case lookup_elem (map_config K) k 0 of
        (None, k1) \<Rightarrow> (1, k1, ctx)
      | (Some conf, k1) \<Rightarrow>
         (case get_current_pid_tgid K h k1 of (pid_tgid, k2) \<Rightarrow>
           if drop_bit 32 pid_tgid = proxy_pid (deref (map_config K) k2 conf) then (1, k2, ctx)
           else
             (let dst_a = ntohl e (user_ip4 ctx);
                  dst_p = (ucast (drop_bit 16 (ntohl e (user_port ctx))) :: u16)
              in case get_socket_cookie K h k2 of (cookie, k3) \<Rightarrow>
                (let sock = \<lparr>src_addr = 0, src_port = 0, dst_addr = dst_a, dst_port = dst_p\<rparr>;
                     k4 = snd (update_elem (map_socks K) k3 cookie sock BPF_ANY);
                     ctx' = ctx\<lparr>user_ip4 := htonl e 0x7f000001,
                                user_port := htonl e (push_bit 16
                                  (ucast (proxy_port (deref (map_config K) k4 conf))))\<rparr>;
                     k5 = snd (trace_printk K connect_fmt [ucast dst_a, ucast dst_p] k4)
                 in (1, k5, ctx')))))"

section \<open>cg\_sock\_ops\<close>

definition cg_sock_ops ::
  "endian \<Rightarrow> 'k kernel \<Rightarrow> hook \<Rightarrow> 'k \<Rightarrow> bpf_sock_ops \<Rightarrow> int \<times> 'k" where
  "cg_sock_ops e K h k ctx =
     (if family ctx \<noteq> AF_INET then (0, k)
      else
        (let k' =
           (if op ctx = BPF_SOCK_OPS_ACTIVE_ESTABLISHED_CB then
              (case get_socket_cookie K h k of (cookie, k1) \<Rightarrow>
                 (case lookup_elem (map_socks K) k1 cookie of
                    (None, k2) \<Rightarrow> k2
                  | (Some sock, k2) \<Rightarrow>
                      (let src_p = (ucast (local_port ctx) :: u16)
                       in snd (update_elem (map_ports K) k2 src_p cookie BPF_ANY))))
            else k)
         in (0, snd (trace_printk K sockops_fmt [] k'))))"

section \<open>cg\_sock\_opt\<close>

text \<open>
  The program writes the family, port and address of a \<^verbatim>\<open>struct sockaddr_in\<close> at \<^verbatim>\<open>optval\<close>; the
  eight bytes of padding, and anything behind the structure, stay as they were.
\<close>

definition write_sockaddr_in :: "endian \<Rightarrow> u16 \<Rightarrow> u16 \<Rightarrow> u32 \<Rightarrow> u8 list \<Rightarrow> u8 list" where
  "write_sockaddr_in e sin_family sin_port s_addr buf =
     store16 e sin_family @ store16 e sin_port @ store32 e s_addr @ drop 8 buf"

definition cg_sock_opt ::
  "endian \<Rightarrow> 'k kernel \<Rightarrow> 'k \<Rightarrow> bpf_sockopt \<Rightarrow> int \<times> 'k \<times> bpf_sockopt" where
  "cg_sock_opt e K k ctx =
     (if optname ctx \<noteq> SO_ORIGINAL_DST then (1, k, ctx)
      else if sk_family (sk ctx) \<noteq> AF_INET then (1, k, ctx)
      else if sk_protocol (sk ctx) \<noteq> IPPROTO_TCP then (1, k, ctx)
      else
        (let src_p = ntohs e (sk_dst_port (sk ctx))
         in case lookup_elem (map_ports K) k src_p of
           (None, k1) \<Rightarrow> (1, k1, ctx)
         | (Some cookie, k1) \<Rightarrow>
            (case lookup_elem (map_socks K) k1 (deref (map_ports K) k1 cookie) of
               (None, k2) \<Rightarrow> (1, k2, ctx)
             | (Some sock, k2) \<Rightarrow>
                (if length (optval ctx) < sizeof_sockaddr_in then (1, k2, ctx)
                 else
                   (let s = deref (map_socks K) k2 sock;
                        ctx' = ctx\<lparr>optlen := int sizeof_sockaddr_in,
                                   optval := write_sockaddr_in e (ucast (sk_family (sk ctx)))
                                     (htons e (dst_port s)) (htonl e (dst_addr s)) (optval ctx),
                                   retval := 0\<rparr>;
                        k3 = snd (trace_printk K sockopt_fmt [] k2);
                        k4 = snd (delete_elem (map_ports K) k3 src_p);
                        k5 = snd (delete_elem (map_socks K) k4 (deref (map_ports K) k4 cookie))
                    in (1, k5, ctx'))))))"

end
