(* ===== verification/Nat_Spec.thy ===== *)
theory Nat_Spec
  imports Proxy_Progs
begin

text \<open>
  What the three programs promise together, stated on the content of the maps alone: a small
  address-translation table. A connection the proxy must see is \<^emph>\<open>intercepted\<close>: its destination is
  remembered under the socket's cookie and the client is sent to the proxy; once the client's port is
  known it is tied to the cookie; a query for a port yields the remembered destination and
  forgets it. Every program refines its step here.
\<close>

section \<open>The abstract steps\<close>

text \<open>Which connect() calls are intercepted.\<close>

definition intercepted :: "endian \<Rightarrow> Config \<Rightarrow> hook \<Rightarrow> bpf_sock_addr \<Rightarrow> bool" where
  "intercepted e cfg h ctx \<longleftrightarrow>
     user_family ctx = AF_INET \<and> protocol ctx = IPPROTO_TCP \<and>
     user_port ctx = ucast (htons e 9000) \<and> drop_bit 32 (task h) \<noteq> proxy_pid cfg"

text \<open>What is remembered of an intercepted call, and where the call is sent.\<close>

definition remembered :: "endian \<Rightarrow> bpf_sock_addr \<Rightarrow> Socket" where
  "remembered e ctx =
     \<lparr>src_addr = 0, src_port = 0, dst_addr = ntohl e (user_ip4 ctx),
      dst_port = ucast (drop_bit 16 (ntohl e (user_port ctx)))\<rparr>"

definition redirected :: "endian \<Rightarrow> Config \<Rightarrow> bpf_sock_addr \<Rightarrow> bpf_sock_addr" where
  "redirected e cfg ctx =
     ctx\<lparr>user_ip4 := htonl e 0x7f000001,
         user_port := htonl e (push_bit 16 (ucast (proxy_port cfg)))\<rparr>"

text \<open>The maps take a key they hold, or a new one while they have room.\<close>

definition accepts :: "('key \<Rightarrow> 'v option) \<Rightarrow> 'key \<Rightarrow> bool" where
  "accepts m x \<longleftrightarrow> x \<in> dom m \<or> card (dom m) < MAX_CONNECTIONS"

definition nat_connect :: "endian \<Rightarrow> u64 \<Rightarrow> hook \<Rightarrow> bpf_sock_addr \<Rightarrow> view \<Rightarrow> view" where
  "nat_connect e c h ctx v =
     (if intercepted e (v_config v) h ctx \<and> accepts (v_socks v) c
      then v\<lparr>v_socks := (v_socks v)(c \<mapsto> remembered e ctx)\<rparr> else v)"

definition nat_established :: "u64 \<Rightarrow> bpf_sock_ops \<Rightarrow> view \<Rightarrow> view" where
  "nat_established c ctx v =
     (if family ctx = AF_INET \<and> op ctx = BPF_SOCK_OPS_ACTIVE_ESTABLISHED_CB \<and>
         v_socks v c \<noteq> None \<and> accepts (v_ports v) (ucast (local_port ctx))
      then v\<lparr>v_ports := (v_ports v)(ucast (local_port ctx) \<mapsto> c)\<rparr> else v)"

definition original_dst :: "view \<Rightarrow> u16 \<Rightarrow> Socket option" where
  "original_dst v p = (case v_ports v p of None \<Rightarrow> None | Some c \<Rightarrow> v_socks v c)"

definition is_query :: "bpf_sockopt \<Rightarrow> bool" where
  "is_query ctx \<longleftrightarrow>
     optname ctx = SO_ORIGINAL_DST \<and> sk_family (sk ctx) = AF_INET \<and>
     sk_protocol (sk ctx) = IPPROTO_TCP \<and> sizeof_sockaddr_in \<le> length (optval ctx)"

definition forget :: "u16 \<Rightarrow> view \<Rightarrow> view" where
  "forget p v =
     (case v_ports v p of
        None \<Rightarrow> v
      | Some c \<Rightarrow> v\<lparr>v_ports := (v_ports v)(p := None), v_socks := (v_socks v)(c := None)\<rparr>)"

definition answer :: "endian \<Rightarrow> Socket \<Rightarrow> bpf_sockopt \<Rightarrow> bpf_sockopt" where
  "answer e s ctx =
     ctx\<lparr>optlen := 16, retval := 0,
         optval := write_sockaddr_in e 2 (htons e (dst_port s)) (htonl e (dst_addr s)) (optval ctx)\<rparr>"

definition nat_query :: "endian \<Rightarrow> bpf_sockopt \<Rightarrow> view \<Rightarrow> view \<times> bpf_sockopt" where
  "nat_query e ctx v =
     (let p = ntohs e (sk_dst_port (sk ctx))
      in case original_dst v p of
           None \<Rightarrow> (v, ctx)
         | Some s \<Rightarrow> if is_query ctx then (forget p v, answer e s ctx) else (v, ctx))"

section \<open>The programs under the kernel's contract\<close>

context bpf_kernel
begin

text \<open>Operations on one map leave the whole view but that map alone.\<close>

lemma socks_hit:
  "inv k \<Longrightarrow> v_socks (obs k) c = Some s \<Longrightarrow>
     \<exists>q k'. lookup_elem (map_socks K) k c = (Some q, k') \<and> deref (map_socks K) k' q = s \<and>
            inv k' \<and> obs k' = obs k"
  using socks.lookup_hit [of k c s] by (auto intro!: view.equality)

lemma ports_hit:
  "inv k \<Longrightarrow> v_ports (obs k) p = Some c \<Longrightarrow>
     \<exists>q k'. lookup_elem (map_ports K) k p = (Some q, k') \<and> deref (map_ports K) k' q = c \<and>
            inv k' \<and> obs k' = obs k"
  using ports.lookup_hit [of k p c] by (auto intro!: view.equality)

lemma socks_miss:
  "inv k \<Longrightarrow> v_socks (obs k) c = None \<Longrightarrow>
     \<exists>k'. lookup_elem (map_socks K) k c = (None, k') \<and> inv k' \<and> obs k' = obs k"
  by (cases "lookup_elem (map_socks K) k c")
    (use socks.lookup_law [of k c] in \<open>auto intro!: view.equality\<close>)

lemma ports_miss:
  "inv k \<Longrightarrow> v_ports (obs k) p = None \<Longrightarrow>
     \<exists>k'. lookup_elem (map_ports K) k p = (None, k') \<and> inv k' \<and> obs k' = obs k"
  by (cases "lookup_elem (map_ports K) k p")
    (use ports.lookup_law [of k p] in \<open>auto intro!: view.equality\<close>)

text \<open>\<open>cg_connect4\<close>: the calls it lets pass, and the calls it intercepts.\<close>

lemma connect4_pass:
  assumes i: "inv k" and n: "\<not> intercepted e (v_config (obs k)) h ctx"
  shows "\<exists>k'. cg_connect4 e K h k ctx = (1, k', ctx) \<and> inv k' \<and> obs k' = obs k"
proof -
  obtain k1 where k1: "lookup_elem (map_config K) k 0 = (Some config_ptr, k1)" "inv k1" "obs k1 = obs k"
    using config_lookup [OF i] by blast
  obtain k2 where k2: "get_current_pid_tgid K h k1 = (task h, k2)" "inv k2" "obs k2 = obs k"
    using pid_result [OF k1(2)] k1(3) by metis
  show ?thesis
    using n i k1 k2 by (auto simp: cg_connect4_def intercepted_def config_deref)
qed

lemma connect4_intercept:
  assumes i: "inv k" and int: "intercepted e (v_config (obs k)) h ctx"
  obtains k3 k' where "inv k3" "obs k3 = obs k" "inv k'"
    "cg_connect4 e K h k ctx = (1, k', redirected e (v_config (obs k)) ctx)"
    "obs k' = obs (snd (update_elem (map_socks K) k3 (cookie (sk_id h)) (remembered e ctx) BPF_ANY))"
proof -
  obtain k1 where k1: "lookup_elem (map_config K) k 0 = (Some config_ptr, k1)" "inv k1" "obs k1 = obs k"
    using config_lookup [OF i] by blast
  obtain k2 where k2: "get_current_pid_tgid K h k1 = (task h, k2)" "inv k2" "obs k2 = obs k"
    using pid_result [OF k1(2)] k1(3) by metis
  obtain k3 where k3: "get_socket_cookie K h k2 = (cookie (sk_id h), k3)" "inv k3" "obs k3 = obs k"
    using cookie_result [OF k2(2)] k2(3) by metis
  let ?k4 = "snd (update_elem (map_socks K) k3 (cookie (sk_id h)) (remembered e ctx) BPF_ANY)"
  have k4: "inv ?k4" "v_config (obs ?k4) = v_config (obs k)"
    using socks.update_snd [OF k3(2)] k3(3) by auto
  let ?k5 = "snd (trace_printk K connect_fmt
    [ucast (dst_addr (remembered e ctx)), ucast (dst_port (remembered e ctx))] ?k4)"
  have "cg_connect4 e K h k ctx = (1, ?k5, redirected e (v_config (obs k)) ctx)"
    using int k1 k2 k3 k4
    by (simp add: cg_connect4_def intercepted_def config_deref redirected_def remembered_def Let_def)
  moreover have "inv ?k5" "obs ?k5 = obs ?k4"
    using printk_snd [OF k4(1)] by simp_all
  ultimately show thesis
    using that [OF k3(2,3)] by blast
qed

text \<open>\<open>cg_sock_ops\<close>: its verdict is always 0; which calls record a port.\<close>

lemma sock_ops_idle:
  assumes i: "inv k"
    and n: "family ctx \<noteq> AF_INET \<or> op ctx \<noteq> BPF_SOCK_OPS_ACTIVE_ESTABLISHED_CB \<or>
            v_socks (obs k) (cookie (sk_id h)) = None"
  shows "\<exists>k'. cg_sock_ops e K h k ctx = (0, k') \<and> inv k' \<and> obs k' = obs k"
proof -
  obtain k1 where k1: "get_socket_cookie K h k = (cookie (sk_id h), k1)" "inv k1" "obs k1 = obs k"
    using cookie_result [OF i] by metis
  let ?up = "family ctx = AF_INET \<and> op ctx = BPF_SOCK_OPS_ACTIVE_ESTABLISHED_CB"
  show ?thesis
  proof (cases ?up)
    case False
    with i printk_snd [OF i] show ?thesis by (auto simp: cg_sock_ops_def Let_def)
  next
    case True
    with n k1(3) have "v_socks (obs k1) (cookie (sk_id h)) = None" by auto
    from socks_miss [OF k1(2) this] obtain k2
      where k2: "lookup_elem (map_socks K) k1 (cookie (sk_id h)) = (None, k2)" "inv k2" "obs k2 = obs k"
      using k1(3) by auto
    from True k1(1) k2 printk_snd [OF k2(2)] show ?thesis
      by (auto simp: cg_sock_ops_def Let_def)
  qed
qed

lemma sock_ops_record:
  assumes i: "inv k" and f: "family ctx = AF_INET" "op ctx = BPF_SOCK_OPS_ACTIVE_ESTABLISHED_CB"
    and s: "v_socks (obs k) (cookie (sk_id h)) \<noteq> None"
  obtains k2 k' where "inv k2" "obs k2 = obs k" "inv k'"
    "cg_sock_ops e K h k ctx = (0, k')"
    "obs k' = obs (snd (update_elem (map_ports K) k2 (ucast (local_port ctx)) (cookie (sk_id h)) BPF_ANY))"
proof -
  obtain k1 where k1: "get_socket_cookie K h k = (cookie (sk_id h), k1)" "inv k1" "obs k1 = obs k"
    using cookie_result [OF i] by metis
  from s obtain v where "v_socks (obs k1) (cookie (sk_id h)) = Some v" using k1(3) by auto
  from socks_hit [OF k1(2) this] obtain q k2
    where l: "lookup_elem (map_socks K) k1 (cookie (sk_id h)) = (Some q, k2)"
      and k2: "inv k2" "obs k2 = obs k"
    using k1(3) by auto
  let ?k3 = "snd (update_elem (map_ports K) k2 (ucast (local_port ctx)) (cookie (sk_id h)) BPF_ANY)"
  have k3: "inv ?k3" using ports.update_snd [OF k2(1)] by blast
  show thesis
    by (rule that [OF k2, of "snd (trace_printk K sockops_fmt [] ?k3)"])
      (use f k1 l printk_snd [OF k3] in \<open>auto simp: cg_sock_ops_def Let_def\<close>)
qed

text \<open>
  \<open>cg_sock_opt\<close>: the queries it leaves to the kernel, and the queries it answers. Without the
  promise that a deleted element stays readable, all that is known of the second deletion is that
  it removes one entry of \<open>map_socks\<close>.
\<close>

lemma sock_opt_decline:
  assumes i: "inv k" and n: "\<not> is_query ctx \<or> original_dst (obs k) (ntohs e (sk_dst_port (sk ctx))) = None"
  shows "\<exists>k'. cg_sock_opt e K k ctx = (1, k', ctx) \<and> inv k' \<and> obs k' = obs k"
proof (cases "optname ctx = SO_ORIGINAL_DST \<and> sk_family (sk ctx) = AF_INET \<and>
              sk_protocol (sk ctx) = IPPROTO_TCP")
  case False
  with i show ?thesis by (auto simp: cg_sock_opt_def)
next
  case guards: True
  let ?p = "ntohs e (sk_dst_port (sk ctx))"
  show ?thesis
  proof (cases "v_ports (obs k) ?p")
    case None
    from ports_miss [OF i this] guards show ?thesis by (auto simp: cg_sock_opt_def)
  next
    case (Some c)
    from ports_hit [OF i this] obtain q k1
      where k1: "lookup_elem (map_ports K) k ?p = (Some q, k1)" "deref (map_ports K) k1 q = c"
        "inv k1" "obs k1 = obs k" by blast
    show ?thesis
    proof (cases "v_socks (obs k1) c")
      case None
      from socks_miss [OF k1(3) this] k1 guards show ?thesis by (auto simp: cg_sock_opt_def)
    next
      case s: (Some s)
      with n guards Some k1(4) have "length (optval ctx) < sizeof_sockaddr_in"
        by (auto simp: is_query_def original_dst_def)
      with socks_hit [OF k1(3) s] k1 guards show ?thesis by (auto simp: cg_sock_opt_def)
    qed
  qed
qed

lemma sock_opt_answer:
  assumes i: "inv k" and q: "is_query ctx"
    and p: "v_ports (obs k) (ntohs e (sk_dst_port (sk ctx))) = Some c"
    and s: "v_socks (obs k) c = Some s"
  obtains a k1 k2 k5 where
    "inv k1" "obs k1 = obs k" "deref (map_ports K) k1 a = c"
    "k2 = snd (delete_elem (map_ports K)
             (snd (trace_printk K sockopt_fmt [] (snd (lookup_elem (map_socks K) k1 c))))
             (ntohs e (sk_dst_port (sk ctx))))"
    "k5 = snd (delete_elem (map_socks K) k2 (deref (map_ports K) k2 a))"
    "inv (snd (lookup_elem (map_socks K) k1 c))"
    "inv (snd (trace_printk K sockopt_fmt [] (snd (lookup_elem (map_socks K) k1 c))))"
    "cg_sock_opt e K k ctx = (1, k5, answer e s ctx)"
    "inv k5"
    "obs k5 = (obs k)\<lparr>v_ports := (v_ports (obs k))(ntohs e (sk_dst_port (sk ctx)) := None),
                     v_socks := (v_socks (obs k))(deref (map_ports K) k2 a := None)\<rparr>"
proof -
  let ?p = "ntohs e (sk_dst_port (sk ctx))"
  from ports_hit [OF i p] obtain a k1
    where k1: "lookup_elem (map_ports K) k ?p = (Some a, k1)" "deref (map_ports K) k1 a = c"
      "inv k1" "obs k1 = obs k" by blast
  from s k1(4) have "v_socks (obs k1) c = Some s" by simp
  from socks_hit [OF k1(3) this] obtain b k2
    where k2: "lookup_elem (map_socks K) k1 c = (Some b, k2)" "deref (map_socks K) k2 b = s"
      "inv k2" "obs k2 = obs k" using k1(4) by auto
  let ?k3 = "snd (trace_printk K sockopt_fmt [] k2)"
  let ?k4 = "snd (delete_elem (map_ports K) ?k3 ?p)"
  let ?k5 = "snd (delete_elem (map_socks K) ?k4 (deref (map_ports K) ?k4 a))"
  have k3: "inv ?k3" "obs ?k3 = obs k" using printk_snd [OF k2(3)] k2(4) by simp_all
  have k4: "inv ?k4" "v_config (obs ?k4) = v_config (obs k)" "v_socks (obs ?k4) = v_socks (obs k)"
      "v_ports (obs ?k4) = (v_ports (obs k))(?p := None)"
    using ports.delete_snd [OF k3(1), of ?p] k3(2) by simp_all
  have k5: "inv ?k5" "v_config (obs ?k5) = v_config (obs k)"
      "v_ports (obs ?k5) = (v_ports (obs k))(?p := None)"
      "v_socks (obs ?k5) = (v_socks (obs k))(deref (map_ports K) ?k4 a := None)"
    using socks.delete_snd [OF k4(1), of "deref (map_ports K) ?k4 a"] k4(2-4) by simp_all
  have "cg_sock_opt e K k ctx = (1, ?k5, answer e s ctx)"
    using q k1 k2
    by (simp add: cg_sock_opt_def is_query_def answer_def sizeof_sockaddr_in_def AF_INET_def Let_def)
  note cg = this
  show thesis
    by (rule that [OF k1(3,4,2), of ?k4 ?k5]) (use cg k2 k3 k5 in \<open>simp_all add: view.equality\<close>)
qed

end

section \<open>Refinement\<close>

context bpf_kernel_room
begin

lemma connect4_refines:
  assumes i: "inv k"
  shows "\<exists>k'. cg_connect4 e K h k ctx =
           (1, k', if intercepted e (v_config (obs k)) h ctx
                   then redirected e (v_config (obs k)) ctx else ctx) \<and>
           inv k' \<and> obs k' = nat_connect e (cookie (sk_id h)) h ctx (obs k)"
proof (cases "intercepted e (v_config (obs k)) h ctx")
  case False
  from connect4_pass [OF i this] False show ?thesis by (auto simp: nat_connect_def)
next
  case True
  from connect4_intercept [OF i this] obtain k3 k'
    where k3: "inv k3" "obs k3 = obs k" and k': "inv k'"
      and cg: "cg_connect4 e K h k ctx = (1, k', redirected e (v_config (obs k)) ctx)"
      and obs: "obs k' = obs (snd (update_elem (map_socks K) k3 (cookie (sk_id h)) (remembered e ctx) BPF_ANY))"
    by metis
  have "obs k' = nat_connect e (cookie (sk_id h)) h ctx (obs k)"
    using True socks.update_snd [OF k3(1)] socks.update_get [OF k3(1)] socks_room [OF k3(1)] k3(2) obs
    by (intro view.equality) (auto simp: nat_connect_def accepts_def)
  with True cg k' show ?thesis by auto
qed

lemma sock_ops_refines:
  assumes i: "inv k"
  shows "\<exists>k'. cg_sock_ops e K h k ctx = (0, k') \<and> inv k' \<and>
           obs k' = nat_established (cookie (sk_id h)) ctx (obs k)"
proof (cases "family ctx = AF_INET \<and> op ctx = BPF_SOCK_OPS_ACTIVE_ESTABLISHED_CB \<and>
              v_socks (obs k) (cookie (sk_id h)) \<noteq> None")
  case False
  with sock_ops_idle [OF i, of ctx h e] show ?thesis by (auto simp: nat_established_def)
next
  case True
  then obtain k2 k' where k2: "inv k2" "obs k2 = obs k" and k': "inv k'"
      and cg: "cg_sock_ops e K h k ctx = (0, k')"
      and obs: "obs k' = obs (snd (update_elem (map_ports K) k2 (ucast (local_port ctx)) (cookie (sk_id h)) BPF_ANY))"
    using sock_ops_record [OF i] by metis
  have "obs k' = nat_established (cookie (sk_id h)) ctx (obs k)"
    using True ports.update_snd [OF k2(1)] ports.update_get [OF k2(1)] ports_room [OF k2(1)] k2(2) obs
    by (intro view.equality) (auto simp: nat_established_def accepts_def)
  with cg k' show ?thesis by auto
qed

end

context bpf_kernel_rcu
begin

lemma sock_opt_refines:
  assumes i: "inv k"
  shows "\<exists>k'. cg_sock_opt e K k ctx = (1, k', snd (nat_query e ctx (obs k))) \<and> inv k' \<and>
           obs k' = fst (nat_query e ctx (obs k))"
proof (cases "is_query ctx \<and> original_dst (obs k) (ntohs e (sk_dst_port (sk ctx))) \<noteq> None")
  case False
  with sock_opt_decline [OF i, of ctx e] show ?thesis
    by (auto simp: nat_query_def Let_def split: option.splits)
next
  case True
  then obtain c s where c: "v_ports (obs k) (ntohs e (sk_dst_port (sk ctx))) = Some c"
      and s: "v_socks (obs k) c = Some s"
    by (auto simp: original_dst_def split: option.splits)
  from True have q: "is_query ctx" by simp
  from sock_opt_answer [OF i q c s] obtain a k1 k2 k5 where
    k1: "inv k1" "deref (map_ports K) k1 a = c"
    and k2: "k2 = snd (delete_elem (map_ports K)
             (snd (trace_printk K sockopt_fmt [] (snd (lookup_elem (map_socks K) k1 c))))
             (ntohs e (sk_dst_port (sk ctx))))"
    and i2: "inv (snd (lookup_elem (map_socks K) k1 c))"
    "inv (snd (trace_printk K sockopt_fmt [] (snd (lookup_elem (map_socks K) k1 c))))"
    and k5: "cg_sock_opt e K k ctx = (1, k5, answer e s ctx)" "inv k5"
    "obs k5 = (obs k)\<lparr>v_ports := (v_ports (obs k))(ntohs e (sk_dst_port (sk ctx)) := None),
                     v_socks := (v_socks (obs k))(deref (map_ports K) k2 a := None)\<rparr>"
    by metis
  have "deref (map_ports K) k2 a = c"
    using k1 i2 by (simp add: k2 ports_stable_delete ports_stable_printk ports_stable_lookup)
  with k5 q c s show ?thesis
    by (auto simp: nat_query_def Let_def original_dst_def forget_def)
qed

end

end
