(* ===== verification/Slot_Table.thy ===== *)
theory Slot_Table
  imports Prelude
begin

text \<open>
  A preallocated hash map as the kernel keeps it: element slots that are live or free. Deleting
  an element frees its slot and leaves the slot's memory as it is; a new key takes a freed slot
  before it takes an unused one. A pointer to an element is the index of its slot.
\<close>

section \<open>The table\<close>

record ('key, 'v) slot =
  live :: bool
  key :: 'key
  val :: 'v

fun slot_find :: "('key, 'v) slot list \<Rightarrow> 'key \<Rightarrow> nat option" where
  "slot_find [] x = None"
| "slot_find (s # ss) x =
     (if live s \<and> key s = x then Some 0 else map_option Suc (slot_find ss x))"

fun slot_free :: "('key, 'v) slot list \<Rightarrow> nat option" where
  "slot_free [] = None"
| "slot_free (s # ss) = (if live s then map_option Suc (slot_free ss) else Some 0)"

text \<open>\<open>-2\<close> is \<^verbatim>\<open>-ENOENT\<close>, \<open>-7\<close> is \<^verbatim>\<open>-E2BIG\<close>.\<close>

definition slot_update ::
  "nat \<Rightarrow> ('key, 'v) slot list \<Rightarrow> 'key \<Rightarrow> 'v \<Rightarrow> int \<times> ('key, 'v) slot list" where
  "slot_update cap ss x v =
     (let s = \<lparr>live = True, key = x, val = v\<rparr>
      in case slot_find ss x of
           Some i \<Rightarrow> (0, ss[i := s])
         | None \<Rightarrow>
            (case slot_free ss of
               Some i \<Rightarrow> (0, ss[i := s])
             | None \<Rightarrow> if length ss < cap then (0, ss @ [s]) else (-7, ss)))"

definition slot_delete :: "('key, 'v) slot list \<Rightarrow> 'key \<Rightarrow> int \<times> ('key, 'v) slot list" where
  "slot_delete ss x =
     (case slot_find ss x of
        Some i \<Rightarrow> (0, ss[i := (ss ! i)\<lparr>live := False\<rparr>])
      | None \<Rightarrow> (-2, ss))"

definition slot_get :: "('key, 'v) slot list \<Rightarrow> 'key \<Rightarrow> 'v option" where
  "slot_get ss x = map_option (\<lambda>i. val (ss ! i)) (slot_find ss x)"

section \<open>Its invariant and its content\<close>

definition slots_ok :: "nat \<Rightarrow> ('key, 'v) slot list \<Rightarrow> bool" where
  "slots_ok cap ss \<longleftrightarrow> length ss \<le> cap \<and> distinct (map key (filter live ss))"

lemma slot_find_Some:
  "slot_find ss x = Some i \<Longrightarrow> i < length ss \<and> live (ss ! i) \<and> key (ss ! i) = x"
  by (induction ss x arbitrary: i rule: slot_find.induct) (auto split: if_splits)

lemma slot_find_None: "slot_find ss x = None \<longleftrightarrow> x \<notin> key ` set (filter live ss)"
  by (induction ss x rule: slot_find.induct) auto

lemma slot_free_Some: "slot_free ss = Some i \<Longrightarrow> i < length ss \<and> \<not> live (ss ! i)"
  by (induction ss arbitrary: i rule: slot_free.induct) (auto split: if_splits)

lemma slot_free_None: "slot_free ss = None \<longleftrightarrow> (\<forall>s \<in> set ss. live s)"
  by (induction ss rule: slot_free.induct) auto

lemma slot_find_unique:
  "distinct (map key (filter live ss)) \<Longrightarrow> i < length ss \<Longrightarrow> live (ss ! i) \<Longrightarrow>
     slot_find ss (key (ss ! i)) = Some i"
proof (induction ss arbitrary: i)
  case (Cons s ss)
  then show ?case
    by (cases i) (auto simp: image_iff split: if_splits dest: nth_mem)
qed simp

lemma slot_get_iff:
  assumes "distinct (map key (filter live ss))"
  shows "slot_get ss x = Some v \<longleftrightarrow> (\<exists>i < length ss. live (ss ! i) \<and> key (ss ! i) = x \<and> val (ss ! i) = v)"
  using assms slot_find_unique [OF assms] by (auto simp: slot_get_def dest!: slot_find_Some)

lemma dom_slot_get: "dom (slot_get ss) = key ` set (filter live ss)"
proof -
  have "dom (slot_get ss) = {x. slot_find ss x \<noteq> None}" by (auto simp: slot_get_def)
  also have "\<dots> = key ` set (filter live ss)" unfolding slot_find_None by blast
  finally show ?thesis .
qed

lemma card_dom_slot_get:
  "distinct (map key (filter live ss)) \<Longrightarrow> card (dom (slot_get ss)) = length (filter live ss)"
  by (metis dom_slot_get distinct_card length_map list.set_map)

text \<open>Writing a live element over a slot, and freeing a slot.\<close>

lemma keys_update:
  "i < length ss \<Longrightarrow> (live (ss ! i) \<longrightarrow> key (ss ! i) = x) \<Longrightarrow>
     mset (map key (filter live (ss[i := \<lparr>live = True, key = x, val = v\<rparr>]))) =
     (if live (ss ! i) then mset (map key (filter live ss))
      else add_mset x (mset (map key (filter live ss))))"
proof (induction ss arbitrary: i)
  case (Cons s ss)
  then show ?case by (cases i) auto
qed simp

lemma keys_free:
  "i < length ss \<Longrightarrow> live (ss ! i) \<Longrightarrow>
     add_mset (key (ss ! i)) (mset (map key (filter live (ss[i := (ss ! i)\<lparr>live := False\<rparr>])))) =
     mset (map key (filter live ss))"
proof (induction ss arbitrary: i)
  case (Cons s ss)
  then show ?case by (cases i) auto
qed simp

lemma slots_ok_keys:
  assumes "slots_ok cap ss" and "mset (map key (filter live ss')) = mset (map key (filter live ss))"
    and "length ss' = length ss"
  shows "slots_ok cap ss'"
  using assms(1,3) mset_eq_imp_distinct_iff [OF assms(2)] by (simp add: slots_ok_def)

lemma slot_get_write:
  assumes d: "distinct (map key (filter live ss))"
    and d': "distinct (map key (filter live (ss[i := \<lparr>live = True, key = x, val = v\<rparr>])))"
    and i: "i < length ss" "live (ss ! i) \<longrightarrow> key (ss ! i) = x"
  shows "slot_get (ss[i := \<lparr>live = True, key = x, val = v\<rparr>]) = (slot_get ss)(x \<mapsto> v)"
proof (rule ext, rule option_ext)
  fix y w
  let ?ss' = "ss[i := \<lparr>live = True, key = x, val = v\<rparr>]"
  have x: "slot_find ?ss' x = Some i"
    using slot_find_unique [OF d', of i] i(1) by simp
  show "slot_get ?ss' y = Some w \<longleftrightarrow> ((slot_get ss)(x \<mapsto> v)) y = Some w"
  proof (cases "y = x")
    case True
    with x i(1) show ?thesis by (simp add: slot_get_def)
  next
    case False
    with i show ?thesis
      by (auto simp: slot_get_iff [OF d] slot_get_iff [OF d'] nth_list_update)
  qed
qed

lemma slot_get_append:
  assumes d: "distinct (map key (filter live (ss @ [s])))" and s: "live s"
  shows "slot_get (ss @ [s]) = (slot_get ss)(key s \<mapsto> val s)"
proof (rule ext, rule option_ext)
  fix y w
  from d s have d0: "distinct (map key (filter live ss))" by simp
  have x: "slot_find (ss @ [s]) (key s) = Some (length ss)"
    using slot_find_unique [OF d, of "length ss"] s by simp
  show "slot_get (ss @ [s]) y = Some w \<longleftrightarrow> ((slot_get ss)(key s \<mapsto> val s)) y = Some w"
  proof (cases "y = key s")
    case True
    with x show ?thesis by (simp add: slot_get_def)
  next
    case False
    then show ?thesis
      by (auto simp: slot_get_iff [OF d0] slot_get_iff [OF d] nth_append less_Suc_eq)
  qed
qed

lemma slot_update_spec:
  assumes ok: "slots_ok cap ss" and u: "slot_update cap ss x v = (rc, ss')"
  shows "slots_ok cap ss' \<and> rc \<le> 0 \<and>
         slot_get ss' = (if rc = 0 then (slot_get ss)(x \<mapsto> v) else slot_get ss)"
proof -
  let ?s = "\<lparr>live = True, key = x, val = v\<rparr>"
  from ok have d: "distinct (map key (filter live ss))" by (simp add: slots_ok_def)
  show ?thesis
  proof (cases "slot_find ss x")
    case (Some i)
    then have i: "i < length ss" "live (ss ! i)" "key (ss ! i) = x" using slot_find_Some by metis+
    then have "mset (map key (filter live (ss[i := ?s]))) = mset (map key (filter live ss))"
      using keys_update [of i ss x v] by simp
    then have ok': "slots_ok cap (ss[i := ?s])" by (rule slots_ok_keys [OF ok]) simp
    then have "slot_get (ss[i := ?s]) = (slot_get ss)(x \<mapsto> v)"
      using d i by (intro slot_get_write) (simp_all add: slots_ok_def)
    with Some u ok' show ?thesis by (auto simp: slot_update_def Let_def)
  next
    case none: None
    then have new: "x \<notin> key ` set (filter live ss)" using slot_find_None by metis
    show ?thesis
    proof (cases "slot_free ss")
      case (Some i)
      then have i: "i < length ss" "\<not> live (ss ! i)" using slot_free_Some by metis+
      then have "mset (map key (filter live (ss[i := ?s]))) = add_mset x (mset (map key (filter live ss)))"
        using keys_update [of i ss x v] by simp
      then have "distinct (map key (filter live (ss[i := ?s])))"
        using d new mset_eq_imp_distinct_iff [of _ "x # map key (filter live ss)"] by simp
      with ok have ok': "slots_ok cap (ss[i := ?s])" by (simp add: slots_ok_def)
      then have "slot_get (ss[i := ?s]) = (slot_get ss)(x \<mapsto> v)"
        using d i by (intro slot_get_write) (simp_all add: slots_ok_def)
      with none Some u ok' show ?thesis by (auto simp: slot_update_def Let_def)
    next
      case full: None
      show ?thesis
      proof (cases "length ss < cap")
        case True
        with d new have "slots_ok cap (ss @ [?s])" by (auto simp: slots_ok_def)
        then show ?thesis
          using none full True u slot_get_append [of ss ?s] by (auto simp: slot_update_def Let_def slots_ok_def)
      next
        case False
        with none full u ok show ?thesis by (auto simp: slot_update_def Let_def)
      qed
    qed
  qed
qed

lemma slot_update_room:
  assumes ok: "slots_ok cap ss"
  shows "fst (slot_update cap ss x v) = 0 \<longleftrightarrow> x \<in> dom (slot_get ss) \<or> card (dom (slot_get ss)) < cap"
proof -
  from ok have d: "distinct (map key (filter live ss))" and l: "length ss \<le> cap"
    by (simp_all add: slots_ok_def)
  define n where "n = length (filter live ss)"
  have card: "card (dom (slot_get ss)) = n" using card_dom_slot_get [OF d] by (simp add: n_def)
  have n: "n \<le> length ss" by (simp add: n_def)
  have free: "slot_free ss = None \<longleftrightarrow> n = length ss"
    unfolding slot_free_None n_def using length_filter_less by (metis filter_True less_irrefl)
  have "x \<in> dom (slot_get ss) \<longleftrightarrow> slot_find ss x \<noteq> None"
    by (auto simp: slot_get_def)
  then show ?thesis
    using l n free by (cases "slot_find ss x"; cases "slot_free ss")
      (simp_all add: slot_update_def Let_def card)
qed

lemma slot_delete_spec:
  assumes ok: "slots_ok cap ss" and u: "slot_delete ss x = (rc, ss')"
  shows "slots_ok cap ss' \<and> slot_get ss' = (slot_get ss)(x := None)"
proof (cases "slot_find ss x")
  case None
  with u ok show ?thesis by (auto simp: slot_delete_def slot_get_def)
next
  case (Some i)
  from ok have d: "distinct (map key (filter live ss))" by (simp add: slots_ok_def)
  from Some have i: "i < length ss" "live (ss ! i)" "key (ss ! i) = x" using slot_find_Some by metis+
  let ?ss' = "ss[i := (ss ! i)\<lparr>live := False\<rparr>]"
  have m: "add_mset x (mset (map key (filter live ?ss'))) = mset (map key (filter live ss))"
    using keys_free [OF i(1,2)] i(3) by simp
  then have "mset (x # map key (filter live ?ss')) = mset (map key (filter live ss))"
    by (simp only: mset.simps)
  from mset_eq_imp_distinct_iff [OF this] d
  have d': "distinct (map key (filter live ?ss'))" by simp
  have "slot_get ?ss' = (slot_get ss)(x := None)"
  proof (rule ext, rule option_ext)
    fix y w
    have uniq: "j = i" if j: "j < length ss" "live (ss ! j)" "key (ss ! j) = x" for j
    proof -
      from slot_find_unique [OF d j(1,2)] j(3) have "slot_find ss x = Some j" by simp
      with Some show ?thesis by simp
    qed
    have "\<not> live (?ss' ! j)" if "j < length ss" "key (?ss' ! j) = x" for j
      using uniq [of j] i that by (cases "j = i") auto
    then have "slot_get ?ss' x \<noteq> Some w" by (auto simp: slot_get_iff [OF d'])
    moreover have "slot_get ?ss' y = Some w \<longleftrightarrow> slot_get ss y = Some w" if y: "y \<noteq> x"
    proof -
      have "live (?ss' ! j) \<and> key (?ss' ! j) = y \<and> val (?ss' ! j) = w \<longleftrightarrow>
            live (ss ! j) \<and> key (ss ! j) = y \<and> val (ss ! j) = w" for j
        using i y by (cases "j = i") auto
      then show ?thesis by (simp add: slot_get_iff [OF d] slot_get_iff [OF d'])
    qed
    ultimately show "slot_get ?ss' y = Some w \<longleftrightarrow> ((slot_get ss)(x := None)) y = Some w"
      by (cases "y = x") auto
  qed
  with Some u d' ok show ?thesis by (auto simp: slot_delete_def slots_ok_def)
qed

text \<open>A deletion changes no element's key or value.\<close>

lemma slot_delete_val: "val (snd (slot_delete ss x) ! q) = val (ss ! q)"
  by (cases "slot_find ss x"; cases "q < length ss")
    (auto simp: slot_delete_def nth_list_update dest: slot_find_Some)

lemma slot_get_find: "slot_find ss x = Some i \<Longrightarrow> slot_get ss x = Some (val (ss ! i))"
  by (simp add: slot_get_def)

lemma slot_get_bounded:
  "slots_ok cap ss \<Longrightarrow> finite (dom (slot_get ss)) \<and> card (dom (slot_get ss)) \<le> cap"
  unfolding slots_ok_def
  by (metis card_dom_slot_get dom_slot_get finite_imageI finite_set le_trans length_filter_le)

end
