(* ===== verification/Slot_Kernel.thy ===== *)
theory Slot_Kernel
  imports Nat_Spec Slot_Table
begin

text \<open>
  A kernel that keeps its two hash maps as preallocated slot tables of \<^verbatim>\<open>MAX_CONNECTIONS\<close>
  elements, and the proof that it honours every contract of the kernel interface. It is the
  executable instance on which the programs are run, and the one whose slot reuse the
  interleaving results speak about.
\<close>

record kstate =
  ks_config :: Config
  ks_socks :: "(u64, Socket) slot list"
  ks_ports :: "(u16, u64) slot list"
  ks_trace :: "(string \<times> u64 list) list"

definition slot_cookie :: "nat \<Rightarrow> u64" where
  "slot_cookie n = of_nat (Suc n)"

text \<open>\<open>-7\<close>: an index past the array's end; \<open>-22\<close>: elements of an array cannot be deleted.\<close>

definition config_ops :: "(kstate, u32, Config) map_ops" where
  "config_ops =
     \<lparr>lookup_elem = (\<lambda>k i. (if i = 0 then Some 0 else None, k)),
      update_elem = (\<lambda>k i c f. if i = 0 then (0, k\<lparr>ks_config := c\<rparr>) else (-7, k)),
      delete_elem = (\<lambda>k i. (-22, k)),
      deref = (\<lambda>k q. ks_config k)\<rparr>"

text \<open>A hash map held in one component of the kernel's state.\<close>

definition slot_ops ::
  "('k \<Rightarrow> ('key, 'v) slot list) \<Rightarrow> (('key, 'v) slot list \<Rightarrow> 'k \<Rightarrow> 'k) \<Rightarrow> ('k, 'key, 'v) map_ops" where
  "slot_ops get put =
     \<lparr>lookup_elem = (\<lambda>k x. (slot_find (get k) x, k)),
      update_elem = (\<lambda>k x v f. case slot_update MAX_CONNECTIONS (get k) x v of (rc, ss) \<Rightarrow> (rc, put ss k)),
      delete_elem = (\<lambda>k x. case slot_delete (get k) x of (rc, ss) \<Rightarrow> (rc, put ss k)),
      deref = (\<lambda>k q. val (get k ! q))\<rparr>"

definition socks_ops :: "(kstate, u64, Socket) map_ops" where
  "socks_ops = slot_ops ks_socks (\<lambda>ss k. k\<lparr>ks_socks := ss\<rparr>)"

definition ports_ops :: "(kstate, u16, u64) map_ops" where
  "ports_ops = slot_ops ks_ports (\<lambda>ss k. k\<lparr>ks_ports := ss\<rparr>)"

definition slot_kernel :: "kstate kernel" where
  "slot_kernel =
     \<lparr>map_config = config_ops, map_socks = socks_ops, map_ports = ports_ops,
      get_current_pid_tgid = (\<lambda>h k. (task h, k)),
      get_socket_cookie = (\<lambda>h k. (slot_cookie (sk_id h), k)),
      trace_printk = (\<lambda>f as k. (int (length f), k\<lparr>ks_trace := ks_trace k @ [(f, as)]\<rparr>))\<rparr>"

lemmas slot_kernel_defs = slot_kernel_def config_ops_def socks_ops_def ports_ops_def slot_ops_def

definition kstate_ok :: "kstate \<Rightarrow> bool" where
  "kstate_ok k \<longleftrightarrow> slots_ok MAX_CONNECTIONS (ks_socks k) \<and> slots_ok MAX_CONNECTIONS (ks_ports k)"

definition kstate_view :: "kstate \<Rightarrow> view" where
  "kstate_view k =
     \<lparr>v_config = ks_config k, v_socks = slot_get (ks_socks k), v_ports = slot_get (ks_ports k)\<rparr>"

lemma kstate_view_sel [simp]:
  "v_config (kstate_view k) = ks_config k"
  "v_socks (kstate_view k) = slot_get (ks_socks k)"
  "v_ports (kstate_view k) = slot_get (ks_ports k)"
  by (simp_all add: kstate_view_def)

text \<open>The state after boot: no connection, and the configuration array zeroed.\<close>

definition boot :: kstate where
  "boot = \<lparr>ks_config = \<lparr>proxy_port = 0, proxy_pid = 0\<rparr>, ks_socks = [], ks_ports = [], ks_trace = []\<rparr>"

lemma boot_ok [simp]: "kstate_ok boot"
  by (simp add: boot_def kstate_ok_def slots_ok_def)

section \<open>The contracts hold\<close>

lemma slot_ops_hash:
  fixes inv :: "'k \<Rightarrow> bool" and rest :: "'k \<Rightarrow> 'r"
  assumes get_put: "\<And>k ss. get (put ss k) = ss" and rest_put: "\<And>k ss. rest (put ss k) = rest k"
    and inv_get: "\<And>k. inv k \<Longrightarrow> slots_ok MAX_CONNECTIONS (get k)"
    and inv_put: "\<And>k ss. inv k \<Longrightarrow> slots_ok MAX_CONNECTIONS ss \<Longrightarrow> inv (put ss k)"
  shows "bpf_hash (slot_ops get put) inv (\<lambda>k. slot_get (get k)) rest MAX_CONNECTIONS"
proof
  fix k x r k'
  assume "inv k" "lookup_elem (slot_ops get put) k x = (r, k')"
  then show "inv k' \<and> rest k' = rest k \<and> slot_get (get k') = slot_get (get k) \<and>
      map_option (deref (slot_ops get put) k') r = slot_get (get k) x"
    by (auto simp: slot_ops_def slot_get_def)
next
  fix k x v rc k'
  assume i: "inv k" and u: "update_elem (slot_ops get put) k x v BPF_ANY = (rc, k')"
  from u obtain ss where "slot_update MAX_CONNECTIONS (get k) x v = (rc, ss)" "k' = put ss k"
    by (auto simp: slot_ops_def split: prod.splits)
  with slot_update_spec [OF inv_get [OF i] this(1)] i
  show "inv k' \<and> rest k' = rest k \<and> rc \<le> 0 \<and>
      slot_get (get k') = (if rc = 0 then (slot_get (get k))(x \<mapsto> v) else slot_get (get k))"
    by (auto simp: get_put rest_put inv_put)
next
  fix k x rc k'
  assume i: "inv k" and u: "delete_elem (slot_ops get put) k x = (rc, k')"
  from u obtain ss where "slot_delete (get k) x = (rc, ss)" "k' = put ss k"
    by (auto simp: slot_ops_def split: prod.splits)
  with slot_delete_spec [OF inv_get [OF i] this(1)] i
  show "inv k' \<and> rest k' = rest k \<and> slot_get (get k') = (slot_get (get k))(x := None)"
    by (auto simp: get_put rest_put inv_put)
qed (use slot_get_bounded inv_get in blast)

interpretation slot_socks: bpf_hash "map_socks slot_kernel" kstate_ok
  "\<lambda>k. v_socks (kstate_view k)" "rest_of_socks kstate_view" MAX_CONNECTIONS
  unfolding kstate_view_sel slot_kernel_def kernel.simps socks_ops_def
  by (rule slot_ops_hash) (simp_all add: kstate_ok_def)

interpretation slot_ports: bpf_hash "map_ports slot_kernel" kstate_ok
  "\<lambda>k. v_ports (kstate_view k)" "rest_of_ports kstate_view" MAX_CONNECTIONS
  unfolding kstate_view_sel slot_kernel_def kernel.simps ports_ops_def
  by (rule slot_ops_hash) (simp_all add: kstate_ok_def)

interpretation slot: bpf_kernel slot_kernel kstate_ok kstate_view slot_cookie 0
  by unfold_locales (auto simp: slot_kernel_defs kstate_ok_def kstate_view_def split: if_splits)

interpretation slot: bpf_kernel_full slot_kernel kstate_ok kstate_view slot_cookie 0
proof unfold_locales
  fix k c s
  assume "kstate_ok k"
  then show "fst (update_elem (map_socks slot_kernel) k c s BPF_ANY) = 0 \<longleftrightarrow>
      c \<in> dom (v_socks (kstate_view k)) \<or> card (dom (v_socks (kstate_view k))) < MAX_CONNECTIONS"
    using slot_update_room [of MAX_CONNECTIONS "ks_socks k" c s]
    by (simp add: slot_kernel_defs kstate_ok_def case_prod_unfold)
next
  fix k p c
  assume "kstate_ok k"
  then show "fst (update_elem (map_ports slot_kernel) k p c BPF_ANY) = 0 \<longleftrightarrow>
      p \<in> dom (v_ports (kstate_view k)) \<or> card (dom (v_ports (kstate_view k))) < MAX_CONNECTIONS"
    using slot_update_room [of MAX_CONNECTIONS "ks_ports k" p c]
    by (simp add: slot_kernel_defs kstate_ok_def case_prod_unfold)
qed (simp_all add: slot_kernel_defs case_prod_unfold slot_delete_val)

end
