(* ===== verification/Events.thy ===== *)
theory Events
  imports Slot_Kernel
begin

text \<open>
  Runs: the hooks fire in any order, for any sockets and tasks. A run of the programs refines a
  run of the address-translation table, and one client's entry survives whatever the other
  clients do, from its connect() to the proxy's query.
\<close>

section \<open>Runs of the programs and of the table\<close>

datatype event =
    Connect hook bpf_sock_addr
  | Sock_ops hook bpf_sock_ops
  | Get_sockopt bpf_sockopt

fun step :: "endian \<Rightarrow> 'k kernel \<Rightarrow> 'k \<Rightarrow> event \<Rightarrow> 'k" where
  "step e K k (Connect h ctx) = fst (snd (cg_connect4 e K h k ctx))"
| "step e K k (Sock_ops h ctx) = snd (cg_sock_ops e K h k ctx)"
| "step e K k (Get_sockopt ctx) = fst (snd (cg_sock_opt e K k ctx))"

fun run :: "endian \<Rightarrow> 'k kernel \<Rightarrow> 'k \<Rightarrow> event list \<Rightarrow> 'k" where
  "run e K k [] = k"
| "run e K k (ev # evs) = run e K (step e K k ev) evs"

lemma run_append [simp]: "run e K k (xs @ ys) = run e K (run e K k xs) ys"
  by (induction xs arbitrary: k) auto

fun nat_step :: "endian \<Rightarrow> (nat \<Rightarrow> u64) \<Rightarrow> view \<Rightarrow> event \<Rightarrow> view" where
  "nat_step e ck v (Connect h ctx) = nat_connect e (ck (sk_id h)) h ctx v"
| "nat_step e ck v (Sock_ops h ctx) = nat_established (ck (sk_id h)) ctx v"
| "nat_step e ck v (Get_sockopt ctx) = fst (nat_query e ctx v)"

fun nat_run :: "endian \<Rightarrow> (nat \<Rightarrow> u64) \<Rightarrow> view \<Rightarrow> event list \<Rightarrow> view" where
  "nat_run e ck v [] = v"
| "nat_run e ck v (ev # evs) = nat_run e ck (nat_step e ck v ev) evs"

lemma nat_run_append [simp]: "nat_run e ck v (xs @ ys) = nat_run e ck (nat_run e ck v xs) ys"
  by (induction xs arbitrary: v) auto

context bpf_kernel_full
begin

lemma step_refines: "inv k \<Longrightarrow> inv (step e K k ev) \<and> obs (step e K k ev) = nat_step e cookie (obs k) ev"
proof (cases ev)
  case (Connect h ctx)
  assume "inv k"
  from connect4_refines [OF this, of e h ctx] Connect show ?thesis by auto
next
  case (Sock_ops h ctx)
  assume "inv k"
  from sock_ops_refines [OF this, of e h ctx] Sock_ops show ?thesis by auto
next
  case (Get_sockopt ctx)
  assume "inv k"
  from sock_opt_refines [OF this, of e ctx] Get_sockopt show ?thesis by auto
qed

lemma run_refines:
  "inv k \<Longrightarrow> inv (run e K k evs) \<and> obs (run e K k evs) = nat_run e cookie (obs k) evs"
  by (induction evs arbitrary: k) (simp_all add: step_refines)

end

section \<open>Where the table's entries come from\<close>

lemma remembered_sel [simp]:
  "src_addr (remembered e ctx) = 0" "src_port (remembered e ctx) = 0"
  "dst_addr (remembered e ctx) = ntohl e (user_ip4 ctx)"
  by (simp_all add: remembered_def)

lemma remembered_port_LE: "intercepted LE cfg h ctx \<Longrightarrow> dst_port (remembered LE ctx) = 9000"
  by (simp add: remembered_def intercepted_def ntohl_def htons_def bswap32_ucast_bswap16)

lemma nat_step_config [simp]: "v_config (nat_step e ck v ev) = v_config v"
  by (cases ev)
    (auto simp: nat_connect_def nat_established_def nat_query_def Let_def forget_def split: option.splits)

lemma nat_run_config [simp]: "v_config (nat_run e ck v evs) = v_config v"
  by (induction evs arbitrary: v) auto

text \<open>Each entry of \<open>map_socks\<close> was there before or was remembered by an intercepted connect().\<close>

lemma nat_step_socks:
  "v_socks (nat_step e ck v ev) c = Some s \<Longrightarrow>
     v_socks v c = Some s \<or>
     (\<exists>h ctx. ev = Connect h ctx \<and> ck (sk_id h) = c \<and> intercepted e (v_config v) h ctx \<and> s = remembered e ctx)"
  by (cases ev)
    (auto simp: nat_connect_def nat_established_def nat_query_def Let_def forget_def
          split: option.splits if_splits)

lemma nat_run_socks:
  "v_socks (nat_run e ck v evs) c = Some s \<Longrightarrow>
     v_socks v c = Some s \<or>
     (\<exists>h ctx. Connect h ctx \<in> set evs \<and> ck (sk_id h) = c \<and> intercepted e (v_config v) h ctx \<and> s = remembered e ctx)"
proof (induction evs arbitrary: v)
  case (Cons ev evs)
  from Cons.IH [of "nat_step e ck v ev"] Cons.prems nat_step_socks [of e ck v ev c s]
  show ?case by fastforce
qed simp

text \<open>
  Only a query takes an entry from \<open>map_socks\<close>. Without one the entries grow until the map is full.
\<close>

fun asks :: "event \<Rightarrow> bool" where
  "asks (Get_sockopt ctx) = is_query ctx"
| "asks _ = False"

lemma nat_step_grows: "\<not> asks ev \<Longrightarrow> dom (v_socks v) \<subseteq> dom (v_socks (nat_step e ck v ev))"
  by (cases ev) (auto simp: nat_connect_def nat_established_def nat_query_def Let_def split: option.splits)

lemma nat_step_finite: "finite (dom (v_socks v)) \<Longrightarrow> finite (dom (v_socks (nat_step e ck v ev)))"
  by (cases ev)
    (auto simp: nat_connect_def nat_established_def nat_query_def forget_def Let_def
      intro: finite_subset [rotated] split: option.splits)

lemma nat_run_finite: "finite (dom (v_socks v)) \<Longrightarrow> finite (dom (v_socks (nat_run e ck v evs)))"
  by (induction evs arbitrary: v) (simp_all add: nat_step_finite)

lemma nat_run_grows:
  "list_all (\<lambda>ev. \<not> asks ev) evs \<Longrightarrow> dom (v_socks v) \<subseteq> dom (v_socks (nat_run e ck v evs))"
proof (induction evs arbitrary: v)
  case (Cons ev evs)
  with nat_step_grows [of ev v e ck] Cons.IH [of "nat_step e ck v ev"] show ?case by force
qed simp

lemma nat_run_stores:
  assumes "list_all (\<lambda>ev. \<not> asks ev) evs" and "finite (dom (v_socks v))"
    and "Connect h ctx \<in> set evs" and "intercepted e (v_config v) h ctx"
  shows "ck (sk_id h) \<in> dom (v_socks (nat_run e ck v evs)) \<or>
    MAX_CONNECTIONS \<le> card (dom (v_socks (nat_run e ck v evs)))"
  using assms
proof (induction evs arbitrary: v)
  case (Cons ev evs)
  let ?v = "nat_step e ck v ev"
  note grows = nat_run_grows [of evs ?v e ck] and fin = nat_step_finite [OF Cons.prems(2), of e ck ev]
  show ?case
  proof (cases "ev = Connect h ctx")
    case True
    show ?thesis
    proof (cases "accepts (v_socks v) (ck (sk_id h))")
      case acc: True
      then have "ck (sk_id h) \<in> dom (v_socks ?v)" using True Cons.prems(4) by (simp add: nat_connect_def)
      with grows Cons.prems(1) show ?thesis by auto
    next
      case False
      then have "MAX_CONNECTIONS \<le> card (dom (v_socks v))" and v: "?v = v"
        using True by (auto simp: accepts_def nat_connect_def)
      moreover have "card (dom (v_socks v)) \<le> card (dom (v_socks (nat_run e ck ?v evs)))"
        using grows Cons.prems(1) v nat_run_finite [OF fin, of e ck evs] by (intro card_mono) (auto simp del: nat_step.simps)
      ultimately show ?thesis by simp
    qed
  next
    case False
    with Cons.IH [of ?v] Cons.prems fin show ?thesis by simp
  qed
qed simp

text \<open>No event but the socket's own keeps an entry whose port is not recorded from staying.\<close>

fun established_for :: "(nat \<Rightarrow> u64) \<Rightarrow> u64 \<Rightarrow> event \<Rightarrow> bool" where
  "established_for ck c (Sock_ops h ctx) = (ck (sk_id h) = c)"
| "established_for ck c _ = False"

definition unrecorded :: "view \<Rightarrow> u64 \<Rightarrow> bool" where
  "unrecorded v c \<longleftrightarrow> c \<in> dom (v_socks v) \<and> (\<forall>p. v_ports v p \<noteq> Some c)"

lemma nat_step_unrecorded:
  "\<not> established_for ck c ev \<Longrightarrow> unrecorded v c \<Longrightarrow> unrecorded (nat_step e ck v ev) c"
  by (cases ev)
    (auto simp: unrecorded_def nat_connect_def nat_established_def nat_query_def Let_def forget_def
      split: option.splits)

lemma nat_run_unrecorded:
  "list_all (\<lambda>ev. \<not> established_for ck c ev) evs \<Longrightarrow> unrecorded v c \<Longrightarrow> unrecorded (nat_run e ck v evs) c"
  by (induction evs arbitrary: v) (auto intro: nat_step_unrecorded)

section \<open>One client among others\<close>

text \<open>
  Client \<open>(c, p)\<close>: the socket with cookie \<open>c\<close>, connected from port \<open>p\<close>. An event of another
  client has another cookie, records another port, and queries another port.
\<close>

fun foreign :: "endian \<Rightarrow> (nat \<Rightarrow> u64) \<Rightarrow> u64 \<Rightarrow> u16 \<Rightarrow> event \<Rightarrow> bool" where
  "foreign e ck c p (Connect h ctx) = (ck (sk_id h) \<noteq> c)"
| "foreign e ck c p (Sock_ops h ctx) = (ck (sk_id h) \<noteq> c \<and> ucast (local_port ctx) \<noteq> p)"
| "foreign e ck c p (Get_sockopt ctx) = (ntohs e (sk_dst_port (sk ctx)) \<noteq> p)"

text \<open>The client's two phases: its destination is remembered; its port is known as well.\<close>

definition waiting :: "u64 \<Rightarrow> Socket \<Rightarrow> view \<Rightarrow> bool" where
  "waiting c s v \<longleftrightarrow> v_socks v c = Some s \<and> (\<forall>q. v_ports v q \<noteq> Some c)"

definition pending :: "u64 \<Rightarrow> u16 \<Rightarrow> Socket \<Rightarrow> view \<Rightarrow> bool" where
  "pending c p s v \<longleftrightarrow>
     v_socks v c = Some s \<and> v_ports v p = Some c \<and> (\<forall>q. v_ports v q = Some c \<longrightarrow> q = p)"

lemma foreign_waiting: "foreign e ck c p ev \<Longrightarrow> waiting c s v \<Longrightarrow> waiting c s (nat_step e ck v ev)"
  by (cases ev)
    (auto simp: waiting_def nat_connect_def nat_established_def nat_query_def Let_def forget_def
          split: option.splits)

lemma foreign_pending: "foreign e ck c p ev \<Longrightarrow> pending c p s v \<Longrightarrow> pending c p s (nat_step e ck v ev)"
  by (cases ev)
    (auto simp: pending_def nat_connect_def nat_established_def nat_query_def Let_def forget_def
          split: option.splits)

lemma foreign_run_waiting:
  "list_all (foreign e ck c p) evs \<Longrightarrow> waiting c s v \<Longrightarrow> waiting c s (nat_run e ck v evs)"
  by (induction evs arbitrary: v) (auto dest: foreign_waiting)

lemma foreign_run_pending:
  "list_all (foreign e ck c p) evs \<Longrightarrow> pending c p s v \<Longrightarrow> pending c p s (nat_run e ck v evs)"
  by (induction evs arbitrary: v) (auto dest: foreign_pending)

lemma connect_waiting:
  "intercepted e (v_config v) h ctx \<Longrightarrow> accepts (v_socks v) c \<Longrightarrow> \<forall>q. v_ports v q \<noteq> Some c \<Longrightarrow>
     waiting c (remembered e ctx) (nat_connect e c h ctx v)"
  by (simp add: waiting_def nat_connect_def)

lemma established_pending:
  "waiting c s v \<Longrightarrow> family ctx = AF_INET \<Longrightarrow> op ctx = BPF_SOCK_OPS_ACTIVE_ESTABLISHED_CB \<Longrightarrow>
   accepts (v_ports v) (ucast (local_port ctx)) \<Longrightarrow>
     pending c (ucast (local_port ctx)) s (nat_established c ctx v)"
  by (simp add: waiting_def pending_def nat_established_def)

lemma pending_query:
  "pending c (ntohs e (sk_dst_port (sk ctx))) s v \<Longrightarrow> is_query ctx \<Longrightarrow>
     snd (nat_query e ctx v) = answer e s ctx \<and>
     v_socks (fst (nat_query e ctx v)) c = None \<and>
     v_ports (fst (nat_query e ctx v)) (ntohs e (sk_dst_port (sk ctx))) = None"
  by (auto simp: pending_def nat_query_def original_dst_def forget_def Let_def)

text \<open>The life of one connection, with the other clients' events in between.\<close>

definition life :: "hook \<Rightarrow> bpf_sock_addr \<Rightarrow> event list \<Rightarrow> bpf_sock_ops \<Rightarrow> event list \<Rightarrow> event list" where
  "life h ctx evs1 ops evs2 = Connect h ctx # evs1 @ Sock_ops h ops # evs2"

lemma life_pending:
  assumes "intercepted e (v_config v) h ctx" "accepts (v_socks v) (ck (sk_id h))"
    and "\<forall>q. v_ports v q \<noteq> Some (ck (sk_id h))"
    and p: "p = ucast (local_port ops)"
    and "family ops = AF_INET" "op ops = BPF_SOCK_OPS_ACTIVE_ESTABLISHED_CB"
    and f: "list_all (foreign e ck (ck (sk_id h)) p) (evs1 @ evs2)"
    and acc: "accepts (v_ports (nat_run e ck v (Connect h ctx # evs1))) p"
  shows "pending (ck (sk_id h)) p (remembered e ctx) (nat_run e ck v (life h ctx evs1 ops evs2))"
proof -
  let ?c = "ck (sk_id h)" and ?s = "remembered e ctx"
  have "waiting ?c ?s (nat_run e ck (nat_connect e ?c h ctx v) evs1)"
    using assms connect_waiting foreign_run_waiting by fastforce
  then have "pending ?c p ?s (nat_established ?c ops (nat_run e ck (nat_connect e ?c h ctx v) evs1))"
    using assms established_pending by simp
  then show ?thesis
    using f foreign_run_pending by (simp add: life_def)
qed

context bpf_kernel_full
begin

lemma life_recovered:
  assumes i: "inv k" and int: "intercepted e (v_config (obs k)) h ctx"
    and room: "accepts (v_socks (obs k)) (cookie (sk_id h))"
    and fresh: "\<forall>q. v_ports (obs k) q \<noteq> Some (cookie (sk_id h))"
    and ops: "family ops = AF_INET" "op ops = BPF_SOCK_OPS_ACTIVE_ESTABLISHED_CB"
    and others: "list_all (foreign e cookie (cookie (sk_id h)) (ucast (local_port ops))) (evs1 @ evs2)"
    and room': "accepts (v_ports (obs (run e K k (Connect h ctx # evs1)))) (ucast (local_port ops))"
    and q: "is_query q" "ntohs e (sk_dst_port (sk q)) = ucast (local_port ops)"
  shows "\<exists>k'. cg_sock_opt e K (run e K k (life h ctx evs1 ops evs2)) q =
               (1, k', answer e (remembered e ctx) q) \<and> inv k' \<and>
             v_socks (obs k') (cookie (sk_id h)) = None \<and> v_ports (obs k') (ucast (local_port ops)) = None"
proof -
  let ?k = "run e K k (life h ctx evs1 ops evs2)"
  have r: "inv ?k" "obs ?k = nat_run e cookie (obs k) (life h ctx evs1 ops evs2)"
    using run_refines [OF i] by simp_all
  have "pending (cookie (sk_id h)) (ucast (local_port ops)) (remembered e ctx) (obs ?k)"
    unfolding r(2)
    by (rule life_pending [where ck = cookie, OF int room fresh refl ops others])
      (use room' in \<open>simp only: run_refines [OF i]\<close>)
  with q pending_query [of _ e q "remembered e ctx" "obs ?k"] sock_opt_refines [OF r(1), of e q]
  show ?thesis by force
qed

lemma pending_recovered:
  assumes i: "inv k" and p: "pending c p s (obs k)"
    and others: "list_all (foreign e cookie c p) evs"
    and q: "is_query q" "ntohs e (sk_dst_port (sk q)) = p"
  shows "\<exists>k'. cg_sock_opt e K (run e K k evs) q = (1, k', answer e s q)"
proof -
  have r: "inv (run e K k evs)" "obs (run e K k evs) = nat_run e cookie (obs k) evs"
    using run_refines [OF i] by simp_all
  have "pending c p s (obs (run e K k evs))"
    unfolding r(2) by (rule foreign_run_pending [OF others p])
  with q pending_query [of c e q s "obs (run e K k evs)"] sock_opt_refines [OF r(1), of e q]
  show ?thesis by force
qed

lemma entries_accumulate:
  assumes i: "inv k" and evs: "list_all (\<lambda>ev. \<not> asks ev) evs"
  shows "dom (v_socks (obs k)) \<subseteq> dom (v_socks (obs (run e K k evs)))"
    and "Connect h ctx \<in> set evs \<Longrightarrow> intercepted e (v_config (obs k)) h ctx \<Longrightarrow>
      cookie (sk_id h) \<in> dom (v_socks (obs (run e K k evs))) \<or>
      card (dom (v_socks (obs (run e K k evs)))) = MAX_CONNECTIONS"
proof -
  have r: "inv (run e K k evs)" "obs (run e K k evs) = nat_run e cookie (obs k) evs"
    using run_refines [OF i] by simp_all
  show "dom (v_socks (obs k)) \<subseteq> dom (v_socks (obs (run e K k evs)))"
    unfolding r(2) by (rule nat_run_grows [OF evs])
  assume "Connect h ctx \<in> set evs" "intercepted e (v_config (obs k)) h ctx"
  with nat_run_stores [OF evs, of "obs k" h ctx e cookie] socks.bounded_law [OF i] socks.bounded_law [OF r(1)]
  show "cookie (sk_id h) \<in> dom (v_socks (obs (run e K k evs))) \<or>
      card (dom (v_socks (obs (run e K k evs)))) = MAX_CONNECTIONS"
    unfolding r(2) by force
qed

lemma abandoned_stays:
  assumes "inv k" and "list_all (\<lambda>ev. \<not> established_for cookie c ev) evs" and "unrecorded (obs k) c"
  shows "c \<in> dom (v_socks (obs (run e K k evs)))"
  using nat_run_unrecorded [OF assms(2,3), of e] run_refines [OF assms(1), of e evs]
  by (simp add: unrecorded_def)

end

end
