(* ===== verification/Interleaving.thy ===== *)
theory Interleaving
  imports Events
begin

text \<open>
  Programs that run at the same time on several processors. Each helper call is atomic; what can
  come between two calls of one program matters where the program keeps a pointer across them,
  as \<open>cg_sock_opt\<close> does: it reads the cookie through a pointer into \<open>map_ports\<close> after it has
  deleted that element. The program is split at that point, and a step relation lets other
  programs run in the gap.
\<close>

section \<open>cg\_sock\_opt in two parts\<close>

text \<open>
  The first part ends with the deletion from \<open>map_ports\<close> and keeps the pointer to the cookie;
  the second part deletes from \<open>map_socks\<close> under the cookie it reads through that pointer.
\<close>

definition sock_opt_front ::
  "endian \<Rightarrow> 'k kernel \<Rightarrow> 'k \<Rightarrow> bpf_sockopt \<Rightarrow> ptr option \<times> 'k \<times> bpf_sockopt" where
  "sock_opt_front e K k ctx =
     (if optname ctx \<noteq> SO_ORIGINAL_DST then (None, k, ctx)
      else if sk_family (sk ctx) \<noteq> AF_INET then (None, k, ctx)
      else if sk_protocol (sk ctx) \<noteq> IPPROTO_TCP then (None, k, ctx)
      else
        (let src_p = ntohs e (sk_dst_port (sk ctx))
         in case lookup_elem (map_ports K) k src_p of
           (None, k1) \<Rightarrow> (None, k1, ctx)
         | (Some cookie, k1) \<Rightarrow>
            (case lookup_elem (map_socks K) k1 (deref (map_ports K) k1 cookie) of
               (None, k2) \<Rightarrow> (None, k2, ctx)
             | (Some sock, k2) \<Rightarrow>
                (if length (optval ctx) < sizeof_sockaddr_in then (None, k2, ctx)
                 else
                   (let s = deref (map_socks K) k2 sock;
                        ctx' = ctx\<lparr>optlen := int sizeof_sockaddr_in,
                                   optval := write_sockaddr_in e (ucast (sk_family (sk ctx)))
                                     (htons e (dst_port s)) (htonl e (dst_addr s)) (optval ctx),
                                   retval := 0\<rparr>;
                        k3 = snd (trace_printk K sockopt_fmt [] k2);
                        k4 = snd (delete_elem (map_ports K) k3 src_p)
                    in (Some cookie, k4, ctx'))))))"

definition sock_opt_back :: "'k kernel \<Rightarrow> ptr \<Rightarrow> 'k \<Rightarrow> 'k" where
  "sock_opt_back K cookie k = snd (delete_elem (map_socks K) k (deref (map_ports K) k cookie))"

lemma sock_opt_split:
  "cg_sock_opt e K k ctx =
     (case sock_opt_front e K k ctx of
        (None, k', ctx') \<Rightarrow> (1, k', ctx')
      | (Some a, k', ctx') \<Rightarrow> (1, sock_opt_back K a k', ctx'))"
  by (simp add: cg_sock_opt_def sock_opt_front_def sock_opt_back_def Let_def
           split: prod.splits option.splits)

section \<open>Interleaved steps\<close>

text \<open>\<open>gap\<close> holds the pointers of the \<open>cg_sock_opt\<close> programs that are between their two parts.\<close>

record 'k sys =
  kern :: 'k
  gap :: "ptr list"

inductive istep :: "endian \<Rightarrow> 'k kernel \<Rightarrow> 'k sys \<Rightarrow> 'k sys \<Rightarrow> bool" for e K where
  run_whole: "istep e K s (s\<lparr>kern := step e K (kern s) ev\<rparr>)"
| run_front: "sock_opt_front e K (kern s) ctx = (Some a, k', ctx') \<Longrightarrow>
     istep e K s (s\<lparr>kern := k', gap := gap s @ [a]\<rparr>)"
| run_back: "gap s = xs @ a # ys \<Longrightarrow>
     istep e K s (s\<lparr>kern := sock_opt_back K a (kern s), gap := xs @ ys\<rparr>)"

inductive_cases istepE: "istep e K s t"

inductive ireach :: "endian \<Rightarrow> 'k kernel \<Rightarrow> 'k sys \<Rightarrow> 'k sys \<Rightarrow> bool" for e K s where
  refl: "ireach e K s s"
| later: "ireach e K s t \<Longrightarrow> istep e K t u \<Longrightarrow> ireach e K s u"

section \<open>What no interleaving breaks\<close>

text \<open>Every remembered destination has the intercepted port, and no source (nothing records it).\<close>

definition entries_ok :: "endian \<Rightarrow> view \<Rightarrow> bool" where
  "entries_ok e v \<longleftrightarrow>
     (\<forall>c s. v_socks v c = Some s \<longrightarrow>
        src_addr s = 0 \<and> src_port s = 0 \<and> dst_port s = (case e of LE \<Rightarrow> 9000 | BE \<Rightarrow> 0))"

lemma entries_ok_sub: "entries_ok e v \<Longrightarrow> v_socks v' \<subseteq>\<^sub>m v_socks v \<Longrightarrow> entries_ok e v'"
  by (auto simp: entries_ok_def map_le_def dom_def)

lemma remembered_port_BE: "intercepted BE cfg h ctx \<Longrightarrow> dst_port (remembered BE ctx) = 0"
  by (rule bit_word_eqI) (simp add: remembered_def intercepted_def ntohl_def htons_def bit_simps)

lemma entries_ok_remembered:
  "entries_ok e v \<Longrightarrow> intercepted e cfg h ctx \<Longrightarrow> v_socks v' = (v_socks v)(c \<mapsto> remembered e ctx) \<Longrightarrow>
     entries_ok e v'"
  by (cases e) (auto simp: entries_ok_def remembered_port_LE remembered_port_BE)

definition sound :: "('k \<Rightarrow> bool) \<Rightarrow> ('k \<Rightarrow> view) \<Rightarrow> endian \<Rightarrow> Config \<Rightarrow> 'k \<Rightarrow> bool" where
  "sound ok obs e cfg k \<longleftrightarrow> ok k \<and> v_config (obs k) = cfg \<and> entries_ok e (obs k)"

lemma soundI:
  "sound ok obs e cfg k \<Longrightarrow> ok k' \<Longrightarrow> v_config (obs k') = v_config (obs k) \<Longrightarrow>
     v_socks (obs k') \<subseteq>\<^sub>m v_socks (obs k) \<Longrightarrow> sound ok obs e cfg k'"
  by (auto simp: sound_def intro: entries_ok_sub)

context bpf_kernel
begin

lemma connect4_sound: "sound inv obs e cfg k \<Longrightarrow> sound inv obs e cfg (fst (snd (cg_connect4 e K h k ctx)))"
proof -
  assume s: "sound inv obs e cfg k"
  then have i: "inv k" by (simp add: sound_def)
  show ?thesis
  proof (cases "intercepted e (v_config (obs k)) h ctx")
    case False
    from connect4_pass [OF i this] s show ?thesis by (auto simp: sound_def)
  next
    case True
    from connect4_intercept [OF i this] obtain k3 k'
      where k3: "inv k3" "obs k3 = obs k" and k': "inv k'"
        and cg: "cg_connect4 e K h k ctx = (1, k', redirected e (v_config (obs k)) ctx)"
        and obs: "obs k' = obs (snd (update_elem (map_socks K) k3 (cookie (sk_id h)) (remembered e ctx) BPF_ANY))"
      by metis
    have "v_socks (obs k') = v_socks (obs k) \<or>
          v_socks (obs k') = (v_socks (obs k))(cookie (sk_id h) \<mapsto> remembered e ctx)"
      using socks.update_get [OF k3(1)] k3(2) obs by simp
    moreover have "v_config (obs k') = v_config (obs k)"
      using socks.update_snd [OF k3(1)] k3(2) obs by simp
    ultimately show ?thesis
      using s True cg k' entries_ok_remembered [of e "obs k"] entries_ok_sub [of e "obs k" "obs k'"]
      by (auto simp: sound_def)
  qed
qed

lemma sock_ops_sound: "sound inv obs e cfg k \<Longrightarrow> sound inv obs e cfg (snd (cg_sock_ops e K h k ctx))"
proof -
  assume s: "sound inv obs e cfg k"
  then have i: "inv k" by (simp add: sound_def)
  show ?thesis
  proof (cases "family ctx = AF_INET \<and> op ctx = BPF_SOCK_OPS_ACTIVE_ESTABLISHED_CB \<and>
                v_socks (obs k) (cookie (sk_id h)) \<noteq> None")
    case False
    with sock_ops_idle [OF i, of ctx h e] s show ?thesis by (auto simp: sound_def)
  next
    case True
    then obtain k2 k' where k2: "inv k2" "obs k2 = obs k" and k': "inv k'"
        and cg: "cg_sock_ops e K h k ctx = (0, k')"
        and obs: "obs k' = obs (snd (update_elem (map_ports K) k2 (ucast (local_port ctx)) (cookie (sk_id h)) BPF_ANY))"
      using sock_ops_record [OF i] by metis
    have "v_config (obs k') = v_config (obs k)" "v_socks (obs k') = v_socks (obs k)"
      using ports.update_snd [OF k2(1)] k2(2) obs by simp_all
    with soundI [OF s k'] cg show ?thesis by simp
  qed
qed

lemma front_sound:
  assumes s: "sound inv obs e cfg k" and f: "sock_opt_front e K k ctx = (r, k', ctx')"
  shows "sound inv obs e cfg k'"
proof (cases "optname ctx = SO_ORIGINAL_DST \<and> sk_family (sk ctx) = AF_INET \<and>
              sk_protocol (sk ctx) = IPPROTO_TCP")
  case False
  with s f show ?thesis by (auto simp: sock_opt_front_def split: if_splits)
next
  case guards: True
  let ?p = "ntohs e (sk_dst_port (sk ctx))"
  obtain q k1 where l1: "lookup_elem (map_ports K) k ?p = (q, k1)" by fastforce
  have i: "inv k" using s by (simp add: sound_def)
  have s1: "sound inv obs e cfg k1" using ports.lookup_law [OF i l1] by (intro soundI [OF s]) auto
  show ?thesis
  proof (cases q)
    case None
    with f l1 guards s1 show ?thesis by (simp add: sock_opt_front_def)
  next
    case (Some a)
    obtain b k2 where l2: "lookup_elem (map_socks K) k1 (deref (map_ports K) k1 a) = (b, k2)" by fastforce
    have i1: "inv k1" using s1 by (simp add: sound_def)
    have s2: "sound inv obs e cfg k2" using socks.lookup_law [OF i1 l2] by (intro soundI [OF s1]) auto
    let ?k3 = "snd (trace_printk K sockopt_fmt [] k2)"
    let ?k4 = "snd (delete_elem (map_ports K) ?k3 ?p)"
    have i2: "inv k2" using s2 by (simp add: sound_def)
    have s3: "sound inv obs e cfg ?k3" using printk_snd [OF i2] by (intro soundI [OF s2]) auto
    then have i3: "inv ?k3" by (simp add: sound_def)
    have s4: "sound inv obs e cfg ?k4" using ports.delete_snd [OF i3] by (intro soundI [OF s3]) auto
    show ?thesis
      using f guards l1 l2 Some s2 s4 by (auto simp: sock_opt_front_def Let_def split: option.splits if_splits)
  qed
qed

lemma back_sound: "sound inv obs e cfg k \<Longrightarrow> sound inv obs e cfg (sock_opt_back K a k)"
proof -
  assume s: "sound inv obs e cfg k"
  then have i: "inv k" by (simp add: sound_def)
  show ?thesis
    using socks.delete_snd [OF i] unfolding sock_opt_back_def
    by (intro soundI [OF s]) (auto simp: map_le_def)
qed

lemma sock_opt_sound: "sound inv obs e cfg k \<Longrightarrow> sound inv obs e cfg (fst (snd (cg_sock_opt e K k ctx)))"
  using front_sound [of e cfg k ctx] back_sound
  by (auto simp: sock_opt_split split: prod.splits option.splits)

lemma step_sound: "sound inv obs e cfg k \<Longrightarrow> sound inv obs e cfg (step e K k ev)"
  by (cases ev) (simp_all add: connect4_sound sock_ops_sound sock_opt_sound)

lemma istep_sound: "istep e K s t \<Longrightarrow> sound inv obs e cfg (kern s) \<Longrightarrow> sound inv obs e cfg (kern t)"
  by (erule istepE) (auto simp: step_sound back_sound intro: front_sound)

lemma ireach_sound: "ireach e K s t \<Longrightarrow> sound inv obs e cfg (kern s) \<Longrightarrow> sound inv obs e cfg (kern t)"
  by (induction rule: ireach.induct) (auto intro: istep_sound)

end

section \<open>The gap of cg\_sock\_opt\<close>

text \<open>
  In the gap the port is forgotten and the destination is not. The second part deletes under the
  cookie the element holds by then, whosever it is.
\<close>

context bpf_kernel
begin

lemma front_result:
  assumes i: "inv k" and f: "sock_opt_front e K k ctx = (Some a, k', ctx')"
  shows "inv k' \<and>
    obs k' = (obs k)\<lparr>v_ports := (v_ports (obs k))(ntohs e (sk_dst_port (sk ctx)) := None)\<rparr>"
proof -
  let ?p = "ntohs e (sk_dst_port (sk ctx))"
  obtain q k1 where l1: "lookup_elem (map_ports K) k ?p = (q, k1)" by fastforce
  from f l1 obtain b where q: "q = Some b"
    by (auto simp: sock_opt_front_def split: if_splits option.splits)
  obtain r k2 where l2: "lookup_elem (map_socks K) k1 (deref (map_ports K) k1 b) = (r, k2)" by fastforce
  note k1 = ports.lookup_law [OF i l1]
  note k2 = socks.lookup_law [OF conjunct1 [OF k1] l2]
  let ?k3 = "snd (trace_printk K sockopt_fmt [] k2)"
  note k3 = printk_snd [OF conjunct1 [OF k2], of sockopt_fmt "[]"]
  note k4 = ports.delete_snd [OF conjunct1 [OF k3], of ?p]
  have "k' = snd (delete_elem (map_ports K) ?k3 ?p)"
    using f l1 q l2 by (auto simp: sock_opt_front_def Let_def split: if_splits option.splits)
  with k1 k2 k3 k4 show ?thesis by (auto intro: view.equality)
qed

lemma back_result:
  assumes "inv k"
  shows "inv (sock_opt_back K a k) \<and>
    obs (sock_opt_back K a k) =
      (obs k)\<lparr>v_socks := (v_socks (obs k))(deref (map_ports K) k a := None)\<rparr>"
  using socks.delete_snd [OF assms] by (auto simp: sock_opt_back_def intro: view.equality)

end

context bpf_kernel_full
begin

lemma gap_keeps_waiting:
  assumes i: "inv k" and p: "pending c p s (obs k)"
    and f: "sock_opt_front e K k q = (Some a, k1, q1)" "ntohs e (sk_dst_port (sk q)) = p"
    and evs: "list_all (foreign e cookie c p) evs"
  shows "inv (run e K k1 evs) \<and> waiting c s (obs (run e K k1 evs))"
proof -
  have k1: "inv k1" "obs k1 = (obs k)\<lparr>v_ports := (v_ports (obs k))(p := None)\<rparr>"
    using front_result [OF i f(1)] f(2) by simp_all
  then have "waiting c s (obs k1)" using p by (auto simp: waiting_def pending_def)
  from foreign_run_waiting [OF evs this] run_refines [OF k1(1), of e evs] show ?thesis by simp
qed

lemma back_hits_reused:
  assumes i: "inv k" and w: "waiting c s (obs k)"
    and a: "deref (map_ports K) k a = c'" "c' \<noteq> c" "v_ports (obs k) (ntohs e (sk_dst_port (sk q'))) = Some c'"
  shows "v_socks (obs (sock_opt_back K a k)) = (v_socks (obs k))(c' := None) \<and>
    v_socks (obs (sock_opt_back K a k)) c = Some s \<and>
    (\<exists>k'. cg_sock_opt e K (sock_opt_back K a k) q' = (1, k', q') \<and> obs k' = obs (sock_opt_back K a k))"
proof -
  note b = back_result [OF i, of a]
  have "original_dst (obs (sock_opt_back K a k)) (ntohs e (sk_dst_port (sk q'))) = None"
    using b a(1,3) by (simp add: original_dst_def)
  with sock_opt_decline [of "sock_opt_back K a k" q' e] b w a show ?thesis by (auto simp: waiting_def)
qed

end

end
