(* ===== verification/Program_Properties.thy ===== *)
theory Program_Properties
  imports Interleaving
begin

text \<open>
  What the three eBPF programs guarantee, for every kernel that honours the contracts of
  \<open>Bpf_Kernel\<close>. The witnesses run the programs on the slot-table kernel.
\<close>

section \<open>A concrete client\<close>

text \<open>
  A client (process 4242) that connects to 10.0.0.5:9000 on a little-endian host, its established
  connection from port 40000, and the proxy's query about it; the proxy is process 100.
\<close>

definition ex_hook :: hook where
  "ex_hook = \<lparr>task = push_bit 32 4242, sk_id = 6\<rparr>"

definition ex_addr :: bpf_sock_addr where
  "ex_addr = \<lparr>user_family = 2, user_ip4 = 0x0500000a, user_port = 0x2823, protocol = 6\<rparr>"

definition ex_ops :: bpf_sock_ops where
  "ex_ops = \<lparr>op = 4, family = 2, local_port = 40000\<rparr>"

definition ex_query :: bpf_sockopt where
  "ex_query =
     \<lparr>sk = \<lparr>sk_family = 2, sk_protocol = 6, sk_dst_port = 0x409c\<rparr>, optname = 80, optlen = 16,
      retval = -2, optval = replicate 16 0\<rparr>"

definition ex_state :: kstate where
  "ex_state = boot\<lparr>ks_config := \<lparr>proxy_port = 18000, proxy_pid = 100\<rparr>\<rparr>"

text \<open>Another client, on another socket and port, with its own query.\<close>

definition ex_other :: "event list" where
  "ex_other =
     [Connect \<lparr>task = push_bit 32 77, sk_id = 9\<rparr> (ex_addr\<lparr>user_ip4 := 0x0600000a\<rparr>),
      Sock_ops \<lparr>task = 0, sk_id = 9\<rparr> (ex_ops\<lparr>local_port := 40001\<rparr>),
      Get_sockopt (ex_query\<lparr>sk := (sk ex_query)\<lparr>sk_dst_port := 0x419c\<rparr>\<rparr>)]"

lemma ex_state_ok [simp]: "kstate_ok ex_state"
  by (simp add: ex_state_def boot_def kstate_ok_def slots_ok_def)

lemma htons_LE_9000 [simp]: "htons LE 9000 = 0x2823"
  by (simp add: htons_def bswap16_def)

lemma ex_query_port [simp]: "ntohs LE (sk_dst_port (sk ex_query)) = 40000"
  by (simp add: ex_query_def ntohs_def bswap16_def)

lemma ex_is_query [simp]: "is_query ex_query"
  by (simp add: is_query_def ex_query_def SO_ORIGINAL_DST_def AF_INET_def IPPROTO_TCP_def sizeof_sockaddr_in_def)

lemma ex_ops_sel [simp]:
  "family ex_ops = AF_INET" "op ex_ops = BPF_SOCK_OPS_ACTIVE_ESTABLISHED_CB" "ucast (local_port ex_ops) = (40000 :: u16)"
  by (simp_all add: ex_ops_def AF_INET_def BPF_SOCK_OPS_ACTIVE_ESTABLISHED_CB_def)

lemma ex_intercepted [simp]: "intercepted LE (ks_config ex_state) ex_hook ex_addr"
  by (simp add: intercepted_def ex_addr_def ex_state_def ex_hook_def AF_INET_def IPPROTO_TCP_def boot_def)

lemma accepts_small [simp]: "finite (dom m) \<Longrightarrow> card (dom m) < 100000 \<Longrightarrow> accepts m x"
  by (simp add: accepts_def MAX_CONNECTIONS_def)

lemma ex_accepts [simp]: "accepts (slot_get (ks_socks ex_state)) c"
  by (simp add: ex_state_def boot_def accepts_def MAX_CONNECTIONS_def slot_get_def dom_def)

lemma ex_ports_empty [simp]: "slot_get (ks_ports ex_state) q = None" "slot_get (ks_socks ex_state) c = None"
  by (simp_all add: ex_state_def boot_def slot_get_def)

lemma accepts_slots:
  "slots_ok MAX_CONNECTIONS ss \<Longrightarrow> length ss < MAX_CONNECTIONS \<Longrightarrow> accepts (slot_get ss) x"
  using length_filter_le [of live ss]
  by (simp add: accepts_def slots_ok_def card_dom_slot_get del: length_filter_le)

lemma ex_foreign [simp]: "list_all (foreign LE slot_cookie (slot_cookie 6) 40000) ex_other"
  by (simp add: ex_other_def slot_cookie_def ex_ops_def ex_query_def ntohs_def bswap16_def)

text \<open>Everything the evaluation of a run on the slot-table kernel unfolds.\<close>

lemmas exec_simps =
  cg_connect4_def cg_sock_ops_def cg_sock_opt_def slot_kernel_defs Let_def
  AF_INET_def IPPROTO_TCP_def SO_ORIGINAL_DST_def BPF_SOCK_OPS_ACTIVE_ESTABLISHED_CB_def
  sizeof_sockaddr_in_def ntohs_def htons_def ntohl_def htonl_def bswap16_def bswap32_def
  slot_update_def slot_delete_def MAX_CONNECTIONS_def slot_cookie_def
  store16_def store32_def write_sockaddr_in_def

lemmas ex_simps = ex_other_def ex_hook_def ex_addr_def ex_state_def boot_def ex_ops_def ex_query_def

lemma ex_ports_room:
  "accepts (slot_get (ks_ports (run LE slot_kernel ex_state (Connect ex_hook ex_addr # ex_other)))) 40000"
proof (rule accepts_slots)
  show "slots_ok MAX_CONNECTIONS (ks_ports (run LE slot_kernel ex_state (Connect ex_hook ex_addr # ex_other)))"
    using slot.run_refines [OF ex_state_ok] by (simp only: kstate_ok_def)
  show "length (ks_ports (run LE slot_kernel ex_state (Connect ex_hook ex_addr # ex_other))) < MAX_CONNECTIONS"
    by (simp add: ex_simps exec_simps)
qed

section \<open>The life of a redirected connection\<close>

text \<open>C4. The life of one redirected connection, on either byte order and among any events of other
  clients: the proxy's query is answered with what connect() remembered, and both of the
  connection's map entries are gone afterwards.\<close>

theorem destination_recovered:
  assumes "bpf_kernel_full K ok obs cookie cp" and "ok k"
    and "intercepted e (v_config (obs k)) h ctx"
    and "accepts (v_socks (obs k)) (cookie (sk_id h))"
    and "\<forall>q. v_ports (obs k) q \<noteq> Some (cookie (sk_id h))"
    and "family ops = AF_INET" and "op ops = BPF_SOCK_OPS_ACTIVE_ESTABLISHED_CB"
    and "list_all (foreign e cookie (cookie (sk_id h)) (ucast (local_port ops))) (evs1 @ evs2)"
    and "accepts (v_ports (obs (run e K k (Connect h ctx # evs1)))) (ucast (local_port ops))"
    and "is_query q" and "ntohs e (sk_dst_port (sk q)) = ucast (local_port ops)"
  shows "\<exists>k'. cg_sock_opt e K (run e K k (life h ctx evs1 ops evs2)) q =
               (1, k', answer e (remembered e ctx) q) \<and> ok k' \<and>
             v_socks (obs k') (cookie (sk_id h)) = None \<and> v_ports (obs k') (ucast (local_port ops)) = None"
  by (rule bpf_kernel_full.life_recovered [OF assms])

lemma destination_recovered_witness:
  "\<exists>k'. cg_sock_opt LE slot_kernel
          (run LE slot_kernel ex_state (life ex_hook ex_addr ex_other ex_ops ex_other)) ex_query =
        (1, k', answer LE (remembered LE ex_addr) ex_query) \<and> kstate_ok k' \<and>
      v_socks (kstate_view k') (slot_cookie (sk_id ex_hook)) = None \<and>
      v_ports (kstate_view k') (ucast (local_port ex_ops)) = None"
proof (rule destination_recovered [OF slot.bpf_kernel_full_axioms ex_state_ok])
  show "list_all (foreign LE slot_cookie (slot_cookie (sk_id ex_hook)) (ucast (local_port ex_ops))) (ex_other @ ex_other)"
    using ex_foreign by (simp add: ex_hook_def)
  show "accepts (v_ports (kstate_view (run LE slot_kernel ex_state (Connect ex_hook ex_addr # ex_other))))
          (ucast (local_port ex_ops))"
    using ex_ports_room by (simp only: kstate_view_sel ex_ops_sel)
qed simp_all

text \<open>C6. Isolation: once a client's port and destination are recorded, no run of other clients'
  connects, establishments and queries can change the answer to the proxy's query about it.\<close>

theorem pending_survives_others:
  assumes "bpf_kernel_full K ok obs cookie cp" and "ok k" and "pending c p s (obs k)"
    and "list_all (foreign e cookie c p) evs"
    and "is_query q" and "ntohs e (sk_dst_port (sk q)) = p"
  shows "\<exists>k'. cg_sock_opt e K (run e K k evs) q = (1, k', answer e s q)"
  by (rule bpf_kernel_full.pending_recovered [OF assms])

definition ex_pending :: kstate where
  "ex_pending = run LE slot_kernel ex_state [Connect ex_hook ex_addr, Sock_ops ex_hook ex_ops]"

lemma ex_pending_eq:
  "ex_pending = ex_state
     \<lparr>ks_socks := [\<lparr>live = True, key = 7, val = remembered LE ex_addr\<rparr>],
      ks_ports := [\<lparr>live = True, key = 40000, val = 7\<rparr>],
      ks_trace := [(connect_fmt, [0x0a000005, 9000]), (sockops_fmt, [])]\<rparr>"
  by (simp add: ex_pending_def ex_simps exec_simps remembered_def)

lemma ex_pending_ok [simp]: "kstate_ok ex_pending"
  unfolding ex_pending_def using slot.run_refines [OF ex_state_ok] by blast

lemma ex_is_pending: "pending 7 40000 (remembered LE ex_addr) (kstate_view ex_pending)"
  by (auto simp: ex_pending_eq pending_def slot_get_def split: if_splits)

lemma pending_survives_others_witness:
  "\<exists>k'. cg_sock_opt LE slot_kernel (run LE slot_kernel ex_pending ex_other) ex_query =
        (1, k', answer LE (remembered LE ex_addr) ex_query)"
proof (rule pending_survives_others [OF slot.bpf_kernel_full_axioms ex_pending_ok ex_is_pending])
  show "list_all (foreign LE slot_cookie 7 40000) ex_other"
    using ex_foreign by (simp add: slot_cookie_def)
qed simp_all

text \<open>C5. Any run of the three programs, in any order of hooks, refines the run of the address-
  translation table: the content of the maps is the table's state after the same events.\<close>

theorem run_refines_table:
  assumes "bpf_kernel_full K ok obs cookie cp" and "ok k"
  shows "ok (run e K k evs) \<and> obs (run e K k evs) = nat_run e cookie (obs k) evs"
  by (rule bpf_kernel_full.run_refines [OF assms])

lemma run_refines_table_witness:
  "kstate_ok (run LE slot_kernel ex_pending ex_other) \<and>
   kstate_view (run LE slot_kernel ex_pending ex_other) = nat_run LE slot_cookie (kstate_view ex_pending) ex_other"
  by (rule run_refines_table [OF slot.bpf_kernel_full_axioms ex_pending_ok])

section \<open>The programs one by one\<close>

text \<open>C7. cg_connect4 allows every call; it rewrites the destination to the proxy exactly for the
  intercepted calls and remembers their original destination under the socket's cookie, if the
  map accepts the key.\<close>

theorem cg_connect4_spec:
  assumes "bpf_kernel_room K ok obs cookie cp" and "ok k"
  shows "\<exists>k'. cg_connect4 e K h k ctx =
           (1, k', if intercepted e (v_config (obs k)) h ctx
                   then redirected e (v_config (obs k)) ctx else ctx) \<and>
         ok k' \<and> obs k' = nat_connect e (cookie (sk_id h)) h ctx (obs k)"
  by (rule bpf_kernel_room.connect4_refines [OF assms])

lemma cg_connect4_spec_witness:
  "\<exists>k'. cg_connect4 LE slot_kernel ex_hook ex_state ex_addr =
           (1, k', redirected LE (ks_config ex_state) ex_addr) \<and>
         kstate_ok k' \<and> kstate_view k' = nat_connect LE 7 ex_hook ex_addr (kstate_view ex_state)"
  using cg_connect4_spec [OF slot.bpf_kernel_room_axioms ex_state_ok, of LE ex_hook ex_addr]
  by (simp add: slot_cookie_def) (simp add: ex_hook_def)

text \<open>C8. cg_sock_ops returns 0 and records the local port under which an intercepted socket was
  established, and nothing else.\<close>

theorem cg_sock_ops_spec:
  assumes "bpf_kernel_room K ok obs cookie cp" and "ok k"
  shows "\<exists>k'. cg_sock_ops e K h k ctx = (0, k') \<and> ok k' \<and>
           obs k' = nat_established (cookie (sk_id h)) ctx (obs k)"
  by (rule bpf_kernel_room.sock_ops_refines [OF assms])

lemma cg_sock_ops_spec_witness:
  "\<exists>k'. cg_sock_ops LE slot_kernel ex_hook ex_pending ex_ops = (0, k') \<and> kstate_ok k' \<and>
         kstate_view k' = nat_established (slot_cookie (sk_id ex_hook)) ex_ops (kstate_view ex_pending)"
  by (rule cg_sock_ops_spec [OF slot.bpf_kernel_room_axioms ex_pending_ok])

text \<open>C9. cg_sock_opt returns 1; it answers a well-formed query about a known port with the
  remembered destination and forgets both map entries, and leaves every other query and the maps
  as they were.\<close>

theorem cg_sock_opt_spec:
  assumes "bpf_kernel_rcu K ok obs cookie cp" and "ok k"
  shows "\<exists>k'. cg_sock_opt e K k ctx = (1, k', snd (nat_query e ctx (obs k))) \<and> ok k' \<and>
           obs k' = fst (nat_query e ctx (obs k))"
  by (rule bpf_kernel_rcu.sock_opt_refines [OF assms])

lemma cg_sock_opt_spec_witness:
  "\<exists>k'. cg_sock_opt LE slot_kernel ex_pending ex_query =
           (1, k', snd (nat_query LE ex_query (kstate_view ex_pending))) \<and> kstate_ok k' \<and>
         kstate_view k' = fst (nat_query LE ex_query (kstate_view ex_pending))"
  by (rule cg_sock_opt_spec [OF slot.bpf_kernel_rcu_axioms ex_pending_ok])

text \<open>Verdicts and memory safety need no contract: they hold for any helpers whatsoever.\<close>

lemma verdicts:
  "fst (cg_connect4 e K h k ctx) = 1 \<and> fst (cg_sock_ops e K h k ops) = 0 \<and>
   fst (cg_sock_opt e K k q) = 1"
  by (simp add: cg_connect4_def cg_sock_ops_def cg_sock_opt_def Let_def split: prod.splits option.splits)

lemma write_sockaddr_in_frame:
  "8 \<le> length buf \<Longrightarrow> length (write_sockaddr_in e f p a buf) = length buf"
  "drop 8 (write_sockaddr_in e f p a buf) = drop 8 buf"
  by (simp_all add: write_sockaddr_in_def)

lemma sock_opt_buffer:
  "let q' = snd (snd (cg_sock_opt e K k q))
   in length (optval q') = length (optval q) \<and> drop 8 (optval q') = drop 8 (optval q) \<and>
      sk q' = sk q \<and> optname q' = optname q \<and>
      (q' = q \<or> sizeof_sockaddr_in \<le> length (optval q) \<and> optlen q' = 16 \<and> retval q' = 0)"
  by (simp add: cg_sock_opt_def write_sockaddr_in_frame sizeof_sockaddr_in_def Let_def
           split: prod.splits option.splits)

text \<open>C23. With any helpers whatsoever the verdicts are fixed, so that no system call is ever
  rejected (cg_connect4 and cg_sock_opt return 1, cg_sock_ops 0), and cg_sock_opt writes at most
  the first eight bytes of the option buffer, never changes its length, touches nothing when the
  buffer is shorter than a sockaddr_in, and otherwise reports sixteen bytes and success.\<close>

theorem sock_opt_stays_in_buffer:
  "fst (cg_connect4 e K h k ctx) = 1 \<and> fst (cg_sock_ops e K h k ops) = 0 \<and> fst (cg_sock_opt e K k q) = 1 \<and>
   (let q' = snd (snd (cg_sock_opt e K k q))
    in length (optval q') = length (optval q) \<and> drop 8 (optval q') = drop 8 (optval q) \<and>
       sk q' = sk q \<and> optname q' = optname q \<and>
       (q' = q \<or> sizeof_sockaddr_in \<le> length (optval q) \<and> optlen q' = 16 \<and> retval q' = 0))"
  using verdicts [of e K h k ctx ops q] sock_opt_buffer [of e K k q] by blast

lemma connect4_passes:
  assumes "bpf_kernel K ok obs cookie cp" and "ok k"
    and "user_family ctx \<noteq> AF_INET \<or> protocol ctx \<noteq> IPPROTO_TCP \<or>
         user_port ctx \<noteq> ucast (htons e 9000) \<or>
         drop_bit 32 (task h) = proxy_pid (v_config (obs k))"
  shows "\<exists>k'. cg_connect4 e K h k ctx = (1, k', ctx) \<and> ok k' \<and> obs k' = obs k"
  by (rule bpf_kernel.connect4_pass [OF assms(1,2)]) (use assms(3) in \<open>auto simp: intercepted_def\<close>)

lemma connect4_passes_witness:
  "\<exists>k'. cg_connect4 LE slot_kernel \<lparr>task = push_bit 32 100, sk_id = 3\<rparr> ex_state ex_addr = (1, k', ex_addr) \<and>
        kstate_ok k' \<and> kstate_view k' = kstate_view ex_state"
  by (rule connect4_passes [OF slot.bpf_kernel_axioms ex_state_ok])
    (simp add: ex_state_def boot_def)

text \<open>Where an intercepted call goes, and what is remembered of it, on either byte order.\<close>

lemma loopback_bytes: "store32 e (htonl e 0x7f000001) = [127, 0, 0, 1]"
  by (cases e) (simp_all add: store32_def htonl_def bswap32_def Let_def)

lemma connect4_redirected_LE:
  assumes "bpf_kernel K ok obs cookie cp" and "ok k"
    and "intercepted LE (v_config (obs k)) h ctx"
  shows "\<exists>k' ctx'. cg_connect4 LE K h k ctx = (1, k', ctx') \<and>
           store32 LE (user_ip4 ctx') = [127, 0, 0, 1] \<and>
           user_port ctx' = ucast (htons LE (proxy_port (v_config (obs k)))) \<and>
           user_family ctx' = user_family ctx \<and> protocol ctx' = protocol ctx"
proof -
  obtain k' where "cg_connect4 LE K h k ctx = (1, k', redirected LE (v_config (obs k)) ctx)"
    using bpf_kernel.connect4_intercept [OF assms] by metis
  then show ?thesis
    using loopback_bytes [of LE] by (simp add: redirected_def htonl_def htons_def bswap32_push16)
qed

lemma connect4_redirects_LE:
  assumes "bpf_kernel K ok obs cookie cp" and "ok k"
    and "intercepted LE (v_config (obs k)) h ctx"
  shows "\<exists>k' ctx'. cg_connect4 LE K h k ctx = (1, k', ctx') \<and>
           store32 LE (user_ip4 ctx') = [127, 0, 0, 1] \<and>
           user_port ctx' = ucast (htons LE (proxy_port (v_config (obs k)))) \<and>
           user_family ctx' = user_family ctx \<and> protocol ctx' = protocol ctx"
  by (rule connect4_redirected_LE [OF assms])

lemma connect4_redirects_LE_witness:
  "\<exists>k' ctx'. cg_connect4 LE slot_kernel ex_hook ex_state ex_addr = (1, k', ctx') \<and>
     store32 LE (user_ip4 ctx') = [127, 0, 0, 1] \<and>
     user_port ctx' = ucast (htons LE (proxy_port (v_config (kstate_view ex_state)))) \<and>
     user_family ctx' = user_family ex_addr \<and> protocol ctx' = protocol ex_addr"
  by (rule connect4_redirects_LE [OF slot.bpf_kernel_axioms ex_state_ok]) simp

lemma low_half_push16: "(ucast (push_bit 16 (x :: u32)) :: u16) = 0"
  by (rule bit_word_eqI) (simp add: bit_simps)

text \<open>C35. On a big-endian host an intercepted call is redirected to port 0 and remembered with port
  0: the shifts by sixteen bits take the wrong half.\<close>

theorem connect4_loses_ports_BE:
  assumes "bpf_kernel_room K ok obs cookie cp" and "ok k"
    and "intercepted BE (v_config (obs k)) h ctx" and "accepts (v_socks (obs k)) (cookie (sk_id h))"
  shows "\<exists>k' ctx' s. cg_connect4 BE K h k ctx = (1, k', ctx') \<and>
           (ucast (user_port ctx') :: u16) = 0 \<and>
           v_socks (obs k') (cookie (sk_id h)) = Some s \<and> dst_port s = 0"
proof -
  obtain k' where k': "cg_connect4 BE K h k ctx = (1, k', redirected BE (v_config (obs k)) ctx)"
      "obs k' = nat_connect BE (cookie (sk_id h)) h ctx (obs k)"
    using bpf_kernel_room.connect4_refines [OF assms(1,2), of BE h ctx] assms(3) by auto
  then show ?thesis
    using assms(3,4) remembered_port_BE [OF assms(3)]
    by (simp add: redirected_def htonl_def low_half_push16 nat_connect_def)
qed

lemma connect4_loses_ports_BE_witness:
  "\<exists>k' ctx' s. cg_connect4 BE slot_kernel ex_hook ex_state (ex_addr\<lparr>user_port := 9000\<rparr>) = (1, k', ctx') \<and>
     (ucast (user_port ctx') :: u16) = 0 \<and>
     v_socks (kstate_view k') (slot_cookie (sk_id ex_hook)) = Some s \<and> dst_port s = 0"
  by (rule connect4_loses_ports_BE [OF slot.bpf_kernel_room_axioms ex_state_ok])
    (simp_all add: intercepted_def ex_simps AF_INET_def IPPROTO_TCP_def htons_def
       accepts_def slot_get_def MAX_CONNECTIONS_def dom_def)

text \<open>A configuration that is still zero: from the attachment of the programs to its publication.\<close>

lemma connect4_before_configuration:
  assumes "bpf_kernel K ok obs cookie cp" and "ok k"
    and "v_config (obs k) = \<lparr>proxy_port = 0, proxy_pid = 0\<rparr>"
    and "user_family ctx = AF_INET" and "protocol ctx = IPPROTO_TCP"
    and "user_port ctx = ucast (htons e 9000)" and "drop_bit 32 (task h) \<noteq> 0"
  shows "\<exists>k' ctx'. cg_connect4 e K h k ctx = (1, k', ctx') \<and>
           store32 e (user_ip4 ctx') = [127, 0, 0, 1] \<and> user_port ctx' = 0"
proof -
  have "intercepted e (v_config (obs k)) h ctx" using assms by (simp add: intercepted_def)
  then obtain k' where "cg_connect4 e K h k ctx = (1, k', redirected e (v_config (obs k)) ctx)"
    using bpf_kernel.connect4_intercept [OF assms(1,2)] by metis
  then show ?thesis
    using loopback_bytes [of e] assms(3)
    by (cases e) (simp_all add: redirected_def htonl_def bswap32_def)
qed

lemma connect4_before_configuration_witness:
  "\<exists>k' ctx'. cg_connect4 LE slot_kernel ex_hook boot ex_addr = (1, k', ctx') \<and>
     store32 LE (user_ip4 ctx') = [127, 0, 0, 1] \<and> user_port ctx' = 0"
  by (rule connect4_before_configuration [OF slot.bpf_kernel_axioms boot_ok])
    (simp_all add: ex_simps AF_INET_def IPPROTO_TCP_def)

section \<open>The table's capacity\<close>

text \<open>C24. When map_socks is full, an intercepted connect() is still sent to the proxy, its
  destination is lost, and the proxy's later query is left to the kernel: the ignored result of
  the map update.\<close>

theorem full_table_loses_destination:
  assumes K: "bpf_kernel_room K ok obs cookie cp" and i: "ok k"
    and int: "intercepted e (v_config (obs k)) h ctx"
    and full: "\<not> accepts (v_socks (obs k)) (cookie (sk_id h))"
    and p: "v_ports (obs k) (ntohs e (sk_dst_port (sk q))) = None"
  shows "\<exists>k1 k2 k3. cg_connect4 e K h k ctx = (1, k1, redirected e (v_config (obs k)) ctx) \<and>
           cg_sock_ops e K h k1 ops = (0, k2) \<and> cg_sock_opt e K k2 q = (1, k3, q) \<and> obs k3 = obs k"
proof -
  note basic = bpf_kernel_room.axioms(1) [OF K]
  from bpf_kernel_room.connect4_refines [OF K i, of e h ctx] int full
  obtain k1 where k1: "cg_connect4 e K h k ctx = (1, k1, redirected e (v_config (obs k)) ctx)"
      "ok k1" "obs k1 = obs k"
    by (auto simp: nat_connect_def)
  from full k1(3) have "v_socks (obs k1) (cookie (sk_id h)) = None"
    by (auto simp: accepts_def)
  with bpf_kernel.sock_ops_idle [OF basic k1(2), of ops h e] k1(3)
  obtain k2 where k2: "cg_sock_ops e K h k1 ops = (0, k2)" "ok k2" "obs k2 = obs k" by auto
  from p k2(3) have "original_dst (obs k2) (ntohs e (sk_dst_port (sk q))) = None"
    by (simp add: original_dst_def)
  with bpf_kernel.sock_opt_decline [OF basic k2(2), of q e] k1 k2 show ?thesis by auto
qed

definition ex_full :: kstate where
  "ex_full = ex_state
     \<lparr>ks_socks := map (\<lambda>i. \<lparr>live = True, key = of_nat (i + 10), val = remembered LE ex_addr\<rparr>) [0..<100000]\<rparr>"

lemma ex_full_keys:
  "filter live (ks_socks ex_full) = ks_socks ex_full"
  "map key (ks_socks ex_full) = map (\<lambda>i. of_nat (i + 10)) [0..<100000]"
  "length (ks_socks ex_full) = MAX_CONNECTIONS"
  by (simp_all add: ex_full_def MAX_CONNECTIONS_def filter_map o_def)

lemma unat_of_nat_u64: "n < 2 ^ 64 \<Longrightarrow> unat (of_nat n :: u64) = n"
  by (simp add: unat_of_nat take_bit_nat_eq_self)

lemma unat_key: "i < 100000 \<Longrightarrow> unat (of_nat (i + 10) :: u64) = i + 10"
  by (rule unat_of_nat_u64) simp

lemma ex_full_distinct: "distinct (map key (ks_socks ex_full))"
proof -
  have "inj_on (\<lambda>i. of_nat (i + 10) :: u64) {0..<100000}"
    by (rule inj_onI) (metis unat_key add_right_cancel atLeastLessThan_iff)
  then show ?thesis by (simp only: ex_full_keys(2) distinct_map distinct_upt set_upt)
qed

lemma ex_full_ok [simp]: "kstate_ok ex_full"
  using ex_full_distinct ex_full_keys ex_state_ok
  by (simp add: kstate_ok_def slots_ok_def) (simp add: ex_full_def ex_state_def boot_def)

lemma ex_full_refuses: "\<not> accepts (slot_get (ks_socks ex_full)) 7"
proof -
  have "7 \<notin> key ` set (filter live (ks_socks ex_full))"
  proof
    assume "7 \<in> key ` set (filter live (ks_socks ex_full))"
    then have "(7 :: u64) \<in> set (map (\<lambda>i. of_nat (i + 10)) [0..<100000])"
      using ex_full_keys by (metis list.set_map)
    then obtain i :: nat where i: "i < 100000" "(7 :: u64) = of_nat (i + 10)"
      by (auto simp del: of_nat_add)
    then have "unat (7 :: u64) = i + 10" using unat_key by metis
    then show False by simp
  qed
  moreover have "card (dom (slot_get (ks_socks ex_full))) = MAX_CONNECTIONS"
    using ex_full_distinct ex_full_keys by (simp add: card_dom_slot_get)
  ultimately show ?thesis by (simp add: accepts_def dom_slot_get)
qed

lemma full_table_loses_destination_witness:
  "\<exists>k1 k2 k3. cg_connect4 LE slot_kernel ex_hook ex_full ex_addr =
                (1, k1, redirected LE (v_config (kstate_view ex_full)) ex_addr) \<and>
     cg_sock_ops LE slot_kernel ex_hook k1 ex_ops = (0, k2) \<and>
     cg_sock_opt LE slot_kernel k2 ex_query = (1, k3, ex_query) \<and> kstate_view k3 = kstate_view ex_full"
proof (rule full_table_loses_destination [OF slot.bpf_kernel_room_axioms ex_full_ok])
  show "intercepted LE (v_config (kstate_view ex_full)) ex_hook ex_addr"
    using ex_intercepted by (simp add: ex_full_def del: ex_intercepted)
  show "\<not> accepts (v_socks (kstate_view ex_full)) (slot_cookie (sk_id ex_hook))"
    using ex_full_refuses by (simp add: ex_hook_def slot_cookie_def)
  show "v_ports (kstate_view ex_full) (ntohs LE (sk_dst_port (sk ex_query))) = None"
    using ex_ports_empty(1) by (simp add: ex_full_def)
qed

text \<open>C25. An entry of map_socks whose cookie map_ports does not have stays, whatever hooks run,
  until a cg_sock_ops event of its own socket: the destination of a connection that is never
  established is never removed. And as long as no SO_ORIGINAL_DST query of a TCP socket is made,
  whatever connects, socket operations and other system calls happen, the set of entries only
  grows, and every intercepted connect() has an entry in it unless the map is full.\<close>

theorem abandoned_connections_accumulate:
  assumes "bpf_kernel_full K ok obs cookie cp" and "ok k"
  shows "(list_all (\<lambda>ev. \<not> established_for cookie c ev) evs \<and> unrecorded (obs k) c \<longrightarrow>
       c \<in> dom (v_socks (obs (run e K k evs)))) \<and>
    (list_all (\<lambda>ev. \<not> asks ev) evs \<longrightarrow>
       dom (v_socks (obs k)) \<subseteq> dom (v_socks (obs (run e K k evs))) \<and>
       (\<forall>h ctx. Connect h ctx \<in> set evs \<and> intercepted e (v_config (obs k)) h ctx \<longrightarrow>
          cookie (sk_id h) \<in> dom (v_socks (obs (run e K k evs))) \<or>
          card (dom (v_socks (obs (run e K k evs)))) = MAX_CONNECTIONS))"
  using bpf_kernel_full.abandoned_stays [OF assms] bpf_kernel_full.entries_accumulate [OF assms] by metis

text \<open>Another client goes through its whole life; then the connection's own connect alone.\<close>

lemma ex_connect_unrecorded:
  "unrecorded (kstate_view (step LE slot_kernel ex_state (Connect ex_hook ex_addr))) 7"
proof -
  have "slot_cookie (sk_id ex_hook) = 7" by (simp add: ex_hook_def slot_cookie_def)
  with slot.step_refines [OF ex_state_ok, of LE "Connect ex_hook ex_addr"]
  show ?thesis by (simp add: unrecorded_def nat_connect_def del: step.simps)
qed

lemma abandoned_connections_accumulate_witness:
  "7 \<in> dom (v_socks (kstate_view (run LE slot_kernel (step LE slot_kernel ex_state (Connect ex_hook ex_addr)) ex_other))) \<and>
   (slot_cookie (sk_id ex_hook) \<in> dom (v_socks (kstate_view (run LE slot_kernel ex_state [Connect ex_hook ex_addr]))) \<or>
    card (dom (v_socks (kstate_view (run LE slot_kernel ex_state [Connect ex_hook ex_addr])))) = MAX_CONNECTIONS)"
proof -
  have "kstate_ok (step LE slot_kernel ex_state (Connect ex_hook ex_addr))"
    using slot.step_refines [OF ex_state_ok] by blast
  moreover have "list_all (\<lambda>ev. \<not> established_for slot_cookie 7 ev) ex_other"
    by (simp add: ex_other_def slot_cookie_def)
  moreover have "intercepted LE (v_config (kstate_view ex_state)) ex_hook ex_addr" by simp
  ultimately show ?thesis
    using abandoned_connections_accumulate [OF slot.bpf_kernel_full_axioms,
        of "step LE slot_kernel ex_state (Connect ex_hook ex_addr)" 7 ex_other LE] ex_connect_unrecorded
      abandoned_connections_accumulate [OF slot.bpf_kernel_full_axioms ex_state_ok, of 0 "[Connect ex_hook ex_addr]" LE]
    by (simp del: step.simps run.simps)
qed

section \<open>Interleaved programs\<close>

text \<open>C10. Whatever programs run at the same time, also between the two deletions of cg_sock_opt and
  without any promise about deleted elements, the configuration stays and every remembered
  destination has the intercepted port as the host's byte order decodes it, and source fields
  that are zero.\<close>

theorem interleavings_keep_entries:
  assumes "bpf_kernel K ok obs cookie cp" and "ireach e K s t" and "sound ok obs e cfg (kern s)"
  shows "sound ok obs e cfg (kern t)"
  by (rule bpf_kernel.ireach_sound [OF assms])

lemma interleavings_keep_entries_witness:
  "sound kstate_ok kstate_view LE \<lparr>proxy_port = 18000, proxy_pid = 100\<rparr>
     (kern \<lparr>kern = step LE slot_kernel ex_state (Connect ex_hook ex_addr), gap = []\<rparr>)"
proof (rule interleavings_keep_entries [OF slot.bpf_kernel_axioms])
  show "ireach LE slot_kernel \<lparr>kern = ex_state, gap = []\<rparr>
          \<lparr>kern = step LE slot_kernel ex_state (Connect ex_hook ex_addr), gap = []\<rparr>"
    using ireach.later [OF ireach.refl istep.run_whole
      [of LE slot_kernel "\<lparr>kern = ex_state, gap = []\<rparr>" "Connect ex_hook ex_addr"]]
    by simp
  show "sound kstate_ok kstate_view LE \<lparr>proxy_port = 18000, proxy_pid = 100\<rparr>
          (kern \<lparr>kern = ex_state, gap = []\<rparr>)"
    by (simp add: sound_def entries_ok_def) (simp add: ex_state_def)
qed

text \<open>
  The read through the pointer after the deletion: client A (port 40000, cookie 7) is being
  answered, client B (port 40001, cookie 10) establishes its connection between the two deletions
  and gets A's freed element of \<open>map_ports\<close>. The second deletion then hits B's destination.
\<close>

definition ex_hook_B :: hook where
  "ex_hook_B = \<lparr>task = push_bit 32 77, sk_id = 9\<rparr>"

definition ex_ops_B :: bpf_sock_ops where
  "ex_ops_B = ex_ops\<lparr>local_port := 40001\<rparr>"

definition ex_query_B :: bpf_sockopt where
  "ex_query_B = ex_query\<lparr>sk := (sk ex_query)\<lparr>sk_dst_port := 0x419c\<rparr>\<rparr>"

definition ex_two_clients :: kstate where
  "ex_two_clients = step LE slot_kernel ex_pending (Connect ex_hook_B ex_addr)"

text \<open>C26. For any kernel with the full contract: client A (cookie c) is being answered, cg_sock_opt
  has deleted A's entry of map_ports and still holds the pointer to the element, and any hooks
  of other clients run before the second deletion. If the element was reused, so that the
  pointer now reads another client's cookie c' that map_ports has for the port of a query q',
  the second deletion removes the destination of c' and not A's: A's entry of map_socks stays,
  and the query of c' is no longer answered.\<close>

theorem reused_element_loses_destination:
  assumes "bpf_kernel_full K ok obs cookie cp" and "ok k" and "pending c p s (obs k)"
    and "sock_opt_front e K k q = (Some a, k1, q1)" and "ntohs e (sk_dst_port (sk q)) = p"
    and "list_all (foreign e cookie c p) evs" and "k2 = run e K k1 evs"
    and "deref (map_ports K) k2 a = c'" and "c' \<noteq> c"
    and "v_ports (obs k2) (ntohs e (sk_dst_port (sk q'))) = Some c'"
  shows "v_socks (obs (sock_opt_back K a k2)) = (v_socks (obs k2))(c' := None) \<and>
    v_socks (obs (sock_opt_back K a k2)) c = Some s \<and>
    (\<exists>k4. cg_sock_opt e K (sock_opt_back K a k2) q' = (1, k4, q') \<and> obs k4 = obs (sock_opt_back K a k2))"
proof -
  from bpf_kernel_full.gap_keeps_waiting [OF assms(1-6)] assms(7)
  have "ok k2" "waiting c s (obs k2)" by simp_all
  from bpf_kernel_full.back_hits_reused [OF assms(1) this assms(8-10)] show ?thesis .
qed

lemma ex_gap:
  "\<exists>a k1 q1. sock_opt_front LE slot_kernel ex_two_clients ex_query = (Some a, k1, q1) \<and>
     deref (map_ports slot_kernel) (run LE slot_kernel k1 [Sock_ops ex_hook_B ex_ops_B]) a = 10 \<and>
     v_ports (kstate_view (run LE slot_kernel k1 [Sock_ops ex_hook_B ex_ops_B])) 40001 = Some 10"
  by (simp add: ex_two_clients_def ex_pending_eq ex_hook_B_def ex_ops_B_def
       ex_simps exec_simps sock_opt_front_def slot_get_def remembered_def)

lemma ex_two_clients_ok: "kstate_ok ex_two_clients"
  unfolding ex_two_clients_def using slot.step_refines [OF ex_pending_ok] by blast

lemma ex_two_clients_pending: "pending 7 40000 (remembered LE ex_addr) (kstate_view ex_two_clients)"
proof -
  have "list_all (foreign LE slot_cookie 7 40000) [Connect ex_hook_B ex_addr]"
    by (simp add: ex_hook_B_def slot_cookie_def)
  from foreign_run_pending [OF this ex_is_pending] slot.step_refines [OF ex_pending_ok, of LE "Connect ex_hook_B ex_addr"]
  show ?thesis unfolding ex_two_clients_def by simp
qed

lemma reused_element_loses_destination_witness:
  "\<exists>k3. v_socks (kstate_view k3) 7 = Some (remembered LE ex_addr) \<and> v_socks (kstate_view k3) 10 = None \<and>
     (\<exists>k4. cg_sock_opt LE slot_kernel k3 ex_query_B = (1, k4, ex_query_B))"
proof -
  obtain a k1 q1 where g: "sock_opt_front LE slot_kernel ex_two_clients ex_query = (Some a, k1, q1)"
    "deref (map_ports slot_kernel) (run LE slot_kernel k1 [Sock_ops ex_hook_B ex_ops_B]) a = 10"
    "v_ports (kstate_view (run LE slot_kernel k1 [Sock_ops ex_hook_B ex_ops_B])) 40001 = Some 10"
    using ex_gap by blast
  have q: "ntohs LE (sk_dst_port (sk ex_query_B)) = 40001"
    by (simp add: ex_query_B_def ntohs_def bswap16_def)
  have f: "list_all (foreign LE slot_cookie 7 40000) [Sock_ops ex_hook_B ex_ops_B]"
    by (simp add: ex_hook_B_def ex_ops_B_def slot_cookie_def)
  from reused_element_loses_destination [OF slot.bpf_kernel_full_axioms ex_two_clients_ok ex_two_clients_pending
      g(1) ex_query_port f HOL.refl g(2) _ g(3) [folded q]]
  show ?thesis by (intro exI [of _ "sock_opt_back slot_kernel a (run LE slot_kernel k1 [Sock_ops ex_hook_B ex_ops_B])"]) auto
qed

end
