(* ===== verification/Go_Strings.thy ===== *)
theory Go_Strings
  imports Prelude "HOL-Library.Sublist"
begin

text \<open>
  What the Go program uses of the package \<^verbatim>\<open>strings\<close>: \<^verbatim>\<open>Split\<close> and \<^verbatim>\<open>Join\<close> with a
  one-character separator and \<^verbatim>\<open>Contains\<close>, on byte strings. The lemmas are the round trip of
  splitting and joining, the number of parts, and substring search as a factorisation.
\<close>

section \<open>Split and Join\<close>

fun split_at :: "char \<Rightarrow> string \<Rightarrow> string list" where
  "split_at c [] = [[]]"
| "split_at c (x # xs) =
     (let ps = split_at c xs in if x = c then [] # ps else (x # hd ps) # tl ps)"

fun join_with :: "char \<Rightarrow> string list \<Rightarrow> string" where
  "join_with c [] = []"
| "join_with c [p] = p"
| "join_with c (p # q # ps) = p @ c # join_with c (q # ps)"

lemma split_at_ne [simp]: "split_at c s \<noteq> []"
  by (induction s) (simp_all add: Let_def)

lemma join_with_Cons: "ps \<noteq> [] \<Longrightarrow> join_with c (p # ps) = p @ c # join_with c ps"
  by (cases ps) simp_all

lemma join_with_extend: "ps \<noteq> [] \<Longrightarrow> join_with c ((x # hd ps) # tl ps) = x # join_with c ps"
  by (cases ps; cases "tl ps") simp_all

lemma join_split [go_simps]: "join_with c (split_at c s) = s"
  by (induction s) (simp_all add: Let_def join_with_Cons join_with_extend)

lemma length_split [go_simps]: "length (split_at c s) = Suc (count_list s c)"
  by (induction s) (simp_all add: Let_def Suc_diff_le)

lemma split_at_no_sep: "c \<notin> set s \<Longrightarrow> split_at c s = [s]"
  by (induction s) (auto simp: Let_def)

lemma split_at_append_sep: "split_at c (s @ c # t) = split_at c s @ split_at c t"
  by (induction s) (auto simp: Let_def hd_append)

lemma split_join:
  "ps \<noteq> [] \<Longrightarrow> \<forall>p \<in> set ps. c \<notin> set p \<Longrightarrow> split_at c (join_with c ps) = ps"
  by (induction c ps rule: join_with.induct) (simp_all add: split_at_no_sep split_at_append_sep)

lemma split_at_parts: "p \<in> set (split_at c s) \<Longrightarrow> c \<notin> set p"
proof (induction s arbitrary: p)
  case (Cons x s)
  have "hd (split_at c s) \<in> set (split_at c s)" "set (tl (split_at c s)) \<subseteq> set (split_at c s)"
    by (simp_all add: list.set_sel(2) subsetI)
  with Cons show ?case by (auto simp: Let_def split: if_splits)
qed simp

section \<open>Contains\<close>

fun contains :: "string \<Rightarrow> string \<Rightarrow> bool" where
  "contains [] t = (t = [])"
| "contains (x # xs) t = (prefix t (x # xs) \<or> contains xs t)"

lemma contains_iff [go_simps]: "contains s t \<longleftrightarrow> (\<exists>p q. s = p @ t @ q)"
proof
  show "contains s t \<Longrightarrow> \<exists>p q. s = p @ t @ q"
  proof (induction s)
    case (Cons x s)
    then consider "prefix t (x # s)" | p q where "s = p @ t @ q" by auto
    then show ?case
    proof cases
      case 1
      then show ?thesis by (metis append_Nil prefix_def)
    next
      case 2
      then show ?thesis by (metis append_Cons)
    qed
  qed simp
next
  show "\<exists>p q. s = p @ t @ q \<Longrightarrow> contains s t"
  proof (induction s)
    case (Cons x s)
    then obtain p q where pq: "x # s = p @ t @ q" by blast
    show ?case
    proof (cases p)
      case Nil
      with pq have "prefix t (x # s)" by simp
      then show ?thesis by simp
    next
      case (Cons y p')
      with pq have "s = p' @ t @ q" by simp
      with Cons.IH show ?thesis by auto
    qed
  qed simp
qed

lemma contains_refl [simp]: "contains s s"
  by (cases s) simp_all

lemma contains_empty [simp]: "contains s []"
  by (cases s) simp_all

end
