(* ===== verification/Go_Target.thy ===== *)
theory Go_Target
  imports Bpf_Kernel
begin

text \<open>
  The user-space side of the redirection, from \<^verbatim>\<open>main.go\<close>: the configuration the Go program
  publishes to the eBPF programs, the query for a connection's original destination, and what
  the connection handlers do with its result. The system call, the raw connection and the error
  values of the runtime are parameters.
\<close>

section \<open>Constants and configuration\<close>

definition PROXY_PORT :: u16 where
  "PROXY_PORT = 18000"

definition go_SO_ORIGINAL_DST :: int where
  "go_SO_ORIGINAL_DST = 80"

definition MAX_BUFFER_SIZE :: nat where
  "MAX_BUFFER_SIZE = 100000"

definition MAX_WORKERS :: nat where
  "MAX_WORKERS = 1000"

text \<open>\<^verbatim>\<open>proxyConfig\<close> is generated from \<^verbatim>\<open>struct Config\<close>; \<^verbatim>\<open>ebpf.UpdateAny\<close> is \<^verbatim>\<open>BPF_ANY\<close>.\<close>

definition publish_config :: "'k kernel \<Rightarrow> u64 \<Rightarrow> 'k \<Rightarrow> int \<times> 'k" where
  "publish_config K pid k =
     update_elem (map_config K) k 0 \<lparr>proxy_port = PROXY_PORT, proxy_pid = pid\<rparr> BPF_ANY"

section \<open>The original destination of a connection\<close>

text \<open>
  Errors: a system call's number, an error with a message, a message wrapped around an error
  (\<^verbatim>\<open>fmt.Errorf\<close>), and the one made from an unexpected response's status and body.
\<close>

datatype go_error =
    Errno nat
  | Go_error string
  | Wrapped string go_error
  | Status_error int "u8 list"

text \<open>
  \<^verbatim>\<open>SockAddrIn\<close> laid over the sixteen bytes the system call fills in. The family field is read
  nowhere.
\<close>

record SockAddrIn =
  SinFamily :: "u8 list"
  SinPort :: "u8 list"
  SinAddr :: "u8 list"
  Pad :: "u8 list"

definition sockaddr_of_bytes :: "u8 list \<Rightarrow> SockAddrIn" where
  "sockaddr_of_bytes b =
     \<lparr>SinFamily = take 2 b, SinPort = take 2 (drop 2 b), SinAddr = take 4 (drop 4 b),
      Pad = take 8 (drop 8 b)\<rparr>"

record TCPAddr =
  IP :: "u8 list"
  Port :: int

text \<open>\<^verbatim>\<open>net.IPv4\<close>: the sixteen-byte form of an IPv4 address.\<close>

definition net_IPv4 :: "u8 \<Rightarrow> u8 \<Rightarrow> u8 \<Rightarrow> u8 \<Rightarrow> u8 list" where
  "net_IPv4 a b c d = replicate 10 0 @ [0xff, 0xff, a, b, c, d]"

text \<open>
  \<^verbatim>\<open>getsockopt\<close>: the raw system call returns an error number and leaves the option in the buffer;
  a nonzero number becomes the error.
\<close>

definition getsockopt :: "(u8 list \<Rightarrow> nat \<times> u8 list) \<Rightarrow> u8 list \<Rightarrow> go_error option \<times> u8 list" where
  "getsockopt sys buf = (case sys buf of (e, buf') \<Rightarrow> (if e \<noteq> 0 then Some (Errno e) else None, buf'))"

text \<open>
  \<^verbatim>\<open>getOriginalTargetFromConn\<close>. \<open>raw\<close> is the error of \<^verbatim>\<open>SyscallConn\<close>, if any; \<open>ctl\<close> says whether
  \<^verbatim>\<open>Control\<close> ran the closure (it does not on a closed descriptor, and its own error is ignored);
  the result is what was logged, the address, and the error returned.
\<close>

definition getOriginalTargetFromConn ::
  "go_error option \<Rightarrow> bool \<Rightarrow> (u8 list \<Rightarrow> nat \<times> u8 list) \<Rightarrow>
     (string \<times> go_error) list \<times> TCPAddr option \<times> go_error option" where
  "getOriginalTargetFromConn raw ctl sys =
     (case raw of
        Some err \<Rightarrow> ([(''Failed to get raw connection'', err)], None, Some err)
      | None \<Rightarrow>
         (let zero = replicate 16 0;
              (err, buf) = (if ctl then getsockopt sys zero else (None, zero));
              log = (case err of None \<Rightarrow> [] | Some x \<Rightarrow> [(''getsockopt SO_ORIGINAL_DST failed'', x)]);
              originalDst = sockaddr_of_bytes buf;
              targetAddr = net_IPv4 (SinAddr originalDst ! 0) (SinAddr originalDst ! 1)
                                    (SinAddr originalDst ! 2) (SinAddr originalDst ! 3);
              targetPort = (push_bit 8 (ucast (SinPort originalDst ! 0)) OR
                            ucast (SinPort originalDst ! 1) :: u16)
          in (log, Some \<lparr>IP = targetAddr, Port = uint targetPort\<rparr>, None)))"

section \<open>The connection handlers\<close>

text \<open>
  What a handler does with the connection: hand it to the HTTP proxy module or forward it, with
  the address as it is (\<open>None\<close> is Go's nil address), or give up.
\<close>

datatype dispatch = Handle_http "TCPAddr option" | Forward_raw "TCPAddr option" | Give_up

definition handleConnection ::
  "bool \<Rightarrow> (string \<times> go_error) list \<times> TCPAddr option \<times> go_error option \<Rightarrow>
     (string \<times> go_error) list \<times> dispatch" where
  "handleConnection bypass target =
     (case target of (log, addr, err) \<Rightarrow>
        (log @ (case err of None \<Rightarrow> [] | Some x \<Rightarrow> [(''Failed to get original destination'', x)]),
         if \<not> bypass then Handle_http addr else Forward_raw addr))"

definition handleConnectionTimed ::
  "bool \<Rightarrow> (string \<times> go_error) list \<times> TCPAddr option \<times> go_error option \<Rightarrow>
     (string \<times> go_error) list \<times> dispatch" where
  "handleConnectionTimed bypass target =
     (case target of (log, addr, err) \<Rightarrow>
        (case err of
           Some x \<Rightarrow> (log @ [(''Failed to get original destination'', x)], Give_up)
         | None \<Rightarrow> (log, if \<not> bypass then Handle_http addr else Forward_raw addr)))"

section \<open>Decoding\<close>

lemma big_endian_port: "push_bit 8 (ucast (ucast (drop_bit 8 p) :: u8)) OR ucast (ucast p :: u8) = (p :: u16)"
  by (rule bit_word_eqI) (auto simp: bit_simps)

lemma store16_htons: "store16 e (htons e p) = [ucast (drop_bit 8 p), ucast p]"
proof (cases e)
  case LE
  have "ucast (bswap16 p) = (ucast (drop_bit 8 p) :: u8)"
    by (rule bit_word_eqI) (auto simp: bit_simps bit_bswap16 add.commute)
  moreover have "ucast (drop_bit 8 (bswap16 p)) = (ucast p :: u8)"
    by (rule bit_word_eqI) (auto simp: bit_simps bit_bswap16)
  ultimately show ?thesis using LE by (simp add: store16_def htons_def)
qed (simp add: store16_def htons_def)

end
