(* ===== verification/Object_Storage.thy ===== *)
theory Object_Storage
  imports Go_Strings Go_Target
begin

text \<open>
  The object-storage adapters of \<^verbatim>\<open>objectStorage/\<close>: which requests are intercepted, under which
  key their objects are cached, and the response made from a cached object. The values of the
  package \<^verbatim>\<open>net/http\<close> are records of the fields the program reads.
\<close>

section \<open>Results of Go functions\<close>

text \<open>
  A pair of a value and an error, of which the callers use one or the other; a run-time panic,
  which nothing in the program recovers from, is a third case.
\<close>

datatype 'a go = Ret 'a | Err go_error | Panic string

text \<open>\<open>on_go\<close> branches on the error of a call, as \<^verbatim>\<open>if err != nil\<close> does; a panic goes through.\<close>

definition on_go ::
  "'a go \<times> 's \<Rightarrow> ('a \<Rightarrow> 's \<Rightarrow> 'b go \<times> 's) \<Rightarrow> (go_error \<Rightarrow> 's \<Rightarrow> 'b go \<times> 's) \<Rightarrow> 'b go \<times> 's" where
  "on_go r ok bad =
     (case r of (Ret a, s) \<Rightarrow> ok a s | (Err e, s) \<Rightarrow> bad e s | (Panic m, s) \<Rightarrow> (Panic m, s))"

lemma on_go_simps [simp]:
  "on_go (Ret a, s) ok bad = ok a s"
  "on_go (Err e, s) ok bad = bad e s"
  "on_go (Panic m, s) ok bad = (Panic m, s)"
  by (simp_all add: on_go_def)

section \<open>Requests, responses, objects\<close>

text \<open>
  \<open>url_path\<close> is the decoded path, \<open>url_escaped_path\<close> and \<open>url_escaped_host\<close> are path and host as
  \<^verbatim>\<open>URL.String\<close> prints them. A server reads the request line \<^verbatim>\<open>GET /b/k?q HTTP/1.1\<close> into a URL
  without scheme and host; the \<^verbatim>\<open>Host\<close> header is \<open>req_host\<close>. \<open>url_String\<close> is \<^verbatim>\<open>URL.String\<close> for the
  URLs of requests: no opaque part, user or fragment, and a relative path that begins with a
  slash. The program reads none of the other headers (\<open>req_headers\<close>), the servers may.
\<close>

record URL =
  url_scheme :: string
  url_host :: string
  url_path :: string
  url_rawquery :: string
  url_forcequery :: bool
  url_escaped_host :: string
  url_escaped_path :: string

type_synonym headers = "string \<rightharpoonup> string list"

record http_request =
  req_method :: string
  req_url :: URL
  req_host :: string
  req_headers :: headers

definition url_String :: "URL \<Rightarrow> string" where
  "url_String u =
     (if url_scheme u \<noteq> [] then url_scheme u @ '':'' else []) @
     (if url_scheme u \<noteq> [] \<or> url_host u \<noteq> []
      then (if url_host u \<noteq> [] \<or> url_path u \<noteq> [] then ''//'' else []) @ url_escaped_host u
      else []) @
     (if url_escaped_path u \<noteq> [] \<and> hd (url_escaped_path u) \<noteq> CHR ''/'' \<and> url_host u \<noteq> []
      then ''/'' else []) @
     url_escaped_path u @
     (if url_forcequery u \<or> url_rawquery u \<noteq> [] then ''?'' @ url_rawquery u else [])"

definition origin_form :: "URL \<Rightarrow> bool" where
  "origin_form u \<longleftrightarrow> url_scheme u = [] \<and> url_host u = [] \<and> url_escaped_host u = []"

text \<open>
  Objects are passed by pointer: a function that takes or returns a \<^verbatim>\<open>*Object\<close> has an
  \<open>object option\<close> here. \<open>obj_Data\<close> is a pointer as well.
\<close>

record object =
  obj_Key :: string
  obj_Data :: "u8 list option"
  obj_Headers :: headers

record response_head =
  res_status :: int
  res_length :: int
  res_headers :: headers

record http_response = response_head +
  res_body :: "u8 list"

definition StatusOK :: int where
  "StatusOK = 200"

section \<open>MinIO\<close>

definition validateBucketName :: "string \<Rightarrow> bool" where
  "validateBucketName bucket \<longleftrightarrow> bucket \<noteq> [] \<and> bucket \<noteq> ''..'' \<and> bucket \<noteq> ''.''"

definition minIoisObjectKey :: "string \<Rightarrow> bool" where
  "minIoisObjectKey key \<longleftrightarrow> key \<noteq> []"

definition getObjectPathFromURL :: "string \<Rightarrow> string" where
  "getObjectPathFromURL url =
     (let parts = split_at (CHR ''/'') url
      in if length parts < 3 then [] else join_with (CHR ''/'') (drop 2 parts))"

definition minio_ExtractObjectKey :: "http_request \<Rightarrow> string" where
  "minio_ExtractObjectKey req =
     url_host (req_url req) @ url_path (req_url req) @ ''?'' @ url_rawquery (req_url req)"

definition minio_CreateLocalResponse :: "object option \<Rightarrow> http_response go" where
  "minio_CreateLocalResponse object =
     (case object of
        None \<Rightarrow> Panic ''nil pointer dereference''
      | Some obj \<Rightarrow>
         (case obj_Data obj of
            None \<Rightarrow> Panic ''nil pointer dereference''
          | Some data \<Rightarrow>
              Ret \<lparr>res_status = StatusOK, res_length = int (length data),
                   res_headers = obj_Headers obj, res_body = data\<rparr>))"

definition minio_ShouldIntercept :: "string \<Rightarrow> http_request \<Rightarrow> bool" where
  "minio_ShouldIntercept host req =
     (if contains (url_rawquery (req_url req)) ''location'' then False
      else if req_method req \<noteq> ''GET'' then False
      else
        (let path = split_at (CHR ''/'') (url_path (req_url req));
             hostOk = contains (req_host req) host;
             requestOk = (req_method req = ''GET'' \<and> 3 \<le> length path \<and>
                          validateBucketName (path ! 1) \<and>
                          minIoisObjectKey (getObjectPathFromURL (url_String (req_url req))))
         in hostOk \<and> requestOk))"

section \<open>The dummy adapter\<close>

definition validateObjectKey :: "string \<Rightarrow> bool" where
  "validateObjectKey key \<longleftrightarrow> key \<noteq> [] \<and> key \<noteq> ''..'' \<and> key \<noteq> ''.''"

definition dummy_ShouldIntercept :: "string \<Rightarrow> http_request \<Rightarrow> bool" where
  "dummy_ShouldIntercept host req =
     (let path = split_at (CHR ''/'') (url_path (req_url req));
          hostOk = contains (req_host req) host;
          requestOk = (req_method req = ''GET'' \<and> 3 \<le> length path \<and>
                       validateBucketName (path ! 1) \<and> validateObjectKey (path ! 2))
      in hostOk \<and> requestOk)"

definition dummy_CreateLocalResponse :: "object option \<Rightarrow> http_response go" where
  "dummy_CreateLocalResponse object =
     (case object of
        None \<Rightarrow> Panic ''nil pointer dereference''
      | Some obj \<Rightarrow>
         (case obj_Data obj of
            None \<Rightarrow> Panic ''nil pointer dereference''
          | Some data \<Rightarrow>
              Ret \<lparr>res_status = StatusOK, res_length = int (length data),
                   res_headers = [''Content-Type'' \<mapsto> [''application/octet-stream'']],
                   res_body = data\<rparr>))"

section \<open>The interface\<close>

text \<open>\<^verbatim>\<open>ObjectStorage\<close> as a record of its methods, and the adapter the program creates.\<close>

record adapter =
  ShouldIntercept :: "http_request \<Rightarrow> bool"
  ExtractObjectKey :: "http_request \<Rightarrow> string"
  CreateLocalResponse :: "object option \<Rightarrow> http_response go"

text \<open>Neither the decision nor the key depends on the other headers, such as \<^verbatim>\<open>Authorization\<close>.\<close>

lemma minio_ignores_headers [simp]:
  "minio_ShouldIntercept host (q\<lparr>req_headers := h\<rparr>) = minio_ShouldIntercept host q"
  "minio_ExtractObjectKey (q\<lparr>req_headers := h\<rparr>) = minio_ExtractObjectKey q"
  by (simp_all add: minio_ShouldIntercept_def minio_ExtractObjectKey_def)

definition NewMinIOAdapter :: "string \<Rightarrow> adapter" where
  "NewMinIOAdapter host =
     \<lparr>ShouldIntercept = minio_ShouldIntercept host, ExtractObjectKey = minio_ExtractObjectKey,
      CreateLocalResponse = minio_CreateLocalResponse\<rparr>"

section \<open>Which paths are object paths\<close>

lemma getObjectPath_origin:
  assumes "origin_form u" and "url_escaped_path u = ''/'' @ b @ ''/'' @ k"
    and "CHR ''/'' \<notin> set b"
  shows "getObjectPathFromURL (url_String u) =
    k @ (if url_forcequery u \<or> url_rawquery u \<noteq> [] then ''?'' @ url_rawquery u else [])"
proof -
  let ?q = "if url_forcequery u \<or> url_rawquery u \<noteq> [] then ''?'' @ url_rawquery u else []"
  have "url_String u = CHR ''/'' # b @ CHR ''/'' # (k @ ?q)"
    using assms(1,2) by (simp add: url_String_def origin_form_def)
  moreover have "split_at (CHR ''/'') (CHR ''/'' # b @ CHR ''/'' # (k @ ?q)) =
      [] # b # split_at (CHR ''/'') (k @ ?q)"
    using split_at_append_sep [of "CHR ''/''" b "k @ ?q"] assms(3)
    by (simp add: split_at_no_sep Let_def)
  ultimately show ?thesis
    by (simp add: getObjectPathFromURL_def Let_def join_split)
qed

lemma split_bucket_path:
  assumes "CHR ''/'' \<notin> set b"
  shows "split_at (CHR ''/'') (''/'' @ b @ ''/'' @ k) = [] # b # split_at (CHR ''/'') k"
  using split_at_append_sep [of "CHR ''/''" b k] assms by (simp add: split_at_no_sep Let_def)

lemma split_short_path:
  assumes "CHR ''/'' \<notin> set b"
  shows "split_at (CHR ''/'') (''/'' @ b) = [[], b]"
  using assms by (simp add: split_at_no_sep Let_def)

text \<open>
  For a request line with a path, the adapter intercepts the GETs under a bucket whose name is
  not a dot segment, if anything follows the slash behind the bucket: an object's name or just
  a query.
\<close>

lemma minio_intercepts_iff:
  assumes "origin_form (req_url req)"
    and "url_path (req_url req) = ''/'' @ b @ ''/'' @ k" and "CHR ''/'' \<notin> set b"
    and "url_escaped_path (req_url req) = ''/'' @ b' @ ''/'' @ k'" and "CHR ''/'' \<notin> set b'"
  shows "minio_ShouldIntercept host req \<longleftrightarrow>
    req_method req = ''GET'' \<and> contains (req_host req) host \<and>
    \<not> contains (url_rawquery (req_url req)) ''location'' \<and> validateBucketName b \<and>
    (k' \<noteq> [] \<or> url_forcequery (req_url req) \<or> url_rawquery (req_url req) \<noteq> [])"
  using getObjectPath_origin [OF assms(1,4,5)] split_bucket_path [OF assms(3), of k]
    length_split [of "CHR ''/''" k]
  by (auto simp: minio_ShouldIntercept_def assms(2) Let_def minIoisObjectKey_def)

lemma minio_ignores_short_path:
  assumes "url_path (req_url req) = ''/'' @ b" and "CHR ''/'' \<notin> set b"
  shows "\<not> minio_ShouldIntercept host req"
  using split_short_path [OF assms(2)] by (simp add: minio_ShouldIntercept_def assms(1) Let_def)

section \<open>Object keys\<close>

lemma mark_unique:
  assumes "a @ c # b = a' @ c # b'" and "c \<notin> set a" and "c \<notin> set a'"
  shows "a = a' \<and> b = b'"
  using assms
proof (induction a arbitrary: a')
  case Nil
  then show ?case by (cases a') auto
next
  case (Cons x a)
  then show ?case by (cases a') auto
qed

lemma minio_key: "minio_ExtractObjectKey r = url_host (req_url r) @ url_path (req_url r) @ CHR ''?'' # url_rawquery (req_url r)"
  by (simp add: minio_ExtractObjectKey_def)

text \<open>A path is empty or begins with a slash, and a host has none: where the path begins can be read off.\<close>

definition rooted :: "string \<Rightarrow> bool" where
  "rooted path \<longleftrightarrow> path = [] \<or> hd path = CHR ''/''"

lemma host_path_unique:
  assumes "h @ p = h' @ p'" and "CHR ''/'' \<notin> set h" and "CHR ''/'' \<notin> set h'" and "rooted p" and "rooted p'"
  shows "h = h' \<and> p = p'"
proof (cases "p = [] \<or> p' = []")
  case True
  from assms(1) have "set (h @ p) = set (h' @ p')" by simp
  with True assms(2-5) have "p = [] \<and> p' = []" by (cases p; cases p') (auto simp: rooted_def)
  with assms(1) show ?thesis by simp
next
  case False
  then obtain x y where p: "p = CHR ''/'' # x" "p' = CHR ''/'' # y"
    using assms(4,5) by (cases p; cases p') (auto simp: rooted_def)
  with mark_unique [of h "CHR ''/''" x h' y] assms(1-3) show ?thesis by simp
qed

lemma minio_key_inj:
  assumes "CHR ''/'' \<notin> set (url_host u)" and "CHR ''/'' \<notin> set (url_host u')"
    and "rooted (url_path u)" and "rooted (url_path u')"
    and "CHR ''?'' \<notin> set (url_host u @ url_path u)" and "CHR ''?'' \<notin> set (url_host u' @ url_path u')"
    and "req_url r = u" and "req_url r' = u'"
  shows "minio_ExtractObjectKey r = minio_ExtractObjectKey r' \<longleftrightarrow>
    url_host u = url_host u' \<and> url_path u = url_path u' \<and> url_rawquery u = url_rawquery u'"
    (is "?k \<longleftrightarrow> ?p")
proof
  assume ?k
  then have "(url_host u @ url_path u) @ CHR ''?'' # url_rawquery u =
      (url_host u' @ url_path u') @ CHR ''?'' # url_rawquery u'"
    by (simp add: minio_key assms(7,8))
  from mark_unique [OF this assms(5,6)] host_path_unique [OF _ assms(1-4)] show ?p by blast
next
  assume ?p
  then show ?k by (simp add: minio_key assms(7,8))
qed

end
