(* ===== verification/Caches.thy ===== *)
theory Caches
  imports Object_Storage
begin

text \<open>
  The caches of \<^verbatim>\<open>cache/\<close>. The stores behind two of them (bigcache, a memcached server) are
  packages the sources only call: records of operations over an arbitrary state. The contract
  the proxy relies on is the locale \<open>object_cache\<close>: a lookup returns an object that was stored
  for the key, or what the initializer returned. It is proved here for the bigcache wrapper and
  the memcached client from contracts of their stores, and directly for the two test caches.
\<close>

section \<open>Errors\<close>

definition ErrInitializerNil :: go_error where
  "ErrInitializerNil = Go_error ''initializer is nil''"

definition ErrInvalidKey :: go_error where
  "ErrInvalidKey = Go_error ''key is invalid''"

definition ErrObjectNil :: go_error where
  "ErrObjectNil = Go_error ''object is nil''"

definition ErrDataNil :: go_error where
  "ErrDataNil = Go_error ''data is nil''"

definition ErrCacheMiss :: go_error where
  "ErrCacheMiss = Go_error ''cache miss''"

section \<open>Serialisation\<close>

text \<open>
  \<^verbatim>\<open>encoding/gob\<close> at the level of a structure's fields: pointers are flattened and a field that
  is empty is not transmitted, so that an empty slice behind a pointer and a nil pointer are
  the same bytes, and the decoder leaves the pointer nil. \<open>Gob_other\<close> stands for bytes that
  are not an encoded object.
\<close>

datatype gob = Gob_object string "u8 list" headers | Gob_other "u8 list"

definition serializeObj :: "object \<Rightarrow> gob go" where
  "serializeObj o1 =
     Ret (Gob_object (obj_Key o1) (case obj_Data o1 of None \<Rightarrow> [] | Some d \<Rightarrow> d) (obj_Headers o1))"

fun deserializeObj :: "gob \<Rightarrow> object go" where
  "deserializeObj (Gob_object k d h) =
     Ret \<lparr>obj_Key = k, obj_Data = (if d = [] then None else Some d), obj_Headers = h\<rparr>"
| "deserializeObj (Gob_other b) = Err (Go_error ''gob: invalid data'')"

type_synonym 's initializer = "'s \<Rightarrow> object option go \<times> 's"

section \<open>The bigcache wrapper\<close>

text \<open>
  The configuration the package is given; times are in nanoseconds, the maximal size in
  megabytes. The parameter for the size is not used.
\<close>

record bigcache_config =
  Shards :: int
  LifeWindow :: int
  CleanWindow :: int
  MaxEntriesInWindow :: int
  MaxEntrySize :: int
  StatsEnabled :: bool
  Verbose :: bool
  HardMaxCacheSize :: int

definition NewBigcacheWrapper :: "int \<Rightarrow> bigcache_config" where
  "NewBigcacheWrapper maxMemory =
     \<lparr>Shards = 1024, LifeWindow = 10 * 60 * 1000000000, CleanWindow = 1 * 1000000000,
      MaxEntriesInWindow = 1000 * 10 * 60, MaxEntrySize = 1000000, StatsEnabled = False,
      Verbose = True, HardMaxCacheSize = 512\<rparr>"

text \<open>
  \<open>bc_start_put\<close> is the statement \<^verbatim>\<open>go bw.put(obj)\<close>: it starts the goroutine, which runs
  \<open>bigcache_put\<close> at some later time. \<open>since s s'\<close> is the time \<^verbatim>\<open>time.Since\<close> measures between
  two states, in nanoseconds.
\<close>

record 's bigcache =
  bc_Get :: "string \<Rightarrow> 's \<Rightarrow> gob go \<times> 's"
  bc_Set :: "string \<Rightarrow> gob \<Rightarrow> 's \<Rightarrow> unit go \<times> 's"
  bc_start_put :: "object option \<Rightarrow> 's \<Rightarrow> 's"

definition bigcache_get :: "'s bigcache \<Rightarrow> string \<Rightarrow> 's \<Rightarrow> object option go \<times> 's" where
  "bigcache_get B key s =
     on_go (bc_Get B key s)
       (\<lambda>data s1. on_go (deserializeObj data, s1)
          (\<lambda>o1 s2. (Ret (Some o1), s2))
          (\<lambda>err s2. (Err (Wrapped ''deserialization error'' err), s2)))
       (\<lambda>err s1. (Err err, s1))"

definition bigcache_put :: "'s bigcache \<Rightarrow> object option \<Rightarrow> 's \<Rightarrow> unit go \<times> 's" where
  "bigcache_put B obj s =
     (case obj of
        None \<Rightarrow> (Panic ''nil pointer dereference'', s)
      | Some o1 \<Rightarrow>
          on_go (serializeObj o1, s)
            (\<lambda>serializedObj s1. on_go (bc_Set B (obj_Key o1) serializedObj s1)
               (\<lambda>_ s2. (Ret (), s2))
               (\<lambda>err s2. (Err err, s2)))
            (\<lambda>err s1. (Err (Wrapped ''serialization error'' err), s1)))"

definition bigcache_initialize ::
  "'s bigcache \<Rightarrow> string \<Rightarrow> 's initializer option \<Rightarrow> 's \<Rightarrow> object option go \<times> 's" where
  "bigcache_initialize B key init s =
     (case init of
        None \<Rightarrow> (Err ErrInitializerNil, s)
      | Some f \<Rightarrow>
          on_go (bigcache_get B key s)
            (\<lambda>obj s1. (Ret obj, s1))
            (\<lambda>_ s1. on_go (f s1)
               (\<lambda>obj s2. (Ret obj, bc_start_put B obj s2))
               (\<lambda>err s2. (Err err, s2))))"

definition bigcache_Get ::
  "'s bigcache \<Rightarrow> string \<Rightarrow> 's initializer option \<Rightarrow> 's \<Rightarrow> object option go \<times> 's" where
  "bigcache_Get B key init s =
     on_go (bigcache_get B key s)
       (\<lambda>data s1. (Ret data, s1))
       (\<lambda>_ s1. bigcache_initialize B key init s1)"

definition bigcache_GetTimed ::
  "('s \<Rightarrow> 's \<Rightarrow> int) \<Rightarrow> 's bigcache \<Rightarrow> string \<Rightarrow> 's initializer option \<Rightarrow> 's \<Rightarrow>
     (object option go \<times> int \<times> int) \<times> 's" where
  "bigcache_GetTimed since B key init s =
     (case bigcache_get B key s of
        (Err _, s1) \<Rightarrow>
          (case bigcache_initialize B key init s1 of
             (obj, s2) \<Rightarrow> ((obj, since s s1, since s1 s2), s2))
      | (data, s1) \<Rightarrow> ((data, since s s1, 0), s1))"

section \<open>The memcached client\<close>

record 's memcache =
  mc_Get :: "string \<Rightarrow> 's \<Rightarrow> gob go \<times> 's"
  mc_Set :: "string \<Rightarrow> gob \<Rightarrow> int \<Rightarrow> 's \<Rightarrow> unit go \<times> 's"
  mc_Delete :: "string \<Rightarrow> 's \<Rightarrow> unit go \<times> 's"
  mc_FlushAll :: "'s \<Rightarrow> unit go \<times> 's"
  mc_Ping :: "'s \<Rightarrow> unit go \<times> 's"
  mc_ErrCacheMiss :: go_error

definition memcached_get :: "'s memcache \<Rightarrow> string \<Rightarrow> 's \<Rightarrow> object option go \<times> 's" where
  "memcached_get M key s =
     (if key = [] \<or> length (split_at (CHR ''/'') key) < 3 then (Err ErrInvalidKey, s)
      else on_go (mc_Get M key s)
        (\<lambda>serialized s1. on_go (deserializeObj serialized, s1)
           (\<lambda>obj s2. (Ret (Some obj), s2))
           (\<lambda>err s2. (Err (Wrapped ''deserialization error'' err), s2)))
        (\<lambda>err s1. (Err err, s1)))"

definition memcached_set :: "'s memcache \<Rightarrow> int \<Rightarrow> object option \<Rightarrow> 's \<Rightarrow> unit go \<times> 's" where
  "memcached_set M ttl obj s =
     (case obj of
        None \<Rightarrow> (Err ErrObjectNil, s)
      | Some o1 \<Rightarrow>
          (if obj_Key o1 = [] then (Err ErrInvalidKey, s)
           else if obj_Data o1 = None then (Err ErrDataNil, s)
           else on_go (serializeObj o1, s)
             (\<lambda>serialized s1. mc_Set M (obj_Key o1) serialized ttl s1)
             (\<lambda>err s1. (Err (Wrapped ''serialization error'' err), s1))))"

definition memcached_initialize ::
  "'s memcache \<Rightarrow> int \<Rightarrow> string \<Rightarrow> 's initializer option \<Rightarrow> 's \<Rightarrow> object option go \<times> 's" where
  "memcached_initialize M ttl key init s =
     (case init of
        None \<Rightarrow> (Err ErrInitializerNil, s)
      | Some f \<Rightarrow>
          on_go (memcached_get M key s)
            (\<lambda>obj s1. (Ret obj, s1))
            (\<lambda>_ s1. on_go (f s1)
               (\<lambda>obj s2. on_go (memcached_set M ttl obj s2)
                  (\<lambda>_ s3. (Ret obj, s3))
                  (\<lambda>err s3. (Err err, s3)))
               (\<lambda>err s2. (Err (Wrapped ''initializer error'' err), s2))))"

definition memcached_Get ::
  "'s memcache \<Rightarrow> int \<Rightarrow> string \<Rightarrow> 's initializer option \<Rightarrow> 's \<Rightarrow> object option go \<times> 's" where
  "memcached_Get M ttl key init s =
     on_go (memcached_get M key s)
       (\<lambda>obj s1. (Ret obj, s1))
       (\<lambda>_ s1. memcached_initialize M ttl key init s1)"

definition memcached_GetTimed ::
  "('s \<Rightarrow> 's \<Rightarrow> int) \<Rightarrow> 's memcache \<Rightarrow> int \<Rightarrow> string \<Rightarrow> 's initializer option \<Rightarrow> 's \<Rightarrow>
     (object option go \<times> int \<times> int) \<times> 's" where
  "memcached_GetTimed since M ttl key init s =
     (case memcached_get M key s of
        (Err _, s1) \<Rightarrow>
          (case memcached_initialize M ttl key init s1 of
             (obj, s2) \<Rightarrow> ((obj, since s s1, since s1 s2), s2))
      | (data, s1) \<Rightarrow> ((data, since s s1, 0), s1))"

definition memcached_Delete :: "'s memcache \<Rightarrow> string \<Rightarrow> 's \<Rightarrow> unit go \<times> 's" where
  "memcached_Delete M key s =
     (if key = [] \<or> length (split_at (CHR ''/'') key) < 3 then (Err ErrInvalidKey, s)
      else on_go (mc_Delete M key s)
        (\<lambda>_ s1. (Ret (), s1))
        (\<lambda>err s1. if err = mc_ErrCacheMiss M then (Err ErrCacheMiss, s1) else (Err err, s1)))"

definition memcached_Flush :: "'s memcache \<Rightarrow> 's \<Rightarrow> unit go \<times> 's" where
  "memcached_Flush M s = mc_FlushAll M s"

definition memcached_TestConnection :: "'s memcache \<Rightarrow> 's \<Rightarrow> unit go \<times> 's" where
  "memcached_TestConnection M s = mc_Ping M s"

section \<open>The test caches\<close>

text \<open>
  \<^verbatim>\<open>DummyPrinterCache\<close> keeps its objects in a map: its state is that map and whatever else its
  initializers change. \<^verbatim>\<open>FakePasstroughCache\<close> keeps nothing.
\<close>

definition dummy_get :: "string \<Rightarrow> (string \<rightharpoonup> object) \<times> 's \<Rightarrow> object option" where
  "dummy_get key s = fst s key"

definition dummy_Put :: "object option \<Rightarrow> (string \<rightharpoonup> object) \<times> 's \<Rightarrow> unit go \<times> (string \<rightharpoonup> object) \<times> 's" where
  "dummy_Put obj s =
     (case obj of
        None \<Rightarrow> (Panic ''nil pointer dereference'', s)
      | Some o1 \<Rightarrow> (Ret (), ((fst s)(obj_Key o1 \<mapsto> o1), snd s)))"

definition dummy_initialize ::
  "string \<Rightarrow> ((string \<rightharpoonup> object) \<times> 's) initializer option \<Rightarrow> (string \<rightharpoonup> object) \<times> 's \<Rightarrow>
     object option go \<times> (string \<rightharpoonup> object) \<times> 's" where
  "dummy_initialize key init s =
     (case dummy_get key s of
        Some data \<Rightarrow> (Ret (Some data), s)
      | None \<Rightarrow>
         (case init of
            Some f \<Rightarrow>
              on_go (f s)
                (\<lambda>obj s1. on_go (dummy_Put obj s1) (\<lambda>_ s2. (Ret obj, s2)) (\<lambda>_ s2. (Ret obj, s2)))
                (\<lambda>err s1. (Err err, s1))
          | None \<Rightarrow> (Err (Go_error (''Object with key '' @ key @ '' not found'')), s)))"

definition dummy_Get ::
  "string \<Rightarrow> ((string \<rightharpoonup> object) \<times> 's) initializer option \<Rightarrow> (string \<rightharpoonup> object) \<times> 's \<Rightarrow>
     object option go \<times> (string \<rightharpoonup> object) \<times> 's" where
  "dummy_Get key init s =
     (case dummy_get key s of
        None \<Rightarrow> dummy_initialize key init s
      | Some obj \<Rightarrow> (Ret (Some obj), s))"

definition fake_get :: "string \<Rightarrow> object option" where
  "fake_get key = None"

definition fake_initialize ::
  "string \<Rightarrow> 's initializer option \<Rightarrow> 's \<Rightarrow> object option go \<times> 's" where
  "fake_initialize key init s =
     (case fake_get key of
        Some data \<Rightarrow> (Ret (Some data), s)
      | None \<Rightarrow>
         (case init of
            Some f \<Rightarrow> on_go (f s) (\<lambda>obj s1. (Ret obj, s1)) (\<lambda>err s1. (Err err, s1))
          | None \<Rightarrow> (Err (Go_error (''Object with key '' @ key @ '' not found'')), s)))"

definition fake_Get :: "string \<Rightarrow> 's initializer option \<Rightarrow> 's \<Rightarrow> object option go \<times> 's" where
  "fake_Get key init s =
     (case fake_get key of
        None \<Rightarrow> fake_initialize key init s
      | Some obj \<Rightarrow> (Ret (Some obj), s))"

section \<open>The contract of a cache\<close>

text \<open>
  \<open>good key\<close> says which objects may be handed out for a key, \<open>out\<close> is what the clients have been
  sent. Whatever the initializer promises of its result and of the invariant, \<open>Get\<close> promises.
\<close>

fun returns :: "('a \<Rightarrow> bool) \<Rightarrow> 'a option go \<Rightarrow> bool" where
  "returns P (Ret (Some x)) = P x"
| "returns P (Ret None) = False"
| "returns P (Err e) = True"
| "returns P (Panic m) = False"

definition keeps :: "('s \<Rightarrow> bool) \<Rightarrow> ('s \<Rightarrow> 'l) \<Rightarrow> ('a \<Rightarrow> bool) \<Rightarrow> 'l \<Rightarrow> 'a option go \<times> 's \<Rightarrow> bool" where
  "keeps ok out P l res \<longleftrightarrow> ok (snd res) \<and> out (snd res) = l \<and> returns P (fst res)"

locale object_cache =
  fixes Get :: "string \<Rightarrow> 's initializer option \<Rightarrow> 's \<Rightarrow> object option go \<times> 's"
    and ok :: "'s \<Rightarrow> bool" and out :: "'s \<Rightarrow> 'l" and good :: "string \<Rightarrow> object \<Rightarrow> bool"
  assumes get_law:
    "ok s \<Longrightarrow> (\<And>s1. ok s1 \<Longrightarrow> out s1 = out s \<Longrightarrow> keeps ok out (good key) (out s) (f s1)) \<Longrightarrow>
       keeps ok out (good key) (out s) (Get key (Some f) s)"

lemma keeps_on_go:
  assumes "\<And>a s. res = (Ret a, s) \<Longrightarrow> keeps ok out P l (good a s)"
    and "\<And>e s. res = (Err e, s) \<Longrightarrow> keeps ok out P l (bad e s)"
    and "\<And>m s. res \<noteq> (Panic m, s)"
  shows "keeps ok out P l (on_go res good bad)"
  using assms by (cases res; cases "fst res") auto

lemma keeps_Ret [simp]: "keeps ok out P l (Ret (Some a), s) \<longleftrightarrow> ok s \<and> out s = l \<and> P a"
  by (simp add: keeps_def conj_assoc)

lemma keeps_Err [simp]: "keeps ok out P l (Err e, s) \<longleftrightarrow> ok s \<and> out s = l"
  by (simp add: keeps_def)

lemma keeps_not_Panic [simp]: "\<not> keeps ok out P l (Panic m, s)" "\<not> keeps ok out P l (Ret None, s)"
  by (simp_all add: keeps_def)

lemma keeps_cases:
  assumes "keeps ok out P l res"
  obtains a s where "res = (Ret (Some a), s)" "ok s" "out s = l" "P a"
  | e s where "res = (Err e, s)" "ok s" "out s = l"
proof (cases res)
  case (Pair r s)
  with assms show ?thesis proof (cases r)
    case (Ret x)
    with Pair assms that(1) show ?thesis by (cases x) auto
  qed (use Pair assms that(2) in auto)
qed

section \<open>Round trip of the serialisation\<close>

lemma deserialize_serialize:
  "serializeObj o1 = Ret b \<Longrightarrow>
     deserializeObj b = Ret (if obj_Data o1 = Some [] then o1\<lparr>obj_Data := None\<rparr> else o1)"
  by (cases o1; cases "obj_Data o1") (auto simp: serializeObj_def)

section \<open>The bigcache wrapper is a cache\<close>

text \<open>
  What the wrapper needs of the package: an entry that decodes is an object that is good for its
  key, and a good object may be put.
\<close>

locale bigcache_store =
  fixes B :: "'s bigcache" and ok :: "'s \<Rightarrow> bool" and out :: "'s \<Rightarrow> 'l"
    and good :: "string \<Rightarrow> object \<Rightarrow> bool"
  assumes bc_get_law:
      "ok s \<Longrightarrow> bc_Get B key s = (r, s') \<Longrightarrow>
         ok s' \<and> out s' = out s \<and> (\<forall>m. r \<noteq> Panic m) \<and>
         (\<forall>b o1. r = Ret b \<longrightarrow> deserializeObj b = Ret o1 \<longrightarrow> good key o1)"
    and bc_put_law:
      "ok s \<Longrightarrow> good key o1 \<Longrightarrow>
         ok (bc_start_put B (Some o1) s) \<and> out (bc_start_put B (Some o1) s) = out s"
begin

lemma get_keeps: "ok s \<Longrightarrow> keeps ok out (good key) (out s) (bigcache_get B key s)"
proof -
  assume i: "ok s"
  obtain r s' where g: "bc_Get B key s = (r, s')" by fastforce
  note law = bc_get_law [OF i g]
  show ?thesis
  proof (cases r)
    case (Ret b)
    with g law show ?thesis by (cases b) (auto simp: bigcache_get_def)
  qed (use g law in \<open>auto simp: bigcache_get_def\<close>)
qed

lemma initialize_keeps:
  assumes i: "ok s"
    and f: "\<And>s1. ok s1 \<Longrightarrow> out s1 = out s \<Longrightarrow> keeps ok out (good key) (out s) (f s1)"
  shows "keeps ok out (good key) (out s) (bigcache_initialize B key (Some f) s)"
  using get_keeps [OF i, of key]
proof (cases rule: keeps_cases)
  case (2 e s1)
  with f [of s1] have "keeps ok out (good key) (out s) (f s1)" by simp
  then show ?thesis
    by (cases rule: keeps_cases) (use 2 bc_put_law in \<open>auto simp: bigcache_initialize_def\<close>)
qed (simp add: bigcache_initialize_def)

lemma Get_keeps:
  assumes i: "ok s"
    and f: "\<And>s1. ok s1 \<Longrightarrow> out s1 = out s \<Longrightarrow> keeps ok out (good key) (out s) (f s1)"
  shows "keeps ok out (good key) (out s) (bigcache_Get B key (Some f) s)"
  using get_keeps [OF i, of key]
proof (cases rule: keeps_cases)
  case (2 e s1)
  then show ?thesis using initialize_keeps [of s1 key f] f by (simp add: bigcache_Get_def)
qed (simp add: bigcache_Get_def)

end

sublocale bigcache_store \<subseteq> cache: object_cache "bigcache_Get B" ok out good
  by unfold_locales (rule Get_keeps)

section \<open>The memcached client is a cache\<close>

locale memcache_store =
  fixes M :: "'s memcache" and ttl :: int and ok :: "'s \<Rightarrow> bool" and out :: "'s \<Rightarrow> 'l"
    and good :: "string \<Rightarrow> object \<Rightarrow> bool"
  assumes good_law: "good key o1 \<Longrightarrow> obj_Key o1 = key \<and> obj_Data o1 \<noteq> Some []"
    and mc_get_law:
      "ok s \<Longrightarrow> mc_Get M key s = (r, s') \<Longrightarrow>
         ok s' \<and> out s' = out s \<and> (\<forall>m. r \<noteq> Panic m) \<and>
         (\<forall>b o1. r = Ret b \<longrightarrow> deserializeObj b = Ret o1 \<longrightarrow> good key o1)"
    and mc_set_law:
      "ok s \<Longrightarrow> (\<And>o1. deserializeObj b = Ret o1 \<Longrightarrow> good key o1) \<Longrightarrow>
         mc_Set M key b ttl s = (u, s') \<Longrightarrow> ok s' \<and> out s' = out s \<and> (\<forall>m. u \<noteq> Panic m)"
begin

lemma get_keeps: "ok s \<Longrightarrow> keeps ok out (good key) (out s) (memcached_get M key s)"
proof -
  assume i: "ok s"
  obtain r s' where g: "mc_Get M key s = (r, s')" by fastforce
  note law = mc_get_law [OF i g]
  show ?thesis
  proof (cases r)
    case (Ret b)
    with g law i show ?thesis by (cases b) (auto simp: memcached_get_def)
  qed (use g law i in \<open>auto simp: memcached_get_def\<close>)
qed

lemma set_keeps:
  assumes i: "ok s" and g: "good key o1"
  shows "\<exists>r s'. memcached_set M ttl (Some o1) s = (r, s') \<and> ok s' \<and> out s' = out s \<and> (\<forall>m. r \<noteq> Panic m)"
proof -
  obtain b where b: "serializeObj o1 = Ret b" by (simp add: serializeObj_def)
  obtain r s' where s: "mc_Set M (obj_Key o1) b ttl s = (r, s')" by fastforce
  have "\<And>o2. deserializeObj b = Ret o2 \<Longrightarrow> good (obj_Key o1) o2"
    using deserialize_serialize [OF b] good_law [OF g] g by auto
  from mc_set_law [OF i this s] s b i show ?thesis by (auto simp: memcached_set_def)
qed

lemma initialize_keeps:
  assumes i: "ok s"
    and f: "\<And>s1. ok s1 \<Longrightarrow> out s1 = out s \<Longrightarrow> keeps ok out (good key) (out s) (f s1)"
  shows "keeps ok out (good key) (out s) (memcached_initialize M ttl key (Some f) s)"
  using get_keeps [OF i, of key]
proof (cases rule: keeps_cases)
  case (2 e s1)
  with f [of s1] have "keeps ok out (good key) (out s) (f s1)" by simp
  then show ?thesis
  proof (cases rule: keeps_cases)
    case (1 o1 s2)
    from set_keeps [OF 1(2,4)] obtain r s3
      where "memcached_set M ttl (Some o1) s2 = (r, s3)" "ok s3" "out s3 = out s2" "\<forall>m. r \<noteq> Panic m"
      by blast
    with 1 2 show ?thesis by (cases r) (auto simp: memcached_initialize_def)
  qed (use 2 in \<open>auto simp: memcached_initialize_def\<close>)
qed (simp add: memcached_initialize_def)

lemma Get_keeps:
  assumes i: "ok s"
    and f: "\<And>s1. ok s1 \<Longrightarrow> out s1 = out s \<Longrightarrow> keeps ok out (good key) (out s) (f s1)"
  shows "keeps ok out (good key) (out s) (memcached_Get M ttl key (Some f) s)"
  using get_keeps [OF i, of key]
proof (cases rule: keeps_cases)
  case (2 e s1)
  then show ?thesis using initialize_keeps [of s1 key f] f by (simp add: memcached_Get_def)
qed (simp add: memcached_Get_def)

end

sublocale memcache_store \<subseteq> cache: object_cache "memcached_Get M ttl" ok out good
  by unfold_locales (rule Get_keeps)

section \<open>The test caches are caches\<close>

lemma dummy_keeps:
  fixes ok :: "'s \<Rightarrow> bool" and out :: "'s \<Rightarrow> 'l" and P :: "object \<Rightarrow> bool"
  defines "Ok \<equiv> \<lambda>s :: (string \<rightharpoonup> object) \<times> 's.
      (\<forall>k o1. fst s k = Some o1 \<longrightarrow> obj_Key o1 = k \<and> P o1) \<and> ok (snd s)"
    and "Out \<equiv> \<lambda>s :: (string \<rightharpoonup> object) \<times> 's. out (snd s)"
    and "Good \<equiv> \<lambda>k o1. obj_Key o1 = k \<and> P o1"
  assumes i: "Ok s" and f: "keeps Ok Out (Good key) (Out s) (f s)"
  shows "keeps Ok Out (Good key) (Out s) (dummy_Get key (Some f) s)"
proof (cases "dummy_get key s")
  case None
  from f show ?thesis
  proof (cases rule: keeps_cases)
    case (1 o1 s')
    then have "Ok ((fst s')(obj_Key o1 \<mapsto> o1), snd s')" by (auto simp: Ok_def Good_def)
    with 1 None show ?thesis
      by (auto simp: dummy_Get_def dummy_initialize_def dummy_Put_def Out_def)
  qed (use None in \<open>auto simp: dummy_Get_def dummy_initialize_def\<close>)
next
  case (Some o1)
  with i show ?thesis by (auto simp: dummy_Get_def dummy_get_def Ok_def Good_def)
qed

interpretation dummy: object_cache dummy_Get
  "\<lambda>s. (\<forall>k o1. fst s k = Some o1 \<longrightarrow> obj_Key o1 = k \<and> P o1) \<and> ok (snd s)"
  "\<lambda>s. out (snd s)" "\<lambda>k o1. obj_Key o1 = k \<and> P o1" for P ok out
  by unfold_locales (rule dummy_keeps, blast+)

lemma fake_Get_eq: "fake_Get key (Some f) s = f s"
  by (cases "f s"; cases "fst (f s)") (auto simp: fake_Get_def fake_initialize_def fake_get_def)

interpretation fake: object_cache fake_Get ok out good for ok out good
  by unfold_locales (simp add: fake_Get_eq)

end
