(* ===== verification/Proxy_Contract.thy ===== *)
theory Proxy_Contract
  imports Caching_Proxy
begin

text \<open>
  What the caching proxy promises, given the contracts of its network and its cache: every
  request that can be read is answered, with what the object store may answer to it, taken from
  the cache or passed on, or with status 503. And the timed proxy does what the plain one does.
\<close>

section \<open>The contract of the network\<close>

text \<open>
  \<open>answers a q res\<close>: the server at address \<open>a\<close> may answer \<open>res\<close> to the request \<open>q\<close>. A connection
  to a server goes through three states. What the client of the handled connection has been
  sent is \<open>out\<close>, a message whose write failed being cut off at some point.
\<close>

datatype channel =
    Fresh TCPAddr
  | Asked TCPAddr http_request
  | Answering TCPAddr http_request http_response

datatype sent = Sent message | Cut message

definition head_of :: "http_response \<Rightarrow> response_head" where
  "head_of res = response_head.truncate res"

definition written :: "unit go \<Rightarrow> message \<Rightarrow> sent" where
  "written r m = (if r = Ret () then Sent m else Cut m)"

locale http_net =
  fixes N :: "'s net" and ok :: "'s \<Rightarrow> bool" and out :: "'s \<Rightarrow> sent list"
    and chan :: "'s \<Rightarrow> nat \<Rightarrow> channel option"
    and answers :: "TCPAddr \<Rightarrow> http_request \<Rightarrow> http_response \<Rightarrow> bool"
  assumes request_law:
      "ok s \<Longrightarrow> http_ReadRequest N s = (rq, s') \<Longrightarrow> ok s' \<and> out s' = out s \<and> (\<forall>m. rq \<noteq> Panic m)"
    and dial_law:
      "ok s \<Longrightarrow> net_Dial N a s = (rc, s') \<Longrightarrow>
         ok s' \<and> out s' = out s \<and> (\<forall>m. rc \<noteq> Panic m) \<and> (\<forall>c. rc = Ret c \<longrightarrow> chan s' c = Some (Fresh a))"
    and send_law:
      "ok s \<Longrightarrow> chan s c = Some (Fresh a) \<Longrightarrow> req_Write N c q s = (r, s') \<Longrightarrow>
         ok s' \<and> out s' = out s \<and> (\<forall>m. r \<noteq> Panic m) \<and> chan s' c = Some (Asked a q)"
    and response_law:
      "ok s \<Longrightarrow> chan s c = Some (Asked a q) \<Longrightarrow> http_ReadResponse N c s = (rh, s') \<Longrightarrow>
         ok s' \<and> out s' = out s \<and> (\<forall>m. rh \<noteq> Panic m) \<and>
         (\<forall>h. rh = Ret h \<longrightarrow>
            (\<exists>res. answers a q res \<and> h = head_of res \<and> chan s' c = Some (Answering a q res)))"
    and body_law:
      "ok s \<Longrightarrow> chan s c = Some (Answering a q res) \<Longrightarrow> body_ReadAll N c s = (rb, s') \<Longrightarrow>
         ok s' \<and> out s' = out s \<and> (\<forall>m. rb \<noteq> Panic m) \<and> (\<forall>b. rb = Ret b \<longrightarrow> b = res_body res)"
    and relay_law:
      "ok s \<Longrightarrow> chan s c = Some (Answering a q res) \<Longrightarrow> relay_Write N c (head_of res) s = (r, s') \<Longrightarrow>
         ok s' \<and> (\<forall>m. r \<noteq> Panic m) \<and> out s' = out s @ [written r (Response res)]"
    and write_law:
      "ok s \<Longrightarrow> conn_Write N m s = (r, s') \<Longrightarrow>
         ok s' \<and> (\<forall>x. r \<noteq> Panic x) \<and> out s' = out s @ [written r m]"
    and close_law:
      "ok s \<Longrightarrow> ok (target_Close N c s) \<and> out (target_Close N c s) = out s"
    and client_close_law:
      "ok s \<Longrightarrow> ok (client_Close N s) \<and> out (client_Close N s) = out s"

section \<open>Honest answers\<close>

definition same_content :: "http_response \<Rightarrow> http_response \<Rightarrow> bool" where
  "same_content res res' \<longleftrightarrow>
     res_status res = res_status res' \<and> res_headers res = res_headers res' \<and> res_body res = res_body res'"

definition honest :: "(http_response \<Rightarrow> bool) \<Rightarrow> message \<Rightarrow> bool" where
  "honest may m \<longleftrightarrow>
     m = Line service_unavailable \<or> (\<exists>res res'. m = Response res \<and> may res' \<and> same_content res res')"

fun passed_on :: "(http_response \<Rightarrow> bool) \<Rightarrow> sent list \<Rightarrow> bool" where
  "passed_on may [Sent m] = honest may m"
| "passed_on may [Cut m] = honest may m"
| "passed_on may _ = False"

text \<open>
  An answer is one message, whole or cut off; or a cut-off message from the cache and, behind it
  on the same connection, what was forwarded after the failure.
\<close>

fun answered :: "(http_response \<Rightarrow> bool) \<Rightarrow> sent list \<Rightarrow> bool" where
  "answered may [m] = passed_on may [m]"
| "answered may [Cut m, m'] = (honest may m \<and> passed_on may [m'])"
| "answered may _ = False"

definition serves :: "('s \<Rightarrow> bool) \<Rightarrow> ('s \<Rightarrow> 'm list) \<Rightarrow> ('m list \<Rightarrow> bool) \<Rightarrow> 'm list \<Rightarrow> unit go \<times> 's \<Rightarrow> bool" where
  "serves ok out P l res \<longleftrightarrow>
     ok (snd res) \<and> fst res = Ret () \<and> (\<exists>ms. out (snd res) = l @ ms \<and> P ms)"

lemma same_content_refl [simp]: "same_content res res"
  by (simp add: same_content_def)

lemma honest_response: "may res \<Longrightarrow> honest may (Response res)"
  by (auto simp: honest_def)

lemma honest_unavailable [simp]: "honest may (Line service_unavailable)"
  by (simp add: honest_def)

lemma passed_on_written [simp]: "passed_on may [written r m] \<longleftrightarrow> honest may m"
  by (simp add: written_def)

lemma passed_on_answered: "passed_on may ms \<Longrightarrow> answered may ms"
  by (cases "(may, ms)" rule: passed_on.cases) simp_all

lemma passed_on_single: "passed_on may ms \<Longrightarrow> \<exists>m. ms = [m]"
  by (cases "(may, ms)" rule: passed_on.cases) simp_all

lemma answered_after_cut: "honest may m \<Longrightarrow> passed_on may ms \<Longrightarrow> answered may (Cut m # ms)"
  using passed_on_single [of may ms] by auto

section \<open>Forwarding and retrieving\<close>

context http_net begin

lemma reply_serves:
  assumes "ok s" and "out s = l" and "honest may m"
  shows "serves ok out (passed_on may) l (ignoring (conn_Write N m s) (\<lambda>s'. (Ret (), s')))"
proof -
  obtain r s' where w: "conn_Write N m s = (r, s')" by fastforce
  with write_law [OF assms(1) w] assms(2,3) show ?thesis
    by (cases r) (auto simp: ignoring_def serves_def)
qed

lemma relay_serves:
  assumes "ok s" and "out s = l" and "chan s c = Some (Answering a q res)" and "may res"
  shows "serves ok out (passed_on may) l (ignoring (relay_Write N c (head_of res) s) (\<lambda>s'. (Ret (), s')))"
proof -
  obtain r s' where w: "relay_Write N c (head_of res) s = (r, s')" by fastforce
  with relay_law [OF assms(1,3) w] assms(2,4) show ?thesis
    by (cases r) (auto simp: ignoring_def serves_def honest_response)
qed

lemma close_serves:
  "serves ok out P l res \<Longrightarrow> serves ok out P l (case res of (r, s) \<Rightarrow> (r, target_Close N c s))"
  using close_law by (auto simp: serves_def split: prod.split)

lemma response_serves:
  assumes "ok s" and "out s = l" and "chan s c = Some (Asked a q)"
  shows "serves ok out (passed_on (answers a q)) l
    (on_go (http_ReadResponse N c s)
       (\<lambda>res s3. ignoring (relay_Write N c res s3) (\<lambda>s4. (Ret (), s4)))
       (\<lambda>_ s3. ignoring (conn_Write N (Line service_unavailable) s3) (\<lambda>s4. (Ret (), s4))))"
proof -
  obtain r s' where w: "http_ReadResponse N c s = (r, s')" by fastforce
  note law = response_law [OF assms(1,3) w]
  show ?thesis
  proof (cases r)
    case (Ret h)
    then obtain res where "answers a q res" "h = head_of res" "chan s' c = Some (Answering a q res)"
      using law by blast
    with law w Ret assms(2) relay_serves [of s' l c a q res] show ?thesis by simp
  qed (use w law assms(2) reply_serves in auto)
qed

lemma forward_serves:
  assumes "ok s"
  shows "serves ok out (passed_on (answers a q)) (out s) (forward N (Some a) q s)"
proof -
  obtain r s1 where d: "net_Dial N a s = (r, s1)" by fastforce
  note law = dial_law [OF assms d]
  show ?thesis
  proof (cases r)
    case (Ret c)
    obtain r2 s2 where w: "req_Write N c q s1 = (r2, s2)" by fastforce
    from law Ret have "chan s1 c = Some (Fresh a)" "ok s1" by auto
    from send_law [OF this(2,1) w] response_serves [of s2 "out s" c a q] law d w Ret
    show ?thesis
      by (cases r2) (auto simp: forward_def dial_target_def ignoring_def intro!: close_serves)
  qed (use law d reply_serves in \<open>auto simp: forward_def dial_target_def\<close>)
qed

lemma close_keeps:
  "keeps ok out P l res \<Longrightarrow> keeps ok out P l (case res of (r, s) \<Rightarrow> (r, target_Close N c s))"
  using close_law by (auto simp: keeps_def split: prod.split)

lemma fetch_keeps:
  assumes i: "ok s"
    and P: "\<And>res. answers a q res \<Longrightarrow> res_status res = StatusOK \<Longrightarrow>
      P \<lparr>obj_Key = key, obj_Data = Some (res_body res), obj_Headers = res_headers res\<rparr>"
  shows "keeps ok out P (out s) (fetchObject N q (Some a) key s)"
proof -
  obtain r s1 where d: "net_Dial N a s = (r, s1)" by fastforce
  note dial = dial_law [OF i d]
  show ?thesis
  proof (cases r)
    case (Ret c)
    obtain r2 s2 where w: "req_Write N c q s1 = (r2, s2)" by fastforce
    from dial Ret have c: "chan s1 c = Some (Fresh a)" "ok s1" by auto
    note send = send_law [OF c(2,1) w]
    obtain r3 s3 where h: "http_ReadResponse N c s2 = (r3, s3)" by fastforce
    note resp = response_law [OF _ _ h, of a q]
    have "keeps ok out P (out s)
      (on_go (http_ReadResponse N c s2)
        (\<lambda>res s3. if res_status res \<noteq> StatusOK
          then on_go (body_ReadAll N c s3)
            (\<lambda>body s4. (Err (Status_error (res_status res) body), s4))
            (\<lambda>_ s4. (Err (Go_error ''could not read non-OK response body''), s4))
          else on_go (body_ReadAll N c s3)
            (\<lambda>data s4. (Ret (Some \<lparr>obj_Key = key, obj_Data = Some data,
                                    obj_Headers = res_headers res\<rparr>), s4))
            (\<lambda>err s4. (Err err, s4)))
        (\<lambda>err s3. (Err (Wrapped ''failed to read response from target'' err), s3)))"
    proof (cases r3)
      case Ret3: (Ret hd)
      then obtain res where res: "answers a q res" "hd = head_of res"
          "chan s3 c = Some (Answering a q res)" "ok s3" "out s3 = out s"
        using resp send dial by auto
      obtain r4 s4 where b: "body_ReadAll N c s3 = (r4, s4)" by fastforce
      from body_law [OF res(4,3) b] res b h Ret3 P [OF res(1)] show ?thesis
        by (cases r4) (auto simp: head_of_def response_head.truncate_def)
    qed (use h resp send dial in auto)
    with send dial d w Ret show ?thesis
      by (cases r2) (auto simp: fetchObject_def dial_target_def close_law intro!: close_keeps)
  qed (use dial d in \<open>auto simp: fetchObject_def dial_target_def\<close>)
qed

lemma retrieve_keeps:
  assumes "ok s"
    and "\<And>res. answers a q res \<Longrightarrow> res_status res = StatusOK \<Longrightarrow>
      P \<lparr>obj_Key = key, obj_Data = Some (res_body res), obj_Headers = res_headers res\<rparr>"
  shows "keeps ok out P (out s) (retrieveObjectFromRemote N q (Some a) key s)"
  using fetch_keeps [of s a q P key, OF assms]
  by (cases rule: keeps_cases) (auto simp: retrieveObjectFromRemote_def)

end

section \<open>Which adapter\<close>

lemma shouldIntercept_from_cases:
  "shouldIntercept_from i as req = (True, j) \<longleftrightarrow>
     (\<exists>n < length as. j = int (i + n) \<and> ShouldIntercept (as ! n) req \<and>
        (\<forall>k < n. \<not> ShouldIntercept (as ! k) req))"
proof (induction as arbitrary: i)
  case (Cons a as)
  show ?case
  proof (cases "ShouldIntercept a req")
    case True
    then show ?thesis by (auto intro!: exI [of _ 0]) (metis not_gr_zero nth_Cons_0)+
  next
    case False
    then have "shouldIntercept_from i (a # as) req = (True, j) \<longleftrightarrow>
        (\<exists>n < length as. j = int (Suc i + n) \<and> ShouldIntercept (as ! n) req \<and>
           (\<forall>k < n. \<not> ShouldIntercept (as ! k) req))"
      using Cons.IH [of "Suc i"] by simp
    also have "\<dots> \<longleftrightarrow> (\<exists>n < length (a # as). j = int (i + n) \<and> ShouldIntercept ((a # as) ! n) req \<and>
           (\<forall>k < n. \<not> ShouldIntercept ((a # as) ! k) req))"
      using False by (auto simp: Ex_less_Suc2 All_less_Suc2)
    finally show ?thesis .
  qed
qed simp

lemma shouldIntercept_first:
  "shouldIntercept as req = (True, j) \<longleftrightarrow>
     (\<exists>n < length as. j = int n \<and> ShouldIntercept (as ! n) req \<and>
        (\<forall>k < n. \<not> ShouldIntercept (as ! k) req))"
  by (simp add: shouldIntercept_def shouldIntercept_from_cases)

section \<open>The caching proxy is transparent\<close>

text \<open>
  The laws that join the parts: the object made from a server's positive answer is good for its
  key, and from an object that is good for a key an adapter makes what any server may answer to
  any request with that key. The second is what the choice of the key has to ensure.
\<close>

locale caching_proxy =
  object_cache Get ok out good + http_net N ok out chan answers
  for Get :: "string \<Rightarrow> 's initializer option \<Rightarrow> 's \<Rightarrow> object option go \<times> 's"
    and N :: "'s net" and ok :: "'s \<Rightarrow> bool" and out :: "'s \<Rightarrow> sent list"
    and chan :: "'s \<Rightarrow> nat \<Rightarrow> channel option"
    and answers :: "TCPAddr \<Rightarrow> http_request \<Rightarrow> http_response \<Rightarrow> bool"
    and good :: "string \<Rightarrow> object \<Rightarrow> bool" +
  fixes adapters :: "adapter list"
  assumes good_retrieved:
      "ad \<in> set adapters \<Longrightarrow> ShouldIntercept ad q \<Longrightarrow> answers a q res \<Longrightarrow> res_status res = StatusOK \<Longrightarrow>
         good (ExtractObjectKey ad q)
           \<lparr>obj_Key = ExtractObjectKey ad q, obj_Data = Some (res_body res), obj_Headers = res_headers res\<rparr>"
    and good_served:
      "ad \<in> set adapters \<Longrightarrow> ShouldIntercept ad q \<Longrightarrow> good (ExtractObjectKey ad q) obj \<Longrightarrow>
         \<exists>res res'. CreateLocalResponse ad (Some obj) = Ret res \<and> answers a q res' \<and> same_content res res'"
begin

lemma local_serves:
  assumes i: "ok s" and l: "out s = l" and h: "honest (answers a q) m"
  shows "serves ok out (answered (answers a q)) l
    (on_go (conn_Write N m s) (\<lambda>_ s4. (Ret (), s4)) (\<lambda>_ s4. forward N (Some a) q s4))"
proof -
  obtain r s' where w: "conn_Write N m s = (r, s')" by fastforce
  note law = write_law [OF i w]
  show ?thesis
  proof (cases r)
    case (Ret u)
    with w law l h show ?thesis by (simp add: serves_def written_def)
  next
    case (Err e)
    with law l have "ok s'" "out s' = l @ [Cut m]" by (simp_all add: written_def)
    then obtain ms where "ok (snd (forward N (Some a) q s'))" "fst (forward N (Some a) q s') = Ret ()"
        "out (snd (forward N (Some a) q s')) = l @ Cut m # ms" "passed_on (answers a q) ms"
      using forward_serves [of s' a q] by (auto simp: serves_def)
    with w Err answered_after_cut [OF h] show ?thesis by (auto simp: serves_def)
  qed (use law in simp)
qed

lemma serves_answered:
  "serves ok out (passed_on may) l res \<Longrightarrow> serves ok out (answered may) l res"
  using passed_on_answered by (fastforce simp: serves_def)

lemma handleRequest_serves:
  assumes i: "ok s"
  shows "serves ok out (answered (answers a q)) (out s) (handleRequest N Get adapters (Some a) q s)"
proof (cases "fst (shouldIntercept adapters q)")
  case False
  then obtain j where "shouldIntercept adapters q = (False, j)" by (cases "shouldIntercept adapters q") simp
  then show ?thesis
    using serves_answered [OF forward_serves [OF i, of a q]] by (simp add: handleRequest_def)
next
  case True
  then obtain j where "shouldIntercept adapters q = (True, j)" by (metis prod.collapse)
  then obtain n where n: "shouldIntercept adapters q = (True, int n)"
      "n < length adapters" "ShouldIntercept (adapters ! n) q"
    unfolding shouldIntercept_first by blast
  let ?ad = "adapters ! n"
  have ad: "?ad \<in> set adapters" using n(2) by simp
  let ?f = "\<lambda>s. retrieveObjectFromRemote N q (Some a) (ExtractObjectKey ?ad q) s"
  have "keeps ok out (good (ExtractObjectKey ?ad q)) (out s) (Get (ExtractObjectKey ?ad q) (Some ?f) s)"
    using retrieve_keeps good_retrieved [OF ad n(3)] by (intro get_law [OF i]) metis
  then show ?thesis
  proof (cases rule: keeps_cases)
    case (1 obj s2)
    from good_served [OF ad n(3) 1(4)] obtain res res' where
      "CreateLocalResponse ?ad (Some obj) = Ret res" "answers a q res'" "same_content res res'" by blast
    moreover from this have "honest (answers a q) (Response res)" by (auto simp: honest_def)
    ultimately show ?thesis
      using 1 local_serves [OF 1(2,3)] n(1) by (simp add: handleRequest_def Let_def)
  next
    case (2 e s2)
    then show ?thesis
      using serves_answered [OF forward_serves [OF 2(2), of a q]] n(1)
      by (simp add: handleRequest_def Let_def)
  qed
qed

lemma handler_transparent:
  assumes i: "ok s" and r: "http_ReadRequest N s = (rq, s1)"
  shows "serves ok out (\<lambda>ms. case rq of Ret q \<Rightarrow> answered (answers a q) ms | _ \<Rightarrow> ms = [])
    (out s) (handleHttpInternal N Get adapters (Some a) s)"
proof -
  note law = request_law [OF i r]
  show ?thesis
  proof (cases rq)
    case (Ret q)
    from law handleRequest_serves [of s1 a q] have
      "serves ok out (answered (answers a q)) (out s) (handleRequest N Get adapters (Some a) q s1)" by simp
    with r Ret client_close_law show ?thesis
      by (auto simp: handleHttpInternal_def serves_def split: prod.split)
  qed (use law r client_close_law in \<open>auto simp: handleHttpInternal_def serves_def\<close>)
qed

end

section \<open>The timed proxy\<close>

text \<open>
  \<open>untimed\<close> forgets the measurements. The timed cache's contract: run with an initializer that
  does what another one does, it does what the cache does with that one.
\<close>

definition untimed :: "'a go \<times> 's \<times> 't \<Rightarrow> 'a go \<times> 's" where
  "untimed r = (fst r, fst (snd r))"

lemma untimed_simps [simp]: "untimed (r, (s, st)) = (r, s)" "untimed (with_stats st x) = x"
  by (simp_all add: untimed_def with_stats_def)

lemma untimed_ignoring [simp]:
  "untimed (ignoring (r, (s, st)) f) = ignoring (r, s) (\<lambda>s. untimed (f (s, st)))"
  by (cases r) (simp_all add: ignoring_def)

lemma ignoring_simps [simp]:
  "ignoring (Ret a, s) f = f s"
  "ignoring (Err e, s) f = f s"
  "ignoring (Panic m, s) f = (Panic m, s)"
  by (simp_all add: ignoring_def)

lemma with_stats_pair [simp]: "with_stats st (r, s) = (r, (s, st))"
  by (simp add: with_stats_def)

lemma untimed_close:
  "untimed (case x of (r, (s, st)) \<Rightarrow> (r, (f s, st))) = (case untimed x of (r, s) \<Rightarrow> (r, f s))"
  by (simp add: untimed_def split: prod.split)

lemma untimed_reply:
  "untimed (ignoring (with_stats st (conn_Write N m s)) (\<lambda>(s', st'). (Ret (), (s', g s' st')))) =
     ignoring (conn_Write N m s) (\<lambda>s'. (Ret (), s'))"
  by (cases "conn_Write N m s") simp

lemma untimed_relay:
  "untimed (ignoring (with_stats st (relay_Write N c h s)) (\<lambda>(s', st'). (Ret (), (s', g s' st')))) =
     ignoring (relay_Write N c h s) (\<lambda>s'. (Ret (), s'))"
  by (cases "relay_Write N c h s") simp

lemma untimed_forward:
  "untimed (forwardTimed since N targetAddr req (s, st)) = forward N targetAddr req s"
proof -
  obtain r1 s1 where d: "dial_target N targetAddr s = (r1, s1)" by fastforce
  show ?thesis
  proof (cases r1)
    case (Ret c)
    obtain r2 s2 where w: "req_Write N c req s1 = (r2, s2)" by fastforce
    obtain r3 s3 where h: "http_ReadResponse N c s2 = (r3, s3)" by fastforce
    show ?thesis
      unfolding forwardTimed_def forward_def
      by (cases r2; cases r3; simp add: d Ret w h untimed_close untimed_reply untimed_relay)
  qed (simp_all add: forwardTimed_def forward_def d untimed_reply)
qed

lemma untimed_retrieve:
  "untimed (retrieveObjectFromRemoteTimed since N req targetAddr key (s, st)) =
    fetchObject N req targetAddr key s"
proof -
  obtain r1 s1 where d: "dial_target N targetAddr s = (r1, s1)" by fastforce
  show ?thesis
  proof (cases r1)
    case (Ret c)
    obtain r2 s2 where w: "req_Write N c req s1 = (r2, s2)" by fastforce
    obtain r3 s3 where h: "http_ReadResponse N c s2 = (r3, s3)" by fastforce
    obtain r4 s4 where b: "body_ReadAll N c s3 = (r4, s4)" by fastforce
    show ?thesis
      unfolding retrieveObjectFromRemoteTimed_def fetchObject_def
      by (cases r2; cases r3; cases r4; simp add: d Ret w h b)
  qed (simp_all add: retrieveObjectFromRemoteTimed_def fetchObject_def d)
qed

text \<open>Results that differ at most in the error they carry.\<close>

fun same_go :: "'a go \<Rightarrow> 'a go \<Rightarrow> bool" where
  "same_go (Ret a) (Ret b) = (a = b)"
| "same_go (Err e) (Err e') = True"
| "same_go (Panic m) (Panic m') = (m = m')"
| "same_go _ _ = False"

definition same_result :: "'a go \<times> 's \<Rightarrow> 'a go \<times> 's \<Rightarrow> bool" where
  "same_result x y \<longleftrightarrow> same_go (fst x) (fst y) \<and> snd x = snd y"

lemma same_go_refl [simp]: "same_go r r"
  by (cases r) simp_all

lemma same_result_refl [simp]: "same_result x x"
  by (simp add: same_result_def)

lemma same_result_cases:
  assumes "same_result x y"
  obtains a s where "x = (Ret a, s)" "y = (Ret a, s)"
  | e e' s where "x = (Err e, s)" "y = (Err e', s)"
  | m s where "x = (Panic m, s)" "y = (Panic m, s)"
  using assms by (cases x; cases y; cases "fst x"; cases "fst y") (auto simp: same_result_def intro: that)

lemma same_result_on_go:
  assumes "same_result x y" and "\<And>a s. same_result (f a s) (f' a s)"
    and "\<And>e e' s. same_result (g e s) (g' e' s)"
  shows "same_result (on_go x f g) (on_go y f' g')"
  using assms(1) by (cases rule: same_result_cases) (use assms(2,3) in simp_all)

lemma same_result_Err [simp]: "same_result (Err e, s) (Err e', s)"
  by (simp add: same_result_def)

lemma same_retrieve:
  "same_result (untimed (retrieveObjectFromRemoteTimed since N req targetAddr key (s, st)))
     (retrieveObjectFromRemote N req targetAddr key s)"
  by (cases "fetchObject N req targetAddr key s"; cases "fst (fetchObject N req targetAddr key s)")
    (auto simp: untimed_retrieve retrieveObjectFromRemote_def)

locale timed_cache =
  fixes Get :: "string \<Rightarrow> 's initializer option \<Rightarrow> 's \<Rightarrow> object option go \<times> 's"
    and GetTimed :: "string \<Rightarrow> ('s \<times> ProxyStatsEntry) initializer option \<Rightarrow> 's \<times> ProxyStatsEntry \<Rightarrow>
      (object option go \<times> int \<times> int) \<times> 's \<times> ProxyStatsEntry"
  assumes get_timed_law:
    "(\<And>s st. same_result (untimed (f' (s, st))) (f s)) \<Longrightarrow>
       GetTimed key (Some f') (s, st) = ((r, t1, t2), p) \<Longrightarrow>
       same_result (untimed (r, p)) (Get key (Some f) s)"

text \<open>The bigcache wrapper over a state that also holds the measurements.\<close>

definition lift_bigcache :: "'s bigcache \<Rightarrow> ('s \<times> 't) bigcache" where
  "lift_bigcache B =
     \<lparr>bc_Get = (\<lambda>key (s, st). with_stats st (bc_Get B key s)),
      bc_Set = (\<lambda>key data (s, st). with_stats st (bc_Set B key data s)),
      bc_start_put = (\<lambda>obj (s, st). (bc_start_put B obj s, st))\<rparr>"

lemma lift_bigcache_get:
  "bigcache_get (lift_bigcache B) key (s, st) = with_stats st (bigcache_get B key s)"
proof -
  obtain r s1 where g: "bc_Get B key s = (r, s1)" by fastforce
  show ?thesis
  proof (cases r)
    case (Ret b)
    with g show ?thesis by (cases b) (simp_all add: bigcache_get_def lift_bigcache_def)
  qed (simp_all add: bigcache_get_def lift_bigcache_def g)
qed

lemma lift_bigcache_put:
  "bc_start_put (lift_bigcache B) obj (s, st) = (bc_start_put B obj s, st)"
  by (simp add: lift_bigcache_def)

lemma lift_bigcache_initialize:
  assumes f: "\<And>s st. same_result (untimed (f' (s, st))) (f s)"
  shows "same_result (untimed (bigcache_initialize (lift_bigcache B) key (Some f') (s, st)))
    (bigcache_initialize B key (Some f) s)"
proof -
  obtain r s1 where g: "bigcache_get B key s = (r, s1)" by fastforce
  show ?thesis
  proof (cases r)
    case (Err e)
    obtain r2 s2 st2 where f': "f' (s1, st) = (r2, (s2, st2))" by (cases "f' (s1, st)") auto
    with f [of s1 st] have "same_result (r2, s2) (f s1)" by simp
    then show ?thesis
      by (cases rule: same_result_cases)
        (simp_all add: bigcache_initialize_def lift_bigcache_get g Err f' lift_bigcache_put)
  qed (simp_all add: bigcache_initialize_def lift_bigcache_get g)
qed

interpretation bigcache_timed: timed_cache "bigcache_Get B" "bigcache_GetTimed since (lift_bigcache B)"
  for B :: "'s bigcache" and since :: "'s \<times> ProxyStatsEntry \<Rightarrow> 's \<times> ProxyStatsEntry \<Rightarrow> int"
proof
  fix f' :: "('s \<times> ProxyStatsEntry) initializer" and f :: "'s initializer" and key s st r t1 t2 p
  assume f: "\<And>s st. same_result (untimed (f' (s, st))) (f s)"
    and t: "bigcache_GetTimed since (lift_bigcache B) key (Some f') (s, st) = ((r, t1, t2), p)"
  obtain x s1 where g: "bigcache_get B key s = (x, s1)" by fastforce
  show "same_result (untimed (r, p)) (bigcache_Get B key (Some f) s)"
  proof (cases x)
    case (Err e)
    then have "bigcache_initialize (lift_bigcache B) key (Some f') (s1, st) = (r, p)"
      using t by (simp add: bigcache_GetTimed_def lift_bigcache_get g split: prod.splits)
    with lift_bigcache_initialize [of f' f B key s1 st, OF f] Err g show ?thesis
      by (simp add: bigcache_Get_def)
  qed (use t in \<open>auto simp: bigcache_GetTimed_def lift_bigcache_get g bigcache_Get_def\<close>)
qed

context timed_cache begin

lemma timed_local:
  "same_result
     (untimed (case conn_Write N m s3 of (w, s4) \<Rightarrow>
        on_go (w, (s4, g s4)) (\<lambda>_ s4. (Ret (), s4))
          (\<lambda>_ (s4, st). forwardTimed since N targetAddr req (s4, h st))))
     (on_go (conn_Write N m s3) (\<lambda>_ s4. (Ret (), s4)) (\<lambda>_ s4. forward N targetAddr req s4))"
proof -
  obtain w s4 where "conn_Write N m s3 = (w, s4)" by fastforce
  then show ?thesis by (cases w) (simp_all add: untimed_forward)
qed

lemma timed_request:
  "same_result (untimed (handleRequestTimed since N GetTimed adapters targetAddr req (s, st)))
     (handleRequest N Get adapters targetAddr req s)"
proof -
  obtain b j where a: "shouldIntercept adapters req = (b, j)" by fastforce
  show ?thesis
  proof (cases b)
    case True
    let ?ad = "adapters ! nat j"
    let ?key = "ExtractObjectKey ?ad req"
    let ?f' = "\<lambda>s. retrieveObjectFromRemoteTimed since N req targetAddr ?key s"
    let ?f = "\<lambda>s. retrieveObjectFromRemote N req targetAddr ?key s"
    obtain r t1 t2 s2 st2 where g: "GetTimed ?key (Some ?f') (s, st\<lparr>ObjectKey := ?key\<rparr>) = ((r, t1, t2), (s2, st2))"
      by (metis prod.exhaust)
    from get_timed_law [OF _ g, of ?f] have "same_result (r, s2) (Get ?key (Some ?f) s)"
      by (simp add: same_retrieve)
    then show ?thesis
    proof (cases rule: same_result_cases)
      case (1 obj s')
      then show ?thesis
        by (cases "CreateLocalResponse ?ad obj")
          (simp_all add: handleRequestTimed_def handleRequest_def a True g Let_def untimed_forward timed_local)
    qed (simp_all add: handleRequestTimed_def handleRequest_def a True g Let_def untimed_forward)
  qed (simp add: handleRequestTimed_def handleRequest_def a untimed_forward)
qed

lemma timed_handler:
  assumes "http_ReadRequest N s = (Ret req, s1)"
  shows "same_result (untimed (handleHttpTimed since N eof GetTimed adapters targetAddr s))
    (handleHttpInternal N Get adapters targetAddr s)"
  using timed_request [of since N adapters targetAddr req s1 "no_stats\<lparr>ReadRequest := since s s1\<rparr>"]
  by (cases "handleRequestTimed since N GetTimed adapters targetAddr req (s1, no_stats\<lparr>ReadRequest := since s s1\<rparr>)";
      cases "handleRequest N Get adapters targetAddr req s1")
    (auto simp: handleHttpTimed_def handleHttpInternal_def assms same_result_def untimed_def)

end

end
