(* ===== verification/Object_World.thy ===== *)
theory Object_World
  imports Proxy_Contract
begin

text \<open>
  The contracts of \<open>Proxy_Contract\<close> discharged: a network of object stores that answer by a
  function \<open>origin\<close>, with any pattern of failures, and a bigcache that holds what fits. On it the
  caching proxy with the MinIO adapter serves sequences of clients, while puts that the cache
  started run later or entries are evicted.
\<close>

section \<open>A network and a store\<close>

text \<open>
  \<open>w_faults\<close> says of each coming network operation whether it fails; when the list is used up
  none does. \<open>w_out\<close> is what the current client was sent, \<open>w_pending\<close> the puts that were started.
\<close>

record world =
  w_entries :: "string \<rightharpoonup> gob"
  w_pending :: "object option list"
  w_inbox :: "http_request option"
  w_out :: "sent list"
  w_chan :: "nat \<rightharpoonup> channel"
  w_next :: nat
  w_faults :: "bool list"

definition no_fault :: "world \<Rightarrow> bool" where
  "no_fault w \<longleftrightarrow> (case w_faults w of [] \<Rightarrow> True | b # bs \<Rightarrow> \<not> b)"

definition tick :: "world \<Rightarrow> world" where
  "tick w = w\<lparr>w_faults := tl (w_faults w)\<rparr>"

definition unless_fault :: "'a go \<Rightarrow> world \<Rightarrow> 'a go" where
  "unless_fault r w = (if no_fault w then r else Err (Go_error ''i/o failure''))"

definition set_chan :: "nat \<Rightarrow> channel \<Rightarrow> world \<Rightarrow> world" where
  "set_chan c x w = w\<lparr>w_chan := (w_chan w)(c \<mapsto> x)\<rparr>"

definition say :: "unit go \<Rightarrow> message \<Rightarrow> world \<Rightarrow> world" where
  "say r m w = w\<lparr>w_out := w_out w @ [written r m]\<rparr>"

definition world_Dial :: "TCPAddr \<Rightarrow> world \<Rightarrow> nat go \<times> world" where
  "world_Dial a w =
     (unless_fault (Ret (w_next w)) w, tick (set_chan (w_next w) (Fresh a) (w\<lparr>w_next := w_next w + 1\<rparr>)))"

definition world_Request :: "nat \<Rightarrow> http_request \<Rightarrow> world \<Rightarrow> unit go \<times> world" where
  "world_Request c q w =
     (case w_chan w c of
        Some (Fresh a) \<Rightarrow> (unless_fault (Ret ()) w, tick (set_chan c (Asked a q) w))
      | _ \<Rightarrow> (Err (Go_error ''bad connection''), w))"

definition world_Response ::
  "(TCPAddr \<Rightarrow> http_request \<Rightarrow> http_response) \<Rightarrow> nat \<Rightarrow> world \<Rightarrow> response_head go \<times> world" where
  "world_Response origin c w =
     (case w_chan w c of
        Some (Asked a q) \<Rightarrow>
          (unless_fault (Ret (head_of (origin a q))) w, tick (set_chan c (Answering a q (origin a q)) w))
      | _ \<Rightarrow> (Err (Go_error ''bad connection''), w))"

definition world_Body :: "nat \<Rightarrow> world \<Rightarrow> u8 list go \<times> world" where
  "world_Body c w =
     (case w_chan w c of
        Some (Answering a q res) \<Rightarrow> (unless_fault (Ret (res_body res)) w, tick w)
      | _ \<Rightarrow> (Err (Go_error ''bad connection''), w))"

definition world_Relay :: "nat \<Rightarrow> response_head \<Rightarrow> world \<Rightarrow> unit go \<times> world" where
  "world_Relay c h w =
     (case w_chan w c of
        Some (Answering a q res) \<Rightarrow>
          (unless_fault (Ret ()) w, tick (say (unless_fault (Ret ()) w) (Response res) w))
      | _ \<Rightarrow> (Err (Go_error ''bad connection''), w))"

definition world_net :: "(TCPAddr \<Rightarrow> http_request \<Rightarrow> http_response) \<Rightarrow> world net" where
  "world_net origin =
     \<lparr>http_ReadRequest =
        (\<lambda>w. (case w_inbox w of Some q \<Rightarrow> Ret q | None \<Rightarrow> Err (Go_error ''malformed HTTP request''), w)),
      net_Dial = world_Dial,
      req_Write = world_Request,
      http_ReadResponse = world_Response origin,
      body_ReadAll = world_Body,
      relay_Write = world_Relay,
      conn_Write = (\<lambda>m w. (unless_fault (Ret ()) w, tick (say (unless_fault (Ret ()) w) m w))),
      target_Close = (\<lambda>c w. w\<lparr>w_chan := (w_chan w)(c := None)\<rparr>),
      client_Close = (\<lambda>w. w)\<rparr>"

definition world_bigcache :: "(string \<Rightarrow> gob \<Rightarrow> bool) \<Rightarrow> world bigcache" where
  "world_bigcache fits =
     \<lparr>bc_Get = (\<lambda>key w.
        (case w_entries w key of Some b \<Rightarrow> Ret b | None \<Rightarrow> Err (Go_error ''Entry not found''), w)),
      bc_Set = (\<lambda>key data w.
        if fits key data then (Ret (), w\<lparr>w_entries := (w_entries w)(key \<mapsto> data)\<rparr>)
        else (Err (Go_error ''entry is bigger than max shard size''), w)),
      bc_start_put = (\<lambda>obj w. w\<lparr>w_pending := w_pending w @ [obj]\<rparr>)\<rparr>"

section \<open>Serving clients\<close>

text \<open>
  The proxy as \<^verbatim>\<open>run\<close> builds it: the MinIO adapter and the bigcache wrapper. A client is an
  address, a request (none if it cannot be parsed) and the failures on its way.
\<close>

definition world_handle ::
  "string \<Rightarrow> (TCPAddr \<Rightarrow> http_request \<Rightarrow> http_response) \<Rightarrow> (string \<Rightarrow> gob \<Rightarrow> bool) \<Rightarrow>
     TCPAddr \<Rightarrow> world \<Rightarrow> unit go \<times> world" where
  "world_handle host origin fits a w =
     handleHttpInternal (world_net origin) (bigcache_Get (world_bigcache fits)) [NewMinIOAdapter host] (Some a) w"

datatype client_event =
    Client TCPAddr "http_request option" "bool list"
  | Run_put
  | Evict string

definition arrive :: "http_request option \<Rightarrow> bool list \<Rightarrow> world \<Rightarrow> world" where
  "arrive rq faults w = w\<lparr>w_inbox := rq, w_faults := faults, w_out := []\<rparr>"

definition run_put :: "(string \<Rightarrow> gob \<Rightarrow> bool) \<Rightarrow> world \<Rightarrow> world" where
  "run_put fits w =
     (case w_pending w of
        [] \<Rightarrow> w
      | obj # rest \<Rightarrow> snd (bigcache_put (world_bigcache fits) obj (w\<lparr>w_pending := rest\<rparr>)))"

fun serve ::
  "string \<Rightarrow> (TCPAddr \<Rightarrow> http_request \<Rightarrow> http_response) \<Rightarrow> (string \<Rightarrow> gob \<Rightarrow> bool) \<Rightarrow>
     client_event list \<Rightarrow> world \<Rightarrow> (TCPAddr \<times> http_request option \<times> unit go \<times> sent list) list" where
  "serve host origin fits [] w = []"
| "serve host origin fits (Client a rq faults # evs) w =
     (case world_handle host origin fits a (arrive rq faults w) of
        (r, w') \<Rightarrow> (a, rq, r, w_out w') # serve host origin fits evs w')"
| "serve host origin fits (Run_put # evs) w = serve host origin fits evs (run_put fits w)"
| "serve host origin fits (Evict key # evs) w =
     serve host origin fits evs (w\<lparr>w_entries := (w_entries w)(key := None)\<rparr>)"

definition empty_world :: world where
  "empty_world = \<lparr>w_entries = Map.empty, w_pending = [], w_inbox = None, w_out = [],
     w_chan = Map.empty, w_next = 0, w_faults = []\<rparr>"

section \<open>The contracts hold\<close>

text \<open>
  The assumption that makes caching sound: all requests with one key have the same positive
  answer, wherever they are sent, and it is not empty.
\<close>

definition key_determines :: "string \<Rightarrow> (TCPAddr \<Rightarrow> http_request \<Rightarrow> http_response) \<Rightarrow> bool" where
  "key_determines host origin \<longleftrightarrow>
     (\<forall>a a' q q'. minio_ShouldIntercept host q \<and> minio_ShouldIntercept host q' \<and>
        minio_ExtractObjectKey q = minio_ExtractObjectKey q' \<and> res_status (origin a q) = StatusOK \<longrightarrow>
        res_body (origin a q) \<noteq> [] \<and> same_content (origin a q) (origin a' q'))"

definition world_good ::
  "string \<Rightarrow> (TCPAddr \<Rightarrow> http_request \<Rightarrow> http_response) \<Rightarrow> string \<Rightarrow> object \<Rightarrow> bool" where
  "world_good host origin key obj \<longleftrightarrow>
     obj_Key obj = key \<and> (\<exists>d. obj_Data obj = Some d \<and> d \<noteq> [] \<and>
       (\<forall>a q. minio_ShouldIntercept host q \<and> minio_ExtractObjectKey q = key \<longrightarrow>
          same_content (origin a q)
            \<lparr>res_status = StatusOK, res_length = 0, res_headers = obj_Headers obj, res_body = d\<rparr>))"

definition world_ok :: "string \<Rightarrow> (TCPAddr \<Rightarrow> http_request \<Rightarrow> http_response) \<Rightarrow> world \<Rightarrow> bool" where
  "world_ok host origin w \<longleftrightarrow>
     (\<forall>key b obj. w_entries w key = Some b \<longrightarrow> deserializeObj b = Ret obj \<longrightarrow> world_good host origin key obj) \<and>
     (\<forall>p \<in> set (w_pending w). \<exists>obj. p = Some obj \<and> world_good host origin (obj_Key obj) obj)"

lemma tick_simps [simp]:
  "w_entries (tick w) = w_entries w" "w_pending (tick w) = w_pending w" "w_out (tick w) = w_out w"
  "w_chan (tick w) = w_chan w" "w_next (tick w) = w_next w"
  by (simp_all add: tick_def)

lemma set_chan_simps [simp]:
  "w_entries (set_chan c x w) = w_entries w" "w_pending (set_chan c x w) = w_pending w"
  "w_out (set_chan c x w) = w_out w" "w_chan (set_chan c x w) = (w_chan w)(c \<mapsto> x)"
  by (simp_all add: set_chan_def)

lemma say_simps [simp]:
  "w_entries (say r m w) = w_entries w" "w_pending (say r m w) = w_pending w"
  "w_out (say r m w) = w_out w @ [written r m]" "w_chan (say r m w) = w_chan w"
  by (simp_all add: say_def)

lemma world_ok_simps [simp]:
  "world_ok host origin (tick w) = world_ok host origin w"
  "world_ok host origin (set_chan c x w) = world_ok host origin w"
  "world_ok host origin (say r m w) = world_ok host origin w"
  "world_ok host origin (w\<lparr>w_next := n\<rparr>) = world_ok host origin w"
  "world_ok host origin (w\<lparr>w_chan := cs\<rparr>) = world_ok host origin w"
  "world_ok host origin (w\<lparr>w_inbox := rq, w_faults := fs, w_out := ms\<rparr>) = world_ok host origin w"
  by (simp_all add: world_ok_def)

lemma unless_fault_simps [simp]:
  "unless_fault (Ret a) w \<noteq> Panic m" "unless_fault (Ret a) w = Ret b \<longleftrightarrow> no_fault w \<and> a = b"
  by (auto simp: unless_fault_def)

lemmas world_ops = world_net_def world_Dial_def world_Request_def world_Response_def
  world_Body_def world_Relay_def

interpretation world_net: http_net "world_net origin" "world_ok host origin" w_out w_chan
  "\<lambda>a q res. res = origin a q" for host origin
  by unfold_locales (auto simp: world_ops split: option.splits)

lemma key_determinesD:
  assumes "key_determines host origin" and "minio_ShouldIntercept host q" and "minio_ShouldIntercept host q'"
    and "minio_ExtractObjectKey q' = minio_ExtractObjectKey q" and "res_status (origin a q) = StatusOK"
  shows "res_body (origin a q) \<noteq> [] \<and> same_content (origin a q) (origin a' q')"
  using assms unfolding key_determines_def by metis

lemma world_goodI:
  assumes "key_determines host origin" and "minio_ShouldIntercept host q"
    and "res_status (origin a q) = StatusOK" and "key = minio_ExtractObjectKey q"
  shows "world_good host origin key
    \<lparr>obj_Key = key, obj_Data = Some (res_body (origin a q)), obj_Headers = res_headers (origin a q)\<rparr>"
proof -
  note det = key_determinesD [OF assms(1,2) _ _ assms(3)]
  from det [OF assms(2) refl] have "res_body (origin a q) \<noteq> []" by blast
  moreover have "same_content (origin a' q') \<lparr>res_status = StatusOK, res_length = 0,
      res_headers = res_headers (origin a q), res_body = res_body (origin a q)\<rparr>"
    if "minio_ShouldIntercept host q'" "minio_ExtractObjectKey q' = key" for a' q'
    using det [OF that(1), of a'] that(2) assms(3,4) by (simp add: same_content_def)
  ultimately show ?thesis by (simp add: world_good_def)
qed

lemma world_good_served:
  assumes "minio_ShouldIntercept host q" and "world_good host origin (minio_ExtractObjectKey q) obj"
  shows "\<exists>res. minio_CreateLocalResponse (Some obj) = Ret res \<and> same_content res (origin a q)"
proof -
  from assms(2) obtain d where d: "obj_Data obj = Some d"
    "same_content (origin a q)
       \<lparr>res_status = StatusOK, res_length = 0, res_headers = obj_Headers obj, res_body = d\<rparr>"
    using assms(1) by (auto simp: world_good_def)
  then show ?thesis by (simp add: minio_CreateLocalResponse_def same_content_def)
qed

locale minio_world =
  fixes host :: string and origin :: "TCPAddr \<Rightarrow> http_request \<Rightarrow> http_response"
    and fits :: "string \<Rightarrow> gob \<Rightarrow> bool"
  assumes key_law: "key_determines host origin"

sublocale minio_world \<subseteq> store: bigcache_store "world_bigcache fits" "world_ok host origin" w_out
    "world_good host origin"
proof
  fix s key r s'
  assume "world_ok host origin s" and "bc_Get (world_bigcache fits) key s = (r, s')"
  then show "world_ok host origin s' \<and> w_out s' = w_out s \<and> (\<forall>m. r \<noteq> Panic m) \<and>
      (\<forall>b obj. r = Ret b \<longrightarrow> deserializeObj b = Ret obj \<longrightarrow> world_good host origin key obj)"
    by (auto simp: world_bigcache_def world_ok_def split: option.splits)
next
  fix s key obj
  assume "world_ok host origin s" and "world_good host origin key obj"
  then show "world_ok host origin (bc_start_put (world_bigcache fits) (Some obj) s) \<and>
      w_out (bc_start_put (world_bigcache fits) (Some obj) s) = w_out s"
    by (auto simp: world_bigcache_def world_ok_def world_good_def)
qed

sublocale minio_world \<subseteq> proxy: caching_proxy "bigcache_Get (world_bigcache fits)" "world_net origin"
    "world_ok host origin" w_out w_chan "\<lambda>a q res. res = origin a q" "world_good host origin"
    "[NewMinIOAdapter host]"
proof
  fix ad q a res
  assume "ad \<in> set [NewMinIOAdapter host]" "ShouldIntercept ad q" "res = origin a q" "res_status res = StatusOK"
  then show "world_good host origin (ExtractObjectKey ad q)
      \<lparr>obj_Key = ExtractObjectKey ad q, obj_Data = Some (res_body res), obj_Headers = res_headers res\<rparr>"
    using world_goodI [OF key_law] by (simp add: NewMinIOAdapter_def)
next
  fix ad q obj a
  assume "ad \<in> set [NewMinIOAdapter host]" "ShouldIntercept ad q" "world_good host origin (ExtractObjectKey ad q) obj"
  then show "\<exists>res res'. CreateLocalResponse ad (Some obj) = Ret res \<and> res' = origin a q \<and> same_content res res'"
    using world_good_served by (simp add: NewMinIOAdapter_def)
qed

text \<open>A memcached server that keeps what it is sent gives another cache for the same proxy.\<close>

definition world_memcache :: "world memcache" where
  "world_memcache =
     \<lparr>mc_Get = (\<lambda>key w.
        (case w_entries w key of Some b \<Rightarrow> Ret b | None \<Rightarrow> Err (Go_error ''memcache: cache miss''), w)),
      mc_Set = (\<lambda>key data ttl w. (Ret (), w\<lparr>w_entries := (w_entries w)(key \<mapsto> data)\<rparr>)),
      mc_Delete = (\<lambda>key w.
        if w_entries w key = None then (Err (Go_error ''memcache: cache miss''), w)
        else (Ret (), w\<lparr>w_entries := (w_entries w)(key := None)\<rparr>)),
      mc_FlushAll = (\<lambda>w. (Ret (), w\<lparr>w_entries := Map.empty\<rparr>)),
      mc_Ping = (\<lambda>w. (Ret (), w)),
      mc_ErrCacheMiss = Go_error ''memcache: cache miss''\<rparr>"

sublocale minio_world \<subseteq> memcached: memcache_store world_memcache ttl "world_ok host origin" w_out
    "world_good host origin" for ttl
proof
  fix key obj
  assume "world_good host origin key obj"
  then show "obj_Key obj = key \<and> obj_Data obj \<noteq> Some []" by (auto simp: world_good_def)
next
  fix s key r s'
  assume "world_ok host origin s" and "mc_Get world_memcache key s = (r, s')"
  then show "world_ok host origin s' \<and> w_out s' = w_out s \<and> (\<forall>m. r \<noteq> Panic m) \<and>
      (\<forall>b obj. r = Ret b \<longrightarrow> deserializeObj b = Ret obj \<longrightarrow> world_good host origin key obj)"
    by (auto simp: world_memcache_def world_ok_def split: option.splits)
next
  fix s b key u s'
  assume "world_ok host origin s" and "\<And>obj. deserializeObj b = Ret obj \<Longrightarrow> world_good host origin key obj"
    and "mc_Set world_memcache key b ttl s = (u, s')"
  then show "world_ok host origin s' \<and> w_out s' = w_out s \<and> (\<forall>m. u \<noteq> Panic m)"
    by (auto simp: world_memcache_def world_ok_def split: if_splits)
qed

sublocale minio_world \<subseteq> mc_proxy: caching_proxy "memcached_Get world_memcache ttl" "world_net origin"
    "world_ok host origin" w_out w_chan "\<lambda>a q res. res = origin a q" "world_good host origin"
    "[NewMinIOAdapter host]" for ttl
  by unfold_locales (fact proxy.good_retrieved, fact proxy.good_served)

context minio_world begin

lemma run_put_ok: "world_ok host origin w \<Longrightarrow> world_ok host origin (run_put fits w)"
proof (cases "w_pending w")
  case (Cons p rest)
  assume i: "world_ok host origin w"
  with Cons obtain obj where p: "p = Some obj" and g: "world_good host origin (obj_Key obj) obj"
    by (auto simp: world_ok_def)
  have "world_good host origin (obj_Key obj) obj'"
    if "serializeObj obj = Ret b" "deserializeObj b = Ret obj'" for b obj'
    using deserialize_serialize [OF that(1)] that(2) g by (auto simp: world_good_def)
  with i Cons p show ?thesis
    by (auto simp: run_put_def bigcache_put_def serializeObj_def world_bigcache_def world_ok_def)
qed (simp add: run_put_def)

lemma handle_ok:
  assumes "world_ok host origin w"
  shows "world_ok host origin (snd (world_handle host origin fits a w)) \<and>
    fst (world_handle host origin fits a w) = Ret () \<and>
    (\<exists>ms. w_out (snd (world_handle host origin fits a w)) = w_out w @ ms \<and>
       (case w_inbox w of Some q \<Rightarrow> answered (\<lambda>res. res = origin a q) ms | None \<Rightarrow> ms = []))"
proof -
  have "http_ReadRequest (world_net origin) w =
      (case w_inbox w of Some q \<Rightarrow> Ret q | None \<Rightarrow> Err (Go_error ''malformed HTTP request''), w)"
    by (simp add: world_net_def)
  from proxy.handler_transparent [OF assms this, of a] show ?thesis
    by (cases "w_inbox w") (simp_all add: serves_def world_handle_def)
qed

lemma serve_transparent:
  assumes "world_ok host origin w" and "(a, rq, r, ms) \<in> set (serve host origin fits evs w)"
  shows "r = Ret () \<and> (case rq of Some q \<Rightarrow> answered (\<lambda>res. res = origin a q) ms | None \<Rightarrow> ms = [])"
  using assms
proof (induction evs arbitrary: w)
  case (Cons ev evs)
  show ?case
  proof (cases ev)
    case (Client a' rq' faults)
    let ?w = "arrive rq' faults w"
    have "world_ok host origin ?w" using Cons.prems by (simp add: arrive_def)
    note h = handle_ok [OF this, of a']
    obtain r' w' where w': "world_handle host origin fits a' ?w = (r', w')" by fastforce
    have "w_inbox ?w = rq'" "w_out ?w = []" by (simp_all add: arrive_def)
    with h w' have now: "world_ok host origin w'" "r' = Ret ()"
        "case rq' of Some q \<Rightarrow> answered (\<lambda>res. res = origin a' q) (w_out w') | None \<Rightarrow> w_out w' = []"
      by (auto split: option.splits)
    from Cons.prems(2) Client w' have
      "(a, rq, r, ms) = (a', rq', r', w_out w') \<or> (a, rq, r, ms) \<in> set (serve host origin fits evs w')"
      by simp
    with now Cons.IH [OF now(1)] show ?thesis by blast
  next
    case Run_put
    with Cons run_put_ok show ?thesis by auto
  next
    case (Evict key)
    with Cons.prems have "world_ok host origin (w\<lparr>w_entries := (w_entries w)(key := None)\<rparr>)"
      by (auto simp: world_ok_def split: if_splits)
    with Cons Evict show ?thesis by auto
  qed
qed simp

end

section \<open>A miss and a hit\<close>

definition local_of :: "http_response \<Rightarrow> http_response" where
  "local_of res =
     \<lparr>res_status = StatusOK, res_length = int (length (res_body res)), res_headers = res_headers res,
      res_body = res_body res\<rparr>"

definition object_of :: "string \<Rightarrow> http_response \<Rightarrow> object" where
  "object_of key res = \<lparr>obj_Key = key, obj_Data = Some (res_body res), obj_Headers = res_headers res\<rparr>"

definition gob_of :: "string \<Rightarrow> http_response \<Rightarrow> gob" where
  "gob_of key res = Gob_object key (res_body res) (res_headers res)"

lemma world_arrive_simps [simp]:
  "w_entries (arrive rq fs w) = w_entries w" "w_pending (arrive rq fs w) = w_pending w"
  "w_inbox (arrive rq fs w) = rq" "w_out (arrive rq fs w) = []" "w_faults (arrive rq fs w) = fs"
  by (simp_all add: arrive_def)

lemma minio_adapter_simps [simp]:
  "ShouldIntercept (NewMinIOAdapter host) = minio_ShouldIntercept host"
  "ExtractObjectKey (NewMinIOAdapter host) = minio_ExtractObjectKey"
  "CreateLocalResponse (NewMinIOAdapter host) = minio_CreateLocalResponse"
  by (simp_all add: NewMinIOAdapter_def)

lemma world_intercept:
  "minio_ShouldIntercept host q \<Longrightarrow> shouldIntercept [NewMinIOAdapter host] q = (True, 0)"
  by (simp add: shouldIntercept_def)

lemma world_lookup:
  "bigcache_get (world_bigcache fits) key w =
     (case w_entries w key of
        None \<Rightarrow> Err (Go_error ''Entry not found'')
      | Some b \<Rightarrow> (case deserializeObj b of Ret obj \<Rightarrow> Ret (Some obj)
                   | Err e \<Rightarrow> Err (Wrapped ''deserialization error'' e) | Panic m \<Rightarrow> Panic m), w)"
  by (simp add: bigcache_get_def world_bigcache_def split: option.split go.split)

lemma no_fault_simps [simp]:
  "w_faults w = [] \<Longrightarrow> no_fault w" "w_faults w = False # bs \<Longrightarrow> no_fault w"
  "w_faults w = True # bs \<Longrightarrow> \<not> no_fault w"
  by (simp_all add: no_fault_def)

lemma unless_fault_ok: "no_fault w \<Longrightarrow> unless_fault r w = r"
  by (simp add: unless_fault_def)

lemma faults_simps [simp]:
  "w_faults (tick w) = tl (w_faults w)" "w_faults (set_chan c x w) = w_faults w"
  "w_faults (say r m w) = w_faults w"
  by (simp_all add: tick_def set_chan_def say_def)

lemma world_retrieve:
  assumes "w_faults w = []" and "res_status (origin a q) = StatusOK"
  shows "\<exists>w'. retrieveObjectFromRemote (world_net origin) q (Some a) key w =
      (Ret (Some (object_of key (origin a q))), w') \<and>
    w_entries w' = w_entries w \<and> w_pending w' = w_pending w \<and> w_out w' = w_out w \<and> w_faults w' = []"
  using assms
  by (simp add: retrieveObjectFromRemote_def fetchObject_def dial_target_def world_ops unless_fault_ok
      head_of_def response_head.truncate_def object_of_def)

lemma world_forward:
  assumes "w_faults w = []"
  shows "\<exists>w'. forward (world_net origin) (Some a) q w = (Ret (), w') \<and>
    w_out w' = w_out w @ [Sent (Response (origin a q))]"
  using assms
  by (simp add: forward_def dial_target_def world_ops unless_fault_ok written_def)

lemma world_miss:
  assumes "minio_ShouldIntercept host q" and "res_status (origin a q) = StatusOK"
    and "w_entries w (minio_ExtractObjectKey q) = None"
  shows "\<exists>w'. world_handle host origin fits a (arrive (Some q) [] w) = (Ret (), w') \<and>
    w_entries w' = w_entries w \<and>
    w_pending w' = w_pending w @ [Some (object_of (minio_ExtractObjectKey q) (origin a q))] \<and>
    w_out w' = [Sent (Response (local_of (origin a q)))]"
proof -
  let ?key = "minio_ExtractObjectKey q"
  let ?w = "arrive (Some q) [] w"
  obtain w1 where r: "retrieveObjectFromRemote (world_net origin) q (Some a) ?key ?w =
      (Ret (Some (object_of ?key (origin a q))), w1)"
    and w1: "w_entries w1 = w_entries w" "w_pending w1 = w_pending w" "w_out w1 = []" "w_faults w1 = []"
    using world_retrieve [of ?w origin a q ?key, OF _ assms(2)] by auto
  have "bigcache_Get (world_bigcache fits) ?key
      (Some (retrieveObjectFromRemote (world_net origin) q (Some a) ?key)) ?w =
    (Ret (Some (object_of ?key (origin a q))),
     w1\<lparr>w_pending := w_pending w1 @ [Some (object_of ?key (origin a q))]\<rparr>)"
    using assms(3) r
    by (simp add: bigcache_Get_def bigcache_initialize_def world_lookup) (simp add: world_bigcache_def)
  moreover have "http_ReadRequest (world_net origin) ?w = (Ret q, ?w)" by (simp add: world_net_def)
  ultimately show ?thesis
    using w1 by (simp add: world_handle_def handleHttpInternal_def handleRequest_def world_intercept [OF assms(1)]
        Let_def minio_CreateLocalResponse_def object_of_def local_of_def
        world_net_def unless_fault_ok written_def)
qed

lemma world_hit:
  assumes "minio_ShouldIntercept host q" and "w_entries w (minio_ExtractObjectKey q) = Some b"
    and "deserializeObj b = Ret obj"
  shows "world_handle host origin fits a (arrive (Some q) fs w) =
    on_go (minio_CreateLocalResponse (Some obj), arrive (Some q) fs w)
      (\<lambda>res s3. on_go (conn_Write (world_net origin) (Response res) s3)
         (\<lambda>_ s4. (Ret (), s4)) (\<lambda>_ s4. forward (world_net origin) (Some a) q s4))
      (\<lambda>_ s3. forward (world_net origin) (Some a) q s3)"
proof -
  have "http_ReadRequest (world_net origin) (arrive (Some q) fs w) = (Ret q, arrive (Some q) fs w)"
    by (simp add: world_net_def)
  moreover have "\<And>r s. (case (r, s) of (r, s) \<Rightarrow> (r, client_Close (world_net origin) s)) = (r, s)"
    by (simp add: world_net_def)
  moreover have "bigcache_Get (world_bigcache fits) (minio_ExtractObjectKey q) f (arrive (Some q) fs w) =
      (Ret (Some obj), arrive (Some q) fs w)" for f
    using assms(2,3) by (simp add: bigcache_Get_def world_lookup)
  ultimately show ?thesis
    by (simp add: world_handle_def handleHttpInternal_def handleRequest_def world_intercept [OF assms(1)]
        Let_def)
qed

lemma world_put:
  assumes "w_pending w = Some (object_of key res) # ps" and "fits key (gob_of key res)"
  shows "w_entries (run_put fits w) = (w_entries w)(key \<mapsto> gob_of key res) \<and> w_pending (run_put fits w) = ps"
  using assms
  by (simp add: run_put_def bigcache_put_def object_of_def serializeObj_def world_bigcache_def gob_of_def)

lemma empty_world_ok [simp]: "world_ok host origin empty_world"
  by (simp add: world_ok_def empty_world_def)

end
