(* ===== verification/Concurrent_World.thy ===== *)
theory Concurrent_World
  imports Object_World
begin

text \<open>
  The proxy's workers share the cache. Here the handler of one request runs with the others in
  between: before each of its operations on the network or the cache any number of actions of
  other workers take place. The contracts of \<open>Proxy_Contract\<close> are stable under such actions, so
  that every result proved from them holds for the interleaved runs as well.
\<close>

section \<open>Operations with others in between\<close>

text \<open>
  The state is paired with a schedule: for each coming operation of this handler the actions that
  happen before it. When the schedule is used up the handler runs alone.
\<close>

type_synonym ('s, 'n) scheduled = "'s \<times> 'n list list"

definition others :: "('n \<Rightarrow> 's \<Rightarrow> 's) \<Rightarrow> ('s, 'n) scheduled \<Rightarrow> ('s, 'n) scheduled" where
  "others act p =
     (case snd p of [] \<Rightarrow> p | acts # rest \<Rightarrow> (fold act acts (fst p), rest))"

definition noisy :: "('n \<Rightarrow> 's \<Rightarrow> 's) \<Rightarrow> ('s \<Rightarrow> 'a go \<times> 's) \<Rightarrow> ('s, 'n) scheduled \<Rightarrow> 'a go \<times> ('s, 'n) scheduled" where
  "noisy act f p = (case others act p of (s, rest) \<Rightarrow> with_stats rest (f s))"

definition quiet :: "('s \<Rightarrow> 's) \<Rightarrow> ('s, 'n) scheduled \<Rightarrow> ('s, 'n) scheduled" where
  "quiet f p = (f (fst p), snd p)"

definition noisy_net :: "('n \<Rightarrow> 's \<Rightarrow> 's) \<Rightarrow> 's net \<Rightarrow> ('s, 'n) scheduled net" where
  "noisy_net act N =
     \<lparr>http_ReadRequest = noisy act (http_ReadRequest N),
      net_Dial = (\<lambda>a. noisy act (net_Dial N a)),
      req_Write = (\<lambda>c q. noisy act (req_Write N c q)),
      http_ReadResponse = (\<lambda>c. noisy act (http_ReadResponse N c)),
      body_ReadAll = (\<lambda>c. noisy act (body_ReadAll N c)),
      relay_Write = (\<lambda>c h. noisy act (relay_Write N c h)),
      conn_Write = (\<lambda>m. noisy act (conn_Write N m)),
      target_Close = (\<lambda>c. quiet (target_Close N c)),
      client_Close = quiet (client_Close N)\<rparr>"

definition noisy_bigcache :: "('n \<Rightarrow> 's \<Rightarrow> 's) \<Rightarrow> 's bigcache \<Rightarrow> ('s, 'n) scheduled bigcache" where
  "noisy_bigcache act B =
     \<lparr>bc_Get = (\<lambda>key. noisy act (bc_Get B key)),
      bc_Set = (\<lambda>key data. noisy act (bc_Set B key data)),
      bc_start_put = (\<lambda>obj. quiet (bc_start_put B obj))\<rparr>"

section \<open>What others may do\<close>

text \<open>
  Others keep the invariant, write nothing to this client, and leave the connections of this
  handler alone.
\<close>

locale interference =
  fixes act :: "'n \<Rightarrow> 's \<Rightarrow> 's" and ok :: "'s \<Rightarrow> bool" and out :: "'s \<Rightarrow> sent list"
    and chan :: "'s \<Rightarrow> nat \<Rightarrow> channel option"
  assumes act_law: "ok s \<Longrightarrow> ok (act n s) \<and> out (act n s) = out s \<and> chan (act n s) = chan s"
begin

lemma fold_act: "ok s \<Longrightarrow> ok (fold act ns s) \<and> out (fold act ns s) = out s \<and> chan (fold act ns s) = chan s"
  by (induction ns arbitrary: s) (simp_all add: act_law)

lemma others_law:
  assumes "ok (fst p)"
  shows "ok (fst (others act p)) \<and> out (fst (others act p)) = out (fst p) \<and>
    chan (fst (others act p)) = chan (fst p)"
  using assms fold_act by (simp add: others_def split: list.split)

lemma noisy_cases:
  assumes "ok (fst p)" and "noisy act f p = (r, p')"
  obtains s where "ok s" "out s = out (fst p)" "chan s = chan (fst p)" "f s = (r, fst p')"
proof -
  obtain s rest where o: "others act p = (s, rest)" by fastforce
  from assms(2) o have "f s = (r, fst p')" by (auto simp: noisy_def with_stats_def)
  then show thesis
    by (rule that [rotated 3]) (use others_law [OF assms(1)] o in simp_all)
qed

end

locale noisy_http = http_net N ok out chan answers + interference act ok out chan
  for N :: "'s net" and ok :: "'s \<Rightarrow> bool" and out :: "'s \<Rightarrow> sent list"
    and chan :: "'s \<Rightarrow> nat \<Rightarrow> channel option"
    and answers :: "TCPAddr \<Rightarrow> http_request \<Rightarrow> http_response \<Rightarrow> bool"
    and act :: "'n \<Rightarrow> 's \<Rightarrow> 's"

sublocale noisy_http \<subseteq> noisy: http_net "noisy_net act N" "\<lambda>p. ok (fst p)" "\<lambda>p. out (fst p)"
    "\<lambda>p. chan (fst p)" answers
proof
  fix s rq s'
  assume i: "ok (fst s)" and "http_ReadRequest (noisy_net act N) s = (rq, s')"
  then have "noisy act (http_ReadRequest N) s = (rq, s')" by (simp add: noisy_net_def)
  from noisy_cases [OF i this] show "ok (fst s') \<and> out (fst s') = out (fst s) \<and> (\<forall>m. rq \<noteq> Panic m)"
    using request_law by metis
next
  fix s a rc s'
  assume i: "ok (fst s)" and "net_Dial (noisy_net act N) a s = (rc, s')"
  then have "noisy act (net_Dial N a) s = (rc, s')" by (simp add: noisy_net_def)
  from noisy_cases [OF i this] show "ok (fst s') \<and> out (fst s') = out (fst s) \<and> (\<forall>m. rc \<noteq> Panic m) \<and>
      (\<forall>c. rc = Ret c \<longrightarrow> chan (fst s') c = Some (Fresh a))"
    using dial_law by metis
next
  fix s c a q r s'
  assume i: "ok (fst s)" and c: "chan (fst s) c = Some (Fresh a)" and "req_Write (noisy_net act N) c q s = (r, s')"
  then have "noisy act (req_Write N c q) s = (r, s')" by (simp add: noisy_net_def)
  from noisy_cases [OF i this] show "ok (fst s') \<and> out (fst s') = out (fst s) \<and> (\<forall>m. r \<noteq> Panic m) \<and>
      chan (fst s') c = Some (Asked a q)"
    using send_law c by metis
next
  fix s c a q rh s'
  assume i: "ok (fst s)" and c: "chan (fst s) c = Some (Asked a q)"
    and "http_ReadResponse (noisy_net act N) c s = (rh, s')"
  then have "noisy act (http_ReadResponse N c) s = (rh, s')" by (simp add: noisy_net_def)
  from noisy_cases [OF i this] show "ok (fst s') \<and> out (fst s') = out (fst s) \<and> (\<forall>m. rh \<noteq> Panic m) \<and>
      (\<forall>h. rh = Ret h \<longrightarrow>
         (\<exists>res. answers a q res \<and> h = head_of res \<and> chan (fst s') c = Some (Answering a q res)))"
    using response_law c by metis
next
  fix s c a q res rb s'
  assume i: "ok (fst s)" and c: "chan (fst s) c = Some (Answering a q res)"
    and "body_ReadAll (noisy_net act N) c s = (rb, s')"
  then have "noisy act (body_ReadAll N c) s = (rb, s')" by (simp add: noisy_net_def)
  from noisy_cases [OF i this] show "ok (fst s') \<and> out (fst s') = out (fst s) \<and> (\<forall>m. rb \<noteq> Panic m) \<and>
      (\<forall>b. rb = Ret b \<longrightarrow> b = res_body res)"
    using body_law c by metis
next
  fix s c a q res r s'
  assume i: "ok (fst s)" and c: "chan (fst s) c = Some (Answering a q res)"
    and "relay_Write (noisy_net act N) c (head_of res) s = (r, s')"
  then have "noisy act (relay_Write N c (head_of res)) s = (r, s')" by (simp add: noisy_net_def)
  from noisy_cases [OF i this] show "ok (fst s') \<and> (\<forall>m. r \<noteq> Panic m) \<and>
      out (fst s') = out (fst s) @ [written r (Response res)]"
    using relay_law c by metis
next
  fix s m r s'
  assume i: "ok (fst s)" and "conn_Write (noisy_net act N) m s = (r, s')"
  then have "noisy act (conn_Write N m) s = (r, s')" by (simp add: noisy_net_def)
  from noisy_cases [OF i this] show "ok (fst s') \<and> (\<forall>x. r \<noteq> Panic x) \<and>
      out (fst s') = out (fst s) @ [written r m]"
    using write_law by metis
qed (simp_all add: noisy_net_def quiet_def close_law client_close_law)

locale noisy_store = bigcache_store B ok out good + interference act ok out chan
  for B :: "'s bigcache" and ok :: "'s \<Rightarrow> bool" and out :: "'s \<Rightarrow> sent list"
    and good :: "string \<Rightarrow> object \<Rightarrow> bool" and act :: "'n \<Rightarrow> 's \<Rightarrow> 's"
    and chan :: "'s \<Rightarrow> nat \<Rightarrow> channel option"

sublocale noisy_store \<subseteq> noisy: bigcache_store "noisy_bigcache act B" "\<lambda>p. ok (fst p)"
    "\<lambda>p. out (fst p)" good
proof
  fix s key r s'
  assume i: "ok (fst s)" and "bc_Get (noisy_bigcache act B) key s = (r, s')"
  then have "noisy act (bc_Get B key) s = (r, s')" by (simp add: noisy_bigcache_def)
  from noisy_cases [OF i this] show "ok (fst s') \<and> out (fst s') = out (fst s) \<and> (\<forall>m. r \<noteq> Panic m) \<and>
      (\<forall>b o1. r = Ret b \<longrightarrow> deserializeObj b = Ret o1 \<longrightarrow> good key o1)"
    using bc_get_law by metis
qed (simp add: noisy_bigcache_def quiet_def bc_put_law)

section \<open>The other workers\<close>

text \<open>
  What another worker does to the state it shares with this one: it has fetched an object from a
  server and started a put of it, a put that was started runs, or bigcache evicts an entry.
\<close>

datatype other = Other_fetched TCPAddr http_request | Other_put | Other_evicted string

definition other_act ::
  "string \<Rightarrow> (TCPAddr \<Rightarrow> http_request \<Rightarrow> http_response) \<Rightarrow> (string \<Rightarrow> gob \<Rightarrow> bool) \<Rightarrow> other \<Rightarrow> world \<Rightarrow> world" where
  "other_act host origin fits n w =
     (case n of
        Other_fetched a q \<Rightarrow>
          (if minio_ShouldIntercept host q \<and> res_status (origin a q) = StatusOK
           then bc_start_put (world_bigcache fits)
                  (Some (object_of (minio_ExtractObjectKey q) (origin a q))) w
           else w)
      | Other_put \<Rightarrow> run_put fits w
      | Other_evicted key \<Rightarrow> w\<lparr>w_entries := (w_entries w)(key := None)\<rparr>)"

lemma run_put_same: "w_out (run_put fits w) = w_out w \<and> w_chan (run_put fits w) = w_chan w"
  by (auto simp: run_put_def bigcache_put_def serializeObj_def world_bigcache_def
      split: list.split option.split)

context minio_world begin

lemma other_act_ok:
  assumes "world_ok host origin w"
  shows "world_ok host origin (other_act host origin fits n w) \<and>
    w_out (other_act host origin fits n w) = w_out w \<and> w_chan (other_act host origin fits n w) = w_chan w"
proof (cases n)
  case (Other_fetched a q)
  have g: "world_good host origin (minio_ExtractObjectKey q) (object_of (minio_ExtractObjectKey q) (origin a q))"
    if "minio_ShouldIntercept host q" "res_status (origin a q) = StatusOK"
    unfolding object_of_def by (rule world_goodI [OF key_law that refl])
  then show ?thesis
    using store.bc_put_law [OF assms g] assms Other_fetched
    by (auto simp: other_act_def world_bigcache_def)
next
  case Other_put
  then show ?thesis using run_put_ok [OF assms] run_put_same by (simp add: other_act_def)
next
  case (Other_evicted key)
  with assms show ?thesis by (auto simp: other_act_def world_ok_def split: if_splits)
qed

end

sublocale minio_world \<subseteq> shared_net: noisy_http "world_net origin" "world_ok host origin" w_out w_chan
    "\<lambda>a q res. res = origin a q" "other_act host origin fits"
  by unfold_locales (rule other_act_ok)

sublocale minio_world \<subseteq> shared_store: noisy_store "world_bigcache fits" "world_ok host origin" w_out
    "world_good host origin" "other_act host origin fits" w_chan
  by unfold_locales

sublocale minio_world \<subseteq> shared: caching_proxy
    "bigcache_Get (noisy_bigcache (other_act host origin fits) (world_bigcache fits))"
    "noisy_net (other_act host origin fits) (world_net origin)"
    "\<lambda>p. world_ok host origin (fst p)" "\<lambda>p. w_out (fst p)" "\<lambda>p. w_chan (fst p)"
    "\<lambda>a q res. res = origin a q" "world_good host origin" "[NewMinIOAdapter host]"
  by unfold_locales (fact proxy.good_retrieved, fact proxy.good_served)

section \<open>Serving clients with others in between\<close>

definition shared_handle ::
  "string \<Rightarrow> (TCPAddr \<Rightarrow> http_request \<Rightarrow> http_response) \<Rightarrow> (string \<Rightarrow> gob \<Rightarrow> bool) \<Rightarrow>
     TCPAddr \<Rightarrow> (world, other) scheduled \<Rightarrow> unit go \<times> (world, other) scheduled" where
  "shared_handle host origin fits a p =
     handleHttpInternal (noisy_net (other_act host origin fits) (world_net origin))
       (bigcache_Get (noisy_bigcache (other_act host origin fits) (world_bigcache fits)))
       [NewMinIOAdapter host] (Some a) p"

text \<open>
  A client is an address, a request, the failures on its way, and what others do while it is
  handled. Between two clients of one worker others may do anything as well.
\<close>

datatype shared_event =
    Shared_client TCPAddr "http_request option" "bool list" "other list list"
  | Others "other list"

fun serve_shared ::
  "string \<Rightarrow> (TCPAddr \<Rightarrow> http_request \<Rightarrow> http_response) \<Rightarrow> (string \<Rightarrow> gob \<Rightarrow> bool) \<Rightarrow>
     shared_event list \<Rightarrow> world \<Rightarrow> (TCPAddr \<times> http_request option \<times> unit go \<times> sent list) list" where
  "serve_shared host origin fits [] w = []"
| "serve_shared host origin fits (Shared_client a rq faults sched # evs) w =
     (case shared_handle host origin fits a (arrive rq faults w, sched) of
        (r, (w', _)) \<Rightarrow> (a, rq, r, w_out w') # serve_shared host origin fits evs w')"
| "serve_shared host origin fits (Others acts # evs) w =
     serve_shared host origin fits evs (fold (other_act host origin fits) acts w)"

lemma length_serve_shared:
  "length (serve_shared host origin fits evs w) =
     length (filter (\<lambda>ev. case ev of Shared_client a rq fs sched \<Rightarrow> True | _ \<Rightarrow> False) evs)"
  by (induction host origin fits evs w rule: serve_shared.induct) (auto split: prod.split)

context minio_world begin

lemma shared_handle_ok:
  assumes "world_ok host origin w" and h: "shared_handle host origin fits a (w, sched) = (r, p')"
  shows "world_ok host origin (fst p') \<and> r = Ret () \<and>
    (\<exists>ms. w_out (fst p') = w_out w @ ms \<and>
       (case w_inbox (fst (others (other_act host origin fits) (w, sched))) of
          Some q \<Rightarrow> answered (\<lambda>res. res = origin a q) ms | None \<Rightarrow> ms = []))"
proof -
  let ?w = "fst (others (other_act host origin fits) (w, sched))"
  have "\<exists>rest. http_ReadRequest (noisy_net (other_act host origin fits) (world_net origin)) (w, sched) =
      (case w_inbox ?w of Some q \<Rightarrow> Ret q | None \<Rightarrow> Err (Go_error ''malformed HTTP request''), (?w, rest))"
    by (auto simp: noisy_net_def noisy_def world_net_def with_stats_def split: prod.split)
  then obtain rest where
    "http_ReadRequest (noisy_net (other_act host origin fits) (world_net origin)) (w, sched) =
      (case w_inbox ?w of Some q \<Rightarrow> Ret q | None \<Rightarrow> Err (Go_error ''malformed HTTP request''), (?w, rest))"
    by blast
  from shared.handler_transparent [OF _ this, of a] assms show ?thesis
    by (cases "w_inbox ?w") (auto simp: serves_def shared_handle_def)
qed

lemma other_act_inbox: "w_inbox (other_act host origin fits n w) = w_inbox w"
  by (auto simp: other_act_def run_put_def bigcache_put_def serializeObj_def world_bigcache_def
      split: other.split list.split option.split)

lemma others_inbox: "w_inbox (fst (others (other_act host origin fits) (w, sched))) = w_inbox w"
proof -
  have "w_inbox (fold (other_act host origin fits) ns w) = w_inbox w" for ns
    by (induction ns arbitrary: w) (simp_all add: other_act_inbox)
  then show ?thesis by (simp add: others_def split: list.split)
qed

lemma serve_shared_transparent:
  assumes "world_ok host origin w" and "(a, rq, r, ms) \<in> set (serve_shared host origin fits evs w)"
  shows "r = Ret () \<and> (case rq of Some q \<Rightarrow> answered (\<lambda>res. res = origin a q) ms | None \<Rightarrow> ms = [])"
  using assms
proof (induction evs arbitrary: w)
  case (Cons ev evs)
  show ?case
  proof (cases ev)
    case (Shared_client a' rq' faults sched)
    let ?w = "arrive rq' faults w"
    obtain r' w' rest where w': "shared_handle host origin fits a' (?w, sched) = (r', (w', rest))"
      by (metis prod.exhaust)
    have "world_ok host origin ?w" using Cons.prems(1) by (simp add: arrive_def)
    from shared_handle_ok [OF this w'] have now: "world_ok host origin w'" "r' = Ret ()"
        "case rq' of Some q \<Rightarrow> answered (\<lambda>res. res = origin a' q) (w_out w') | None \<Rightarrow> w_out w' = []"
      by (auto simp: others_inbox)
    from Cons.prems(2) Shared_client w' have
      "(a, rq, r, ms) = (a', rq', r', w_out w') \<or> (a, rq, r, ms) \<in> set (serve_shared host origin fits evs w')"
      by simp
    with now Cons.IH [OF now(1)] show ?thesis by blast
  next
    case (Others acts)
    have "world_ok host origin (fold (other_act host origin fits) acts w)"
      using shared_net.fold_act [OF Cons.prems(1)] by blast
    from Cons.IH [OF this] Cons.prems(2) Others show ?thesis by simp
  qed
qed simp

end

end
