(* ===== verification/Proxy_Properties.thy ===== *)
theory Proxy_Properties
  imports Concurrent_World
begin

text \<open>
  The properties of the caching proxy, its caches and its adapters, each with a concrete
  instance where it has hypotheses.
\<close>

section \<open>Concrete data\<close>

definition ex_url :: "string \<Rightarrow> string \<Rightarrow> URL" where
  "ex_url path query = \<lparr>url_scheme = [], url_host = [], url_path = path, url_rawquery = query,
     url_forcequery = False, url_escaped_host = [], url_escaped_path = path\<rparr>"

definition ex_get :: "string \<Rightarrow> string \<Rightarrow> http_request" where
  "ex_get path query =
     \<lparr>req_method = ''GET'', req_url = ex_url path query, req_host = ''host.lima.internal:9000'',
      req_headers = [''Authorization'' \<mapsto> [''AWS4-HMAC-SHA256'']]\<rparr>"

definition minio_host :: string where
  "minio_host = ''host.lima.internal:9000''"

definition server :: "u8 \<Rightarrow> TCPAddr" where
  "server d = \<lparr>IP = net_IPv4 10 0 0 d, Port = 9000\<rparr>"

text \<open>
  A store whose answers depend on the key alone, one whose servers differ, one that asks for
  credentials as well, and an empty one.
\<close>

definition response_200 :: "u8 list \<Rightarrow> http_response" where
  "response_200 body = \<lparr>res_status = 200, res_length = int (length body),
     res_headers = [''Etag'' \<mapsto> [''1'']], res_body = body\<rparr>"

definition same_origin :: "TCPAddr \<Rightarrow> http_request \<Rightarrow> http_response" where
  "same_origin a q = response_200 [of_nat (length (minio_ExtractObjectKey q)), 7]"

definition other_origin :: "TCPAddr \<Rightarrow> http_request \<Rightarrow> http_response" where
  "other_origin a q = response_200 (IP a)"

definition private_origin :: "TCPAddr \<Rightarrow> http_request \<Rightarrow> http_response" where
  "private_origin a q =
     (if req_headers q ''Authorization'' = None then (other_origin a q)\<lparr>res_status := 403\<rparr> else other_origin a q)"

definition empty_origin :: "TCPAddr \<Rightarrow> http_request \<Rightarrow> http_response" where
  "empty_origin a q = response_200 []"

abbreviation ex_q :: http_request where
  "ex_q \<equiv> ex_get ''/b/k'' []"

lemma ex_get_headers: "req_headers (ex_get path query) = [''Authorization'' \<mapsto> [''AWS4-HMAC-SHA256'']]"
  by (simp add: ex_get_def)

lemma ex_q_intercepted [simp]: "minio_ShouldIntercept minio_host ex_q"
  by code_simp

lemma response_200_sel [simp]:
  "res_status (response_200 b) = StatusOK" "res_body (response_200 b) = b"
  by (simp_all add: response_200_def StatusOK_def)

lemma same_origin_keys: "key_determines host same_origin"
  by (simp add: key_determines_def same_origin_def)

interpretation ex_world: minio_world minio_host same_origin "\<lambda>key data. True"
  by unfold_locales (rule same_origin_keys)

section \<open>Transparency\<close>

text \<open>C12. Transparency of the proxy as run builds it (MinIO adapter, bigcache), with the other
  workers at work: if all requests with one key have the same positive, nonempty answer, then in
  any sequence of clients, with any failures, and with any fetches, puts and evictions by others
  before any operation of the handler, every readable request is answered, with content its own
  server would have answered or with status 503, and the handler never panics.\<close>

theorem caching_is_transparent:
  assumes "key_determines host origin"
    and "(a, rq, r, ms) \<in> set (serve_shared host origin fits evs empty_world)"
  shows "r = Ret () \<and> (case rq of Some q \<Rightarrow> answered (\<lambda>res. res = origin a q) ms | None \<Rightarrow> ms = [])"
  by (rule minio_world.serve_shared_transparent [OF minio_world.intro [OF assms(1)] empty_world_ok assms(2)])

text \<open>
  While the first client is served another worker fetches and stores the same object; the second
  client's reply fails.
\<close>

definition ex_events :: "shared_event list" where
  "ex_events =
     [Shared_client (server 1) (Some ex_q) [] [[], [Other_fetched (server 3) ex_q], [Other_put]],
      Others [Other_put],
      Shared_client (server 2) (Some ex_q) [True] [],
      Others [Other_evicted ''x'']]"

lemma caching_is_transparent_witness:
  "let x = serve_shared minio_host same_origin (\<lambda>key data. True) ex_events empty_world ! 1
   in fst (snd (snd x)) = Ret () \<and>
      (case fst (snd x) of Some q \<Rightarrow> answered (\<lambda>res. res = same_origin (fst x) q) (snd (snd (snd x)))
                         | None \<Rightarrow> snd (snd (snd x)) = [])"
proof -
  let ?l = "serve_shared minio_host same_origin (\<lambda>key data. True) ex_events empty_world"
  have "length ?l = 2" by (simp only: length_serve_shared ex_events_def) simp
  then have "?l ! 1 \<in> set ?l" by simp
  then have "(fst (?l ! 1), fst (snd (?l ! 1)), fst (snd (snd (?l ! 1))), snd (snd (snd (?l ! 1)))) \<in> set ?l"
    by simp
  from caching_is_transparent [OF same_origin_keys this] show ?thesis by (simp only: Let_def)
qed

text \<open>C13. For any network, cache and adapters that keep their contracts, HandleHttp returns, keeps
  the invariant, and appends to the client's connection exactly an answer the server at the
  address may give: taken from the cache or passed on, whole or cut off, or status 503.\<close>

theorem proxy_contract_suffices:
  assumes "caching_proxy Get N ok out chan answers good adapters" and "ok s"
    and "http_ReadRequest N s = (Ret q, s1)"
  shows "\<exists>s' ms. handleHttpInternal N Get adapters (Some a) s = (Ret (), s') \<and> ok s' \<and>
    out s' = out s @ ms \<and> answered (answers a q) ms"
  using caching_proxy.handler_transparent [OF assms, of a]
  by (cases "handleHttpInternal N Get adapters (Some a) s") (auto simp: serves_def)

lemma proxy_contract_suffices_witness:
  "\<exists>s' ms. handleHttpInternal (world_net same_origin) (memcached_Get world_memcache 120)
       [NewMinIOAdapter minio_host] (Some (server 1)) (empty_world\<lparr>w_inbox := Some ex_q\<rparr>) = (Ret (), s') \<and>
     world_ok minio_host same_origin s' \<and>
     w_out s' = w_out (empty_world\<lparr>w_inbox := Some ex_q\<rparr>) @ ms \<and>
     answered (\<lambda>res. res = same_origin (server 1) ex_q) ms"
  by (rule proxy_contract_suffices [OF ex_world.mc_proxy.caching_proxy_axioms])
    (simp_all add: world_ok_def empty_world_def world_net_def)

section \<open>Where caching is not transparent\<close>

lemma local_response [simp]:
  "minio_CreateLocalResponse (Some (object_of key res)) = Ret (local_of res)"
  by (simp add: minio_CreateLocalResponse_def object_of_def local_of_def)

lemma decoded_answer:
  "res_body res \<noteq> [] \<Longrightarrow> deserializeObj (gob_of key res) = Ret (object_of key res)"
  "res_body res = [] \<Longrightarrow>
     deserializeObj (gob_of key res) = Ret \<lparr>obj_Key = key, obj_Data = None, obj_Headers = res_headers res\<rparr>"
  by (simp_all add: gob_of_def object_of_def)

text \<open>The world after a first client's request was answered by its server and cached.\<close>

lemma cached_world:
  assumes "minio_ShouldIntercept host q" and "res_status (origin a q) = StatusOK"
    and "fits (minio_ExtractObjectKey q) (gob_of (minio_ExtractObjectKey q) (origin a q))"
  obtains w where "serve host origin fits (Client a (Some q) [] # Run_put # evs) empty_world =
      (a, Some q, Ret (), [Sent (Response (local_of (origin a q)))]) # serve host origin fits evs w"
    and "w_entries w (minio_ExtractObjectKey q) = Some (gob_of (minio_ExtractObjectKey q) (origin a q))"
proof -
  have "w_entries empty_world (minio_ExtractObjectKey q) = None" by (simp add: empty_world_def)
  from world_miss [of host q origin a empty_world fits, OF assms(1,2) this] obtain w' where w':
    "world_handle host origin fits a (arrive (Some q) [] empty_world) = (Ret (), w')"
    "w_pending w' = [Some (object_of (minio_ExtractObjectKey q) (origin a q))]"
    "w_out w' = [Sent (Response (local_of (origin a q)))]"
    by (auto simp: empty_world_def)
  then show thesis
    using world_put [of w' "minio_ExtractObjectKey q" "origin a q" "[]" fits] assms(3)
    by (intro that [of "run_put fits w'"]) simp_all
qed

text \<open>
  The key of an object names neither its server nor who may read it: once one server's answer is
  cached, a request with the same key, to any other address and with any other headers, is
  answered with the first server's object.
\<close>

lemma first_server_answers_for_all:
  assumes "minio_ShouldIntercept host q" and "minio_ShouldIntercept host q'"
    and "minio_ExtractObjectKey q' = minio_ExtractObjectKey q"
    and "res_status (origin a q) = StatusOK" and "res_body (origin a q) \<noteq> []"
    and "fits (minio_ExtractObjectKey q) (gob_of (minio_ExtractObjectKey q) (origin a q))"
  shows "serve host origin fits [Client a (Some q) [], Run_put, Client a' (Some q') []] empty_world =
    [(a, Some q, Ret (), [Sent (Response (local_of (origin a q)))]),
     (a', Some q', Ret (), [Sent (Response (local_of (origin a q)))])]"
proof -
  obtain w where w: "serve host origin fits (Client a (Some q) [] # Run_put # [Client a' (Some q') []]) empty_world =
      (a, Some q, Ret (), [Sent (Response (local_of (origin a q)))]) #
      serve host origin fits [Client a' (Some q') []] w"
    "w_entries w (minio_ExtractObjectKey q) = Some (gob_of (minio_ExtractObjectKey q) (origin a q))"
    by (rule cached_world [of host q origin a fits "[Client a' (Some q') []]", OF assms(1,4,6)])
  then show ?thesis
    using world_hit [OF assms(2), of w _ _ origin fits a' "[]"] decoded_answer(1) [OF assms(5)] assms(3)
    by (simp add: world_net_def unless_fault_ok written_def)
qed

text \<open>The second client asks another server and shows no credentials, for which it would be refused.\<close>

lemma first_server_answers_for_all_witness:
  "serve minio_host private_origin (\<lambda>key data. True)
     [Client (server 1) (Some ex_q) [], Run_put, Client (server 2) (Some (ex_q\<lparr>req_headers := Map.empty\<rparr>)) []] empty_world =
   [(server 1, Some ex_q, Ret (), [Sent (Response (local_of (private_origin (server 1) ex_q)))]),
    (server 2, Some (ex_q\<lparr>req_headers := Map.empty\<rparr>), Ret (),
       [Sent (Response (local_of (private_origin (server 1) ex_q)))])]"
  by (rule first_server_answers_for_all)
    (simp_all add: private_origin_def other_origin_def server_def net_IPv4_def ex_get_headers)

text \<open>Clients whose requests meet no entry, and the puts they started.\<close>

lemma serve_misses:
  assumes "\<forall>(a, q) \<in> set cl. minio_ShouldIntercept host q \<and> minio_ExtractObjectKey q = k \<and>
      res_status (origin a q) = StatusOK"
    and "w_entries w k = None"
  shows "\<exists>w'. serve host origin fits (map (\<lambda>(a, q). Client a (Some q) []) cl @ evs) w =
      map (\<lambda>(a, q). (a, Some q, Ret (), [Sent (Response (local_of (origin a q)))])) cl @
      serve host origin fits evs w' \<and>
    w_entries w' = w_entries w \<and>
    w_pending w' = w_pending w @ map (\<lambda>(a, q). Some (object_of k (origin a q))) cl"
  using assms
proof (induction cl arbitrary: w)
  case (Cons c cl)
  obtain a q where c: "c = (a, q)" by fastforce
  obtain w1 where w1: "world_handle host origin fits a (arrive (Some q) [] w) = (Ret (), w1)"
      "w_entries w1 = w_entries w" "w_pending w1 = w_pending w @ [Some (object_of k (origin a q))]"
      "w_out w1 = [Sent (Response (local_of (origin a q)))]"
    using Cons.prems world_miss [of host q origin a w fits] unfolding c by auto
  with Cons.IH [of w1] Cons.prems show ?case by (auto simp: c)
qed auto

lemma serve_puts:
  assumes "w_pending w = map (\<lambda>res. Some (object_of k res)) rs" and "\<forall>res \<in> set rs. fits k (gob_of k res)"
    and "rs \<noteq> []"
  shows "\<exists>w'. serve host origin fits (replicate (length rs) Run_put @ evs) w = serve host origin fits evs w' \<and>
    w_entries w' k = Some (gob_of k (last rs))"
  using assms
proof (induction rs arbitrary: w)
  case (Cons res rs)
  then have put: "w_entries (run_put fits w) = (w_entries w)(k \<mapsto> gob_of k res)"
      "w_pending (run_put fits w) = map (\<lambda>res. Some (object_of k res)) rs"
    using world_put [of w k res _ fits] by simp_all
  show ?case
  proof (cases "rs = []")
    case True
    with put show ?thesis by (intro exI [of _ "run_put fits w"]) simp
  next
    case False
    with Cons.IH [OF put(2)] Cons.prems(2) show ?thesis by simp
  qed
qed simp

text \<open>C22. Misses are not shared, in spite of the second look into the cache: any number of clients
  whose requests have one key, and come before the put the first of them started has run, are
  each answered by a fetch of their own from their own server; once all the puts have run, in
  the order of the misses, the last of them has won, and a further request with that key,
  whatever its address, gets the last client's object.\<close>

theorem misses_are_not_shared:
  assumes "\<forall>(a, q) \<in> set cl. minio_ShouldIntercept host q \<and> minio_ExtractObjectKey q = k \<and>
      res_status (origin a q) = StatusOK \<and> res_body (origin a q) \<noteq> [] \<and> fits k (gob_of k (origin a q))"
    and "cl \<noteq> []" and "minio_ShouldIntercept host q'" and "minio_ExtractObjectKey q' = k"
  shows "serve host origin fits
      (map (\<lambda>(a, q). Client a (Some q) []) cl @ replicate (length cl) Run_put @ [Client a' (Some q') []]) empty_world =
    map (\<lambda>(a, q). (a, Some q, Ret (), [Sent (Response (local_of (origin a q)))])) cl @
    [(a', Some q', Ret (), [Sent (Response (local_of (case last cl of (a, q) \<Rightarrow> origin a q)))])]"
proof -
  let ?rs = "map (\<lambda>(a, q). origin a q) cl"
  obtain w where w: "serve host origin fits
      (map (\<lambda>(a, q). Client a (Some q) []) cl @ replicate (length cl) Run_put @ [Client a' (Some q') []]) empty_world =
    map (\<lambda>(a, q). (a, Some q, Ret (), [Sent (Response (local_of (origin a q)))])) cl @
      serve host origin fits (replicate (length ?rs) Run_put @ [Client a' (Some q') []]) w"
    "w_pending w = map (\<lambda>res. Some (object_of k res)) ?rs"
    using serve_misses [of cl host k origin empty_world fits "replicate (length cl) Run_put @ [Client a' (Some q') []]"]
      assms(1) by (fastforce simp: empty_world_def comp_def split_def)
  obtain w' where w': "serve host origin fits (replicate (length ?rs) Run_put @ [Client a' (Some q') []]) w =
      serve host origin fits [Client a' (Some q') []] w'"
    "w_entries w' k = Some (gob_of k (last ?rs))"
    using serve_puts [OF w(2), of fits host origin "[Client a' (Some q') []]"] assms(1,2) by fastforce
  have l: "last ?rs = (case last cl of (a, q) \<Rightarrow> origin a q)" using assms(2) by (simp add: last_map)
  have "res_body (last ?rs) \<noteq> []" using assms(1,2) last_in_set [OF assms(2)] unfolding l by fastforce
  from world_hit [OF assms(3), of w' _ _ origin fits a' "[]"] decoded_answer(1) [OF this] w'(2) assms(4)
  show ?thesis unfolding w(1) w'(1) l
    by (simp add: world_net_def unless_fault_ok written_def)
qed

lemma misses_are_not_shared_witness:
  "serve minio_host other_origin (\<lambda>key data. True)
      (map (\<lambda>(a, q). Client a (Some q) []) [(server 1, ex_q), (server 2, ex_q)] @
       replicate (length [(server 1, ex_q), (server 2, ex_q)]) Run_put @ [Client (server 1) (Some ex_q) []]) empty_world =
    map (\<lambda>(a, q). (a, Some q, Ret (), [Sent (Response (local_of (other_origin a q)))])) [(server 1, ex_q), (server 2, ex_q)] @
    [(server 1, Some ex_q, Ret (),
      [Sent (Response (local_of (case last [(server 1, ex_q), (server 2, ex_q)] of (a, q) \<Rightarrow> other_origin a q)))])]"
  by (rule misses_are_not_shared [where k = "minio_ExtractObjectKey ex_q"])
    (simp_all add: other_origin_def server_def net_IPv4_def)

text \<open>C21. An object of length zero is served once and then kills the proxy: gob drops the empty
  slice behind the Data pointer, the cached object comes back with a nil Data, and the next
  request for it makes CreateLocalResponse dereference the nil pointer.\<close>

theorem empty_object_crashes:
  assumes "minio_ShouldIntercept host q"
    and "res_status (origin a q) = StatusOK" and "res_body (origin a q) = []"
    and "fits (minio_ExtractObjectKey q) (gob_of (minio_ExtractObjectKey q) (origin a q))"
  shows "serve host origin fits [Client a (Some q) [], Run_put, Client a (Some q) []] empty_world =
    [(a, Some q, Ret (), [Sent (Response (local_of (origin a q)))]),
     (a, Some q, Panic ''nil pointer dereference'', [])]"
proof -
  obtain w where w: "serve host origin fits (Client a (Some q) [] # Run_put # [Client a (Some q) []]) empty_world =
      (a, Some q, Ret (), [Sent (Response (local_of (origin a q)))]) #
      serve host origin fits [Client a (Some q) []] w"
    "w_entries w (minio_ExtractObjectKey q) = Some (gob_of (minio_ExtractObjectKey q) (origin a q))"
    by (rule cached_world [of host q origin a fits "[Client a (Some q) []]", OF assms(1,2,4)])
  then show ?thesis
    using world_hit [OF assms(1), of w _ _ origin fits a "[]"] decoded_answer(2) [OF assms(3)]
    by (simp add: minio_CreateLocalResponse_def)
qed

lemma empty_object_crashes_witness:
  "serve minio_host empty_origin (\<lambda>key data. True)
     [Client (server 1) (Some ex_q) [], Run_put, Client (server 1) (Some ex_q) []] empty_world =
   [(server 1, Some ex_q, Ret (), [Sent (Response (local_of (empty_origin (server 1) ex_q)))]),
    (server 1, Some ex_q, Panic ''nil pointer dereference'', [])]"
  by (rule empty_object_crashes) (simp_all add: empty_origin_def)

text \<open>C31. When writing a cached object to the client fails, the proxy forwards the request and
  writes the server's response behind the truncated one on the same connection.\<close>

theorem failed_reply_is_followed:
  assumes "minio_ShouldIntercept host q"
    and "res_status (origin a q) = StatusOK" and "res_body (origin a q) \<noteq> []"
    and "fits (minio_ExtractObjectKey q) (gob_of (minio_ExtractObjectKey q) (origin a q))"
  shows "serve host origin fits [Client a (Some q) [], Run_put, Client a (Some q) [True]] empty_world =
    [(a, Some q, Ret (), [Sent (Response (local_of (origin a q)))]),
     (a, Some q, Ret (), [Cut (Response (local_of (origin a q))), Sent (Response (origin a q))])]"
proof -
  obtain w where w: "serve host origin fits (Client a (Some q) [] # Run_put # [Client a (Some q) [True]]) empty_world =
      (a, Some q, Ret (), [Sent (Response (local_of (origin a q)))]) #
      serve host origin fits [Client a (Some q) [True]] w"
    "w_entries w (minio_ExtractObjectKey q) = Some (gob_of (minio_ExtractObjectKey q) (origin a q))"
    by (rule cached_world [of host q origin a fits "[Client a (Some q) [True]]", OF assms(1,2,4)])
  let ?w = "arrive (Some q) [True] w"
  let ?m = "Response (local_of (origin a q))"
  have s: "conn_Write (world_net origin) ?m ?w =
      (Err (Go_error ''i/o failure''), tick (say (Err (Go_error ''i/o failure'')) ?m ?w))"
    by (simp add: world_net_def unless_fault_def)
  obtain w' where "forward (world_net origin) (Some a) q (tick (say (Err (Go_error ''i/o failure'')) ?m ?w)) = (Ret (), w')"
      "w_out w' = [Cut ?m, Sent (Response (origin a q))]"
    using world_forward [of "tick (say (Err (Go_error ''i/o failure'')) ?m ?w)" origin a q]
    by (auto simp: written_def)
  with w s show ?thesis
    using world_hit [OF assms(1), of w _ _ origin fits a "[True]"] decoded_answer(1) [OF assms(3)] by simp
qed

lemma failed_reply_is_followed_witness:
  "serve minio_host same_origin (\<lambda>key data. True)
     [Client (server 1) (Some ex_q) [], Run_put, Client (server 1) (Some ex_q) [True]] empty_world =
   [(server 1, Some ex_q, Ret (), [Sent (Response (local_of (same_origin (server 1) ex_q)))]),
    (server 1, Some ex_q, Ret (),
     [Cut (Response (local_of (same_origin (server 1) ex_q))), Sent (Response (same_origin (server 1) ex_q))])]"
  by (rule failed_reply_is_followed) (simp_all add: same_origin_def)

section \<open>Interception and keys\<close>

text \<open>C29. Of the requests with an origin-form URL under a bucket, the MinIO adapter intercepts the
  GETs to its host whose query does not contain location and whose bucket is not a dot segment,
  if anything follows the slash behind the bucket, be it only a query, as in the listing of the
  bucket's objects.\<close>

theorem minio_intercepts:
  assumes "origin_form (req_url req)"
    and "url_path (req_url req) = ''/'' @ b @ ''/'' @ k" and "CHR ''/'' \<notin> set b"
    and "url_escaped_path (req_url req) = ''/'' @ b' @ ''/'' @ k'" and "CHR ''/'' \<notin> set b'"
  shows "minio_ShouldIntercept host req \<longleftrightarrow>
    req_method req = ''GET'' \<and> contains (req_host req) host \<and>
    \<not> contains (url_rawquery (req_url req)) ''location'' \<and> validateBucketName b \<and>
    (k' \<noteq> [] \<or> url_forcequery (req_url req) \<or> url_rawquery (req_url req) \<noteq> [])"
  by (rule minio_intercepts_iff [OF assms])

text \<open>The instance is the listing of a bucket.\<close>

lemma minio_intercepts_witness:
  "minio_ShouldIntercept minio_host (ex_get ''/b/'' ''list-type=2&prefix='')"
  using minio_intercepts [of "ex_get ''/b/'' ''list-type=2&prefix=''" "''b''" "[]" "''b''" "[]" minio_host]
  by (simp add: ex_get_def ex_url_def origin_form_def minio_host_def validateBucketName_def)

text \<open>C30. For URLs whose host has no slash and whose decoded path is empty or begins with one: if
  neither host nor path contains a question mark, two requests have the same object key exactly
  if they have the same host, the same path and the same query. With a question mark in the
  decoded path, which a client writes as %3F, different objects share a key: path p with query
  a?b, and path p?a with query b.\<close>

theorem object_keys_identify:
  assumes "CHR ''/'' \<notin> set (url_host (req_url r))" and "CHR ''/'' \<notin> set (url_host (req_url r'))"
    and "rooted (url_path (req_url r))" and "rooted (url_path (req_url r'))"
  shows "(CHR ''?'' \<notin> set (url_host (req_url r) @ url_path (req_url r)) \<and>
      CHR ''?'' \<notin> set (url_host (req_url r') @ url_path (req_url r')) \<longrightarrow>
      (minio_ExtractObjectKey r = minio_ExtractObjectKey r' \<longleftrightarrow>
         url_host (req_url r) = url_host (req_url r') \<and> url_path (req_url r) = url_path (req_url r') \<and>
         url_rawquery (req_url r) = url_rawquery (req_url r'))) \<and>
    (url_host (req_url r) = url_host (req_url r') \<and> url_path (req_url r') = url_path (req_url r) @ CHR ''?'' # a \<and>
      url_rawquery (req_url r) = a @ CHR ''?'' # url_rawquery (req_url r') \<longrightarrow>
      minio_ExtractObjectKey r = minio_ExtractObjectKey r')"
  using minio_key_inj [OF assms, of r r'] by (simp add: minio_key)

text \<open>The objects of \<^verbatim>\<open>GET /b/k?v?1\<close> and \<^verbatim>\<open>GET /b/k%3Fv?1\<close>.\<close>

lemma object_keys_identify_witness:
  "minio_ExtractObjectKey (ex_get ''/b/k'' ''x=1'') \<noteq> minio_ExtractObjectKey (ex_get ''/b/k'' ''x=2'') \<and>
   minio_ExtractObjectKey (ex_get ''/b/k'' ''v?1'') = minio_ExtractObjectKey (ex_get ''/b/k?v'' ''1'')"
  using object_keys_identify [of "ex_get ''/b/k'' ''x=1''" "ex_get ''/b/k'' ''x=2''" "[]"]
    object_keys_identify [of "ex_get ''/b/k'' ''v?1''" "ex_get ''/b/k?v'' ''1''" "''v''"]
  by (simp add: ex_get_def ex_url_def rooted_def)

section \<open>What a cache gives back\<close>

text \<open>
  An object put into a cache it fits in is what the next lookup of its key returns, except that an
  empty body comes back as a nil Data pointer.
\<close>

lemma stored_object_comes_back:
  assumes "fits (obj_Key obj) data" and "serializeObj obj = Ret data"
  shows "\<exists>w'. bigcache_put (world_bigcache fits) (Some obj) w = (Ret (), w') \<and>
    bigcache_get (world_bigcache fits) (obj_Key obj) w' =
      (Ret (Some (if obj_Data obj = Some [] then obj\<lparr>obj_Data := None\<rparr> else obj)), w')"
  using assms deserialize_serialize [OF assms(2)]
  by (simp add: bigcache_put_def world_lookup) (simp add: world_bigcache_def)

lemma stored_object_comes_back_witness:
  "\<exists>w'. bigcache_put (world_bigcache (\<lambda>key data. True)) (Some (object_of ''k'' (response_200 [1]))) empty_world = (Ret (), w') \<and>
    bigcache_get (world_bigcache (\<lambda>key data. True)) (obj_Key (object_of ''k'' (response_200 [1]))) w' =
      (Ret (Some (if obj_Data (object_of ''k'' (response_200 [1])) = Some []
                  then (object_of ''k'' (response_200 [1]))\<lparr>obj_Data := None\<rparr>
                  else object_of ''k'' (response_200 [1]))), w')"
  by (rule stored_object_comes_back [OF _ serializeObj_def]) simp

text \<open>
  What a lookup in the store amounts to. Another goroutine may change the store between the two
  lookups of \<^verbatim>\<open>Get\<close>, so that their results are independent.
\<close>

definition found :: "gob go \<Rightarrow> object option" where
  "found r = (case r of Ret b \<Rightarrow> (case deserializeObj b of Ret o1 \<Rightarrow> Some o1 | _ \<Rightarrow> None) | _ \<Rightarrow> None)"

lemma bigcache_get_found:
  assumes "bc_Get B key s = (r, s')" and "\<forall>m. r \<noteq> Panic m"
  shows "\<exists>e. bigcache_get B key s = (case found r of Some o1 \<Rightarrow> Ret (Some o1) | None \<Rightarrow> Err e, s')"
proof (cases r)
  case (Ret b)
  then show ?thesis using assms(1) by (cases b) (simp_all add: bigcache_get_def found_def)
qed (use assms in \<open>simp_all add: bigcache_get_def found_def\<close>)

text \<open>C28. Get of the bigcache wrapper over any store, on every branch, where the two lookups may
  find different things because other goroutines ran between them: an object found by the first
  lookup is returned; otherwise a nil initializer is an error; otherwise an object found by the
  second lookup is returned, and the initializer is not run and nothing is put; otherwise the
  initializer runs on the state after both lookups, its object is returned and a put of it is
  started, and its error is passed on without a put. GetTimed has the same result and effect.\<close>

theorem bigcache_get_spec:
  assumes "bc_Get B key s = (r1, s1)" and "bc_Get B key s1 = (r2, s2)"
    and "\<forall>m. r1 \<noteq> Panic m" and "\<forall>m. r2 \<noteq> Panic m"
  shows "bigcache_Get B key init s =
    (case (found r1, init) of
       (Some o1, _) \<Rightarrow> (Ret (Some o1), s1)
     | (None, None) \<Rightarrow> (Err ErrInitializerNil, s1)
     | (None, Some f) \<Rightarrow>
         (case found r2 of
            Some o2 \<Rightarrow> (Ret (Some o2), s2)
          | None \<Rightarrow> (case f s2 of (Ret obj, s3) \<Rightarrow> (Ret obj, bc_start_put B obj s3) | failed \<Rightarrow> failed))) \<and>
    (case bigcache_GetTimed since B key init s of ((r, _, _), s') \<Rightarrow> (r, s')) = bigcache_Get B key init s"
proof -
  from bigcache_get_found [OF assms(1,3)] obtain e1 where
    g1: "bigcache_get B key s = (case found r1 of Some o1 \<Rightarrow> Ret (Some o1) | None \<Rightarrow> Err e1, s1)" by blast
  from bigcache_get_found [OF assms(2,4)] obtain e2 where
    g2: "bigcache_get B key s1 = (case found r2 of Some o1 \<Rightarrow> Ret (Some o1) | None \<Rightarrow> Err e2, s2)" by blast
  show ?thesis
    using g1 g2
    by (cases init; cases "found r1"; cases "found r2")
      (auto simp: bigcache_Get_def bigcache_GetTimed_def bigcache_initialize_def split: prod.split go.split)
qed

text \<open>
  A store to which another worker's put of the same key comes between the two lookups: the
  object it put is returned, and the initializer, which would have returned another one, is not run.
\<close>

definition ex_late_put :: "(world, unit) scheduled bigcache" where
  "ex_late_put = noisy_bigcache (\<lambda>_. run_put (\<lambda>key data. True)) (world_bigcache (\<lambda>key data. True))"

definition ex_before_put :: "(world, unit) scheduled" where
  "ex_before_put = (empty_world\<lparr>w_pending := [Some (object_of ''k'' (response_200 [1]))]\<rparr>, [[], [()]])"

lemma bigcache_get_spec_witness:
  "fst (bigcache_Get ex_late_put ''k'' (Some (\<lambda>s. (Ret (Some (object_of ''k'' (response_200 [2]))), s))) ex_before_put) =
     Ret (Some (object_of ''k'' (response_200 [1])))"
proof -
  obtain s1 where s1: "bc_Get ex_late_put ''k'' ex_before_put = (Err (Go_error ''Entry not found''), s1)"
      "s1 = (fst ex_before_put, [[()]])"
    by (simp add: ex_late_put_def ex_before_put_def noisy_bigcache_def noisy_def others_def with_stats_def
        world_bigcache_def empty_world_def)
  obtain s2 where s2: "bc_Get ex_late_put ''k'' s1 = (Ret (gob_of ''k'' (response_200 [1])), s2)"
    unfolding s1(2)
    by (simp add: ex_late_put_def ex_before_put_def noisy_bigcache_def noisy_def others_def with_stats_def
        world_bigcache_def empty_world_def run_put_def bigcache_put_def serializeObj_def object_of_def gob_of_def)
  from bigcache_get_spec [OF s1(1) s2, of "Some (\<lambda>s. (Ret (Some (object_of ''k'' (response_200 [2]))), s))" "\<lambda>s s'. 0"]
  show ?thesis by (simp add: found_def gob_of_def object_of_def)
qed

section \<open>The timed proxy\<close>

text \<open>C27. For a readable request the timed proxy does what the plain one does: with the bigcache
  wrapper both end in the same state of network, cache and client connection, whatever the clock
  shows.\<close>

theorem timed_proxy_equivalent:
  assumes "http_ReadRequest N s = (Ret req, s1)"
  shows "same_result
    (untimed (handleHttpTimed since N eof (bigcache_GetTimed since' (lift_bigcache B)) adapters targetAddr s))
    (handleHttpInternal N (bigcache_Get B) adapters targetAddr s)"
  by (rule bigcache_timed.timed_handler [OF assms])

lemma timed_proxy_equivalent_witness:
  "same_result
    (untimed (handleHttpTimed (\<lambda>w w'. int (w_next w' - w_next w)) (world_net other_origin) (Go_error ''unexpected EOF'')
       (bigcache_GetTimed (\<lambda>w w'. 1) (lift_bigcache (world_bigcache (\<lambda>key data. True))))
       [NewMinIOAdapter minio_host] (Some (server 1)) (arrive (Some ex_q) [False, True] empty_world)))
    (handleHttpInternal (world_net other_origin) (bigcache_Get (world_bigcache (\<lambda>key data. True)))
       [NewMinIOAdapter minio_host] (Some (server 1)) (arrive (Some ex_q) [False, True] empty_world))"
  by (rule timed_proxy_equivalent [where req = ex_q]) (simp add: world_net_def)

text \<open>What forwarding does to the entry.\<close>

definition flags :: "ProxyStatsEntry \<Rightarrow> int \<times> int \<times> bool \<times> bool \<times> bool \<times> string \<times> int \<times> int" where
  "flags st = (Total st, CacheRetrieve st, CacheMiss st, Forwarded st, Failed st, ObjectKey st,
     WorkerID st, ReadRequest st)"

lemma flags_update [simp]:
  "flags (st\<lparr>DialRemote := n\<rparr>) = flags st" "flags (st\<lparr>WriteRequest := n\<rparr>) = flags st"
  "flags (st\<lparr>ReadResponse := n\<rparr>) = flags st" "flags (st\<lparr>WriteResponse := n\<rparr>) = flags st"
  by (simp_all add: flags_def)

lemma forwardTimed_flags:
  "flags (snd (snd (forwardTimed since N targetAddr req (s, st)))) = flags st"
proof -
  obtain r1 s1 where d: "dial_target N targetAddr s = (r1, s1)" by fastforce
  show ?thesis
  proof (cases r1)
    case (Ret c)
    obtain r2 s2 where w: "req_Write N c req s1 = (r2, s2)" by fastforce
    obtain r3 s3 where h: "http_ReadResponse N c s2 = (r3, s3)" by fastforce
    have tail: "flags (snd (snd (case ignoring (with_stats st' x) (\<lambda>(s4, st). (Ret (), (s4, st\<lparr>WriteResponse := g s4\<rparr>)))
        of (r, (s5, st5)) \<Rightarrow> (r, (target_Close N c s5, st5))))) = flags st'" for st' g and x :: "unit go \<times> 'a"
      by (cases x; cases "fst x") auto
    show ?thesis
      unfolding forwardTimed_def
      by (cases r2; cases r3) (simp_all add: d Ret w h tail)
  next
    case (Err e)
    obtain r2 s2 where "conn_Write N (Line service_unavailable) s1 = (r2, s2)" by fastforce
    then show ?thesis
      by (cases r2) (simp_all add: forwardTimed_def d Err)
  qed (simp add: forwardTimed_def d)
qed

lemma ignored_request_not_marked:
  assumes "http_ReadRequest N s = (Ret req, s1)" and "\<not> fst (shouldIntercept adapters req)"
    and "handleHttpTimed since N eof GetTimed adapters targetAddr s = (r, (s2, st))"
  shows "\<not> Forwarded st \<and> \<not> CacheMiss st \<and> \<not> Failed st \<and> ObjectKey st = [] \<and> Total st = 0 \<and>
    ReadRequest st = since s s1"
proof -
  obtain j where a: "shouldIntercept adapters req = (False, j)"
    using assms(2) by (cases "shouldIntercept adapters req") simp
  let ?st = "no_stats\<lparr>ReadRequest := since s s1\<rparr>"
  have "flags st = flags ?st"
    using assms(3) forwardTimed_flags [of since N targetAddr req s1 ?st]
    by (auto simp: handleHttpTimed_def assms(1) handleRequestTimed_def a split: prod.splits)
  then show ?thesis by (simp add: flags_def no_stats_def)
qed

lemma fetched_request_times:
  assumes "minio_ShouldIntercept host q" and "res_status (origin a q) = StatusOK"
    and "w_entries w (minio_ExtractObjectKey q) = None"
  shows "\<exists>w' st. handleHttpTimed since (world_net origin) eof
      (bigcache_GetTimed since' (lift_bigcache (world_bigcache fits))) [NewMinIOAdapter host] (Some a)
      (arrive (Some q) [] w) = (Ret (), (w', st)) \<and>
    ReadRequest st = 0 \<and> Total st = 0 \<and> \<not> Forwarded st \<and> \<not> Failed st \<and>
    ObjectKey st = minio_ExtractObjectKey q \<and> CacheMiss st = (0 < Initialize st)"
proof -
  let ?w = "arrive (Some q) [] w"
  have rd: "http_ReadRequest (world_net origin) ?w = (Ret q, ?w)" by (simp add: world_net_def)
  let ?key = "minio_ExtractObjectKey q"
  let ?st = "no_stats\<lparr>ReadRequest := since ?w ?w, ObjectKey := ?key\<rparr>"
  have "\<exists>w1 st1. retrieveObjectFromRemoteTimed since (world_net origin) q (Some a) ?key (?w, ?st) =
      (Ret (Some (object_of ?key (origin a q))), (w1, st1)) \<and> w_faults w1 = [] \<and>
      ReadRequest st1 = 0 \<and> flags (st1\<lparr>ReadRequest := 0\<rparr>) = flags (?st\<lparr>ReadRequest := 0\<rparr>)"
    using assms(2)
    by (simp add: retrieveObjectFromRemoteTimed_def dial_target_def world_ops unless_fault_ok
        head_of_def response_head.truncate_def object_of_def flags_def)
  then obtain w1 st1 where r:
      "retrieveObjectFromRemoteTimed since (world_net origin) q (Some a) ?key (?w, ?st) =
        (Ret (Some (object_of ?key (origin a q))), (w1, st1))"
    and w1: "w_faults w1 = []" "ReadRequest st1 = 0"
    and fl: "flags (st1\<lparr>ReadRequest := 0\<rparr>) = flags (?st\<lparr>ReadRequest := 0\<rparr>)"
    by blast
  from fl have st1: "Total st1 = 0" "\<not> Forwarded st1" "\<not> Failed st1" "ObjectKey st1 = ?key"
    by (auto simp: flags_def no_stats_def)
  show ?thesis
    using r w1 st1 assms(3)
    by (simp add: handleHttpTimed_def rd handleRequestTimed_def world_intercept [OF assms(1)] Let_def
        bigcache_GetTimed_def bigcache_initialize_def lift_bigcache_get lift_bigcache_put world_lookup)
      (simp add: world_net_def world_bigcache_def unless_fault_ok)
qed

lemma fetched_request_times_witness:
  "\<exists>w' st. handleHttpTimed (\<lambda>w w'. 5) (world_net same_origin) (Go_error ''unexpected EOF'')
      (bigcache_GetTimed (\<lambda>w w'. 9) (lift_bigcache (world_bigcache (\<lambda>key data. True))))
      [NewMinIOAdapter minio_host] (Some (server 1)) (arrive (Some ex_q) [] empty_world) = (Ret (), (w', st)) \<and>
    ReadRequest st = 0 \<and> Total st = 0 \<and> \<not> Forwarded st \<and> \<not> Failed st \<and>
    ObjectKey st = minio_ExtractObjectKey ex_q \<and> CacheMiss st = (0 < Initialize st)"
  by (rule fetched_request_times) (simp_all add: same_origin_def empty_world_def)

section \<open>A nil address\<close>

text \<open>C32. When the raw connection cannot be had, handleConnection hands the nil address on, and
  HandleHttp panics on it for every readable request it does not intercept; only
  handleConnectionTimed gives up.\<close>

theorem nil_address_crashes:
  assumes "http_ReadRequest N s = (Ret q, s1)" and "\<not> fst (shouldIntercept adapters q)"
  shows "snd (handleConnection False (getOriginalTargetFromConn (Some err) ctl sys)) = Handle_http None \<and>
    fst (handleHttpInternal N Get adapters None s) = Panic ''nil pointer dereference'' \<and>
    snd (handleConnectionTimed bypass (getOriginalTargetFromConn (Some err) ctl sys)) = Give_up"
proof -
  obtain j where "shouldIntercept adapters q = (False, j)"
    using assms(2) by (cases "shouldIntercept adapters q") simp
  then show ?thesis
    by (simp add: handleHttpInternal_def assms(1) handleRequest_def forward_def dial_target_def
        handleConnection_def handleConnectionTimed_def getOriginalTargetFromConn_def)
qed

lemma nil_address_crashes_witness:
  "snd (handleConnection False (getOriginalTargetFromConn (Some (Errno 9)) True (\<lambda>b. (0, b)))) = Handle_http None \<and>
   fst (handleHttpInternal (world_net same_origin) (bigcache_Get (world_bigcache (\<lambda>key data. True)))
     [NewMinIOAdapter minio_host] None (arrive (Some (ex_get ''/b'' [])) [] empty_world)) =
   Panic ''nil pointer dereference'' \<and>
   snd (handleConnectionTimed True (getOriginalTargetFromConn (Some (Errno 9)) True (\<lambda>b. (0, b)))) = Give_up"
proof (rule nil_address_crashes)
  show "http_ReadRequest (world_net same_origin) (arrive (Some (ex_get ''/b'' [])) [] empty_world) =
      (Ret (ex_get ''/b'' []), arrive (Some (ex_get ''/b'' [])) [] empty_world)"
    by (simp add: world_net_def)
  show "\<not> fst (shouldIntercept [NewMinIOAdapter minio_host] (ex_get ''/b'' []))" by code_simp
qed

end
