(* ===== verification/Connection.thy ===== *)
theory Connection
  imports Program_Properties Proxy_Properties
begin

text \<open>
  One connection from end to end: the destination the client asked for comes back through the
  eBPF programs and the system call, and the handler of \<^verbatim>\<open>main.go\<close> passes it to the caching
  proxy, which answers for that server.
\<close>

section \<open>The destination the handler sees\<close>

lemma target_of_answer:
  assumes "length buf = 16" and "buf' = write_sockaddr_in e f (htons e p) a buf"
    and "sys (replicate 16 0) = (0, buf')"
  shows "getOriginalTargetFromConn None True sys =
    ([], Some \<lparr>IP = net_IPv4 (store32 e a ! 0) (store32 e a ! 1) (store32 e a ! 2) (store32 e a ! 3),
              Port = uint p\<rparr>, None)"
proof -
  obtain b0 b1 b2 b3 where a: "store32 e a = [b0, b1, b2, b3]"
    using store32_bytes by metis
  obtain f0 f1 where f: "store16 e f = [f0, f1]"
    using store16_bytes by metis
  from assms(2) have "buf' = [f0, f1, ucast (drop_bit 8 p), ucast p, b0, b1, b2, b3] @ drop 8 buf"
    by (simp add: write_sockaddr_in_def a f store16_htons)
  with assms(3) a show ?thesis
    by (simp add: getOriginalTargetFromConn_def getsockopt_def sockaddr_of_bytes_def big_endian_port)
qed

text \<open>The address in a connect() call as the Go program represents it.\<close>

definition requested_address :: "bpf_sock_addr \<Rightarrow> TCPAddr" where
  "requested_address ctx =
     \<lparr>IP = net_IPv4 (store32 LE (user_ip4 ctx) ! 0) (store32 LE (user_ip4 ctx) ! 1)
                    (store32 LE (user_ip4 ctx) ! 2) (store32 LE (user_ip4 ctx) ! 3),
      Port = 9000\<rparr>"

lemma target_recovered:
  assumes "bpf_kernel_full K ok obs cookie cp" and "ok k"
    and "intercepted LE (v_config (obs k)) h ctx"
    and "accepts (v_socks (obs k)) (cookie (sk_id h))"
    and "\<forall>q. v_ports (obs k) q \<noteq> Some (cookie (sk_id h))"
    and "family ops = AF_INET" and "op ops = BPF_SOCK_OPS_ACTIVE_ESTABLISHED_CB"
    and "list_all (foreign LE cookie (cookie (sk_id h)) (ucast (local_port ops))) (evs1 @ evs2)"
    and "accepts (v_ports (obs (run LE K k (Connect h ctx # evs1)))) (ucast (local_port ops))"
    and "is_query q" and "ntohs LE (sk_dst_port (sk q)) = ucast (local_port ops)"
    and buf: "optval q = replicate 16 0"
    and sys: "let q' = snd (snd (cg_sock_opt LE K (run LE K k (life h ctx evs1 ops evs2)) q))
              in retval q' = 0 \<longrightarrow> sys (replicate 16 0) = (0, optval q')"
  shows "getOriginalTargetFromConn None True sys = ([], Some (requested_address ctx), None)"
proof -
  let ?s = "remembered LE ctx"
  obtain k' where "cg_sock_opt LE K (run LE K k (life h ctx evs1 ops evs2)) q = (1, k', answer LE ?s q)"
    using bpf_kernel_full.life_recovered [OF assms(1-11)] by blast
  with sys have "sys (replicate 16 0) = (0, optval (answer LE ?s q))"
    by (simp add: answer_def)
  then show ?thesis
    using target_of_answer [of "optval q" "optval (answer LE ?s q)" LE 2 "dst_port ?s" "htonl LE (dst_addr ?s)" sys]
      buf remembered_port_LE [OF assms(3)] by (simp add: answer_def requested_address_def)
qed

section \<open>The whole handler\<close>

text \<open>
  \<^verbatim>\<open>handleConnection\<close> with the calls it makes: the plain caching proxy, or in bypass mode the
  forwarder, whose effect on the network is the parameter \<open>fwd\<close>.
\<close>

definition handleConnection_run ::
  "'s net \<Rightarrow> (string \<Rightarrow> 's initializer option \<Rightarrow> 's \<Rightarrow> object option go \<times> 's) \<Rightarrow> adapter list \<Rightarrow>
     (TCPAddr option \<Rightarrow> 's \<Rightarrow> unit go \<times> 's) \<Rightarrow> bool \<Rightarrow>
     (string \<times> go_error) list \<times> TCPAddr option \<times> go_error option \<Rightarrow> 's \<Rightarrow> unit go \<times> 's" where
  "handleConnection_run N Get adapters fwd bypass target s =
     (case snd (handleConnection bypass target) of
        Handle_http addr \<Rightarrow> handleHttpInternal N Get adapters addr s
      | Forward_raw addr \<Rightarrow> fwd addr s
      | Give_up \<Rightarrow> (Ret (), s))"

lemma handleConnection_run_http:
  "handleConnection_run N Get adapters fwd False (log, addr, None) s =
     handleHttpInternal N Get adapters addr s"
  by (simp add: handleConnection_run_def handleConnection_def)

context caching_proxy begin

lemma handleConnection_serves:
  assumes "ok s" and "http_ReadRequest N s = (Ret rq, s1)"
  shows "\<exists>s' ms. handleConnection_run N Get adapters fwd False (log, Some a, None) s = (Ret (), s') \<and>
    ok s' \<and> out s' = out s @ ms \<and> answered (answers a rq) ms"
  using handler_transparent [OF assms, of a]
  by (cases "handleHttpInternal N Get adapters (Some a) s")
    (auto simp: serves_def handleConnection_run_http)

end

section \<open>The concrete client's system call\<close>

definition ex_sys :: "u8 list \<Rightarrow> nat \<times> u8 list" where
  "ex_sys buf =
     (let q' = snd (snd (cg_sock_opt LE slot_kernel
                 (run LE slot_kernel ex_state (life ex_hook ex_addr ex_other ex_ops ex_other)) ex_query))
      in if retval q' = 0 then (0, optval q') else (2, buf))"

lemma ex_sys_answers:
  "let q' = snd (snd (cg_sock_opt LE slot_kernel
                 (run LE slot_kernel ex_state (life ex_hook ex_addr ex_other ex_ops ex_other)) ex_query))
   in retval q' = 0 \<longrightarrow> ex_sys (replicate 16 0) = (0, optval q')"
  by (simp add: ex_sys_def Let_def)

end
