(* ===== verification/Worker_Pool.thy ===== *)
theory Worker_Pool
  imports Go_Target
begin

text \<open>
  The concurrent part of \<^verbatim>\<open>run\<close> in \<^verbatim>\<open>main.go\<close>: the accept loop, the job queue, the workers, the
  goroutines that collect the results, and the connection counter, as a transition system with
  one step per communication or locked section; and \<^verbatim>\<open>forwardConnection\<close>, whose goroutines may
  block.
\<close>

section \<open>Forwarding a connection\<close>

text \<open>
  How the dial and the two copies of a connection end. The copy from the client runs in a
  goroutine, which announces its end on an unbuffered channel only if it had no error; the
  handler waits for the announcement only if the copy to the client had no error. Of the address
  only matters whether it is nil, the value a failed \<^verbatim>\<open>getOriginalTargetFromConn\<close> leaves: calling its
  \<^verbatim>\<open>String\<close> method then panics, and the dial is not reached.
\<close>

datatype thread_end = Returns | Blocks | Panics

record fate =
  target_nil :: bool
  dial_error :: "go_error option"
  to_target :: "go_error option"
  to_client :: "go_error option"

definition forwardConnection :: "fate \<Rightarrow> thread_end \<times> thread_end option" where
  "forwardConnection f =
     (if target_nil f then (Panics, None)
      else
        (case dial_error f of
           Some err \<Rightarrow> (Returns, None)
         | None \<Rightarrow>
            (case to_client f of
               Some err \<Rightarrow> (Returns, Some (if to_target f = None then Blocks else Returns))
             | None \<Rightarrow>
                (case to_target f of
                   None \<Rightarrow> (Returns, Some Returns)
                 | Some err \<Rightarrow> (Blocks, Some Returns)))))"

section \<open>The state of the pool\<close>

text \<open>
  A job is a connection and its number. A worker waits for a job, handles one, or has a result
  to send. The accept loop waits in \<^verbatim>\<open>Accept\<close>, has accepted a connection, has counted it, or
  has sent it to the queue and not yet started the goroutine that will collect its result. A
  collector waits for a result, or has received one and not yet updated the counter.
\<close>

type_synonym 'c job = "'c \<times> nat"

datatype ('c, 'r) worker = Waiting | Handling "'c job" | Reporting 'r

datatype 'c acceptor = Accepting | Accepted 'c | Counted 'c | Queued

record ('c, 'r) pool =
  acceptor :: "'c acceptor"
  jobIndex :: nat
  jobQueue :: "'c job list"
  workers :: "('c, 'r) worker list"
  done_queue :: "'r list"
  collectors :: nat
  received :: "'r list"
  connections :: int
  collectedStats :: "'r list"

definition initial_pool :: "nat \<Rightarrow> ('c, 'r) pool" where
  "initial_pool W =
     \<lparr>acceptor = Accepting, jobIndex = 0, jobQueue = [], workers = replicate W Waiting, done_queue = [],
      collectors = 0, received = [], connections = 0, collectedStats = []\<rparr>"

section \<open>Steps\<close>

text \<open>
  \<open>cap\<close> is the capacity of both channels, \<open>handles c r\<close> says that the handler of the connection
  may return \<open>r\<close>. Accepting is the environment's step; a failed accept changes nothing.
\<close>

inductive pool_step ::
  "nat \<Rightarrow> ('c \<Rightarrow> 'r \<Rightarrow> bool) \<Rightarrow> ('c, 'r) pool \<Rightarrow> ('c, 'r) pool \<Rightarrow> bool" for cap handles where
  count: "acceptor s = Accepted c \<Longrightarrow>
    pool_step cap handles s (s\<lparr>acceptor := Counted c, connections := connections s + 1\<rparr>)"
| enqueue: "acceptor s = Counted c \<Longrightarrow> length (jobQueue s) < cap \<Longrightarrow>
    pool_step cap handles s
      (s\<lparr>acceptor := Queued, jobIndex := jobIndex s + 1, jobQueue := jobQueue s @ [(c, jobIndex s + 1)]\<rparr>)"
| start_collector: "acceptor s = Queued \<Longrightarrow>
    pool_step cap handles s (s\<lparr>acceptor := Accepting, collectors := collectors s + 1\<rparr>)"
| take_job: "i < length (workers s) \<Longrightarrow> workers s ! i = Waiting \<Longrightarrow> jobQueue s = j # js \<Longrightarrow>
    pool_step cap handles s (s\<lparr>jobQueue := js, workers := (workers s)[i := Handling j]\<rparr>)"
| handled: "i < length (workers s) \<Longrightarrow> workers s ! i = Handling (c, n) \<Longrightarrow> handles c r \<Longrightarrow>
    pool_step cap handles s (s\<lparr>workers := (workers s)[i := Reporting r]\<rparr>)"
| report: "i < length (workers s) \<Longrightarrow> workers s ! i = Reporting r \<Longrightarrow> length (done_queue s) < cap \<Longrightarrow>
    pool_step cap handles s (s\<lparr>workers := (workers s)[i := Waiting], done_queue := done_queue s @ [r]\<rparr>)"
| collect: "0 < collectors s \<Longrightarrow> done_queue s = r # rs \<Longrightarrow>
    pool_step cap handles s (s\<lparr>collectors := collectors s - 1, done_queue := rs, received := r # received s\<rparr>)"
| uncount: "received s = xs @ r # ys \<Longrightarrow>
    pool_step cap handles s
      (s\<lparr>received := xs @ ys, connections := connections s - 1, collectedStats := collectedStats s @ [r]\<rparr>)"

inductive accept_step :: "('c, 'r) pool \<Rightarrow> ('c, 'r) pool \<Rightarrow> bool" where
  accept_ok: "acceptor s = Accepting \<Longrightarrow> accept_step s (s\<lparr>acceptor := Accepted c\<rparr>)"
| accept_failed: "acceptor s = Accepting \<Longrightarrow> accept_step s s"

inductive pool_reach :: "nat \<Rightarrow> nat \<Rightarrow> ('c \<Rightarrow> 'r \<Rightarrow> bool) \<Rightarrow> ('c, 'r) pool \<Rightarrow> bool" for W cap handles where
  start: "pool_reach W cap handles (initial_pool W)"
| internal: "pool_reach W cap handles s \<Longrightarrow> pool_step cap handles s s' \<Longrightarrow> pool_reach W cap handles s'"
| environment: "pool_reach W cap handles s \<Longrightarrow> accept_step s s' \<Longrightarrow> pool_reach W cap handles s'"

lemma pool_step_mono:
  "pool_step cap h p p' \<Longrightarrow> (\<And>c r. h c r \<Longrightarrow> h' c r) \<Longrightarrow> pool_step cap h' p p'"
  by (induction rule: pool_step.induct) (blast intro: pool_step.intros)+

inductive_cases pool_stepE: "pool_step cap handles s s'"
inductive_cases accept_stepE: "accept_step s s'"

section \<open>Counting\<close>

fun busy :: "('c, 'r) worker \<Rightarrow> nat" where
  "busy Waiting = 0"
| "busy (Handling j) = 1"
| "busy (Reporting r) = 1"

fun handled_ids :: "('c, 'r) worker \<Rightarrow> nat list" where
  "handled_ids (Handling (c, n)) = [n]"
| "handled_ids _ = []"

definition busy_workers :: "('c, 'r) pool \<Rightarrow> nat" where
  "busy_workers s = sum_list (map busy (workers s))"

text \<open>Connections the accept loop has sent to the queue whose result no collector has received.\<close>

definition outstanding :: "('c, 'r) pool \<Rightarrow> nat" where
  "outstanding s = length (jobQueue s) + busy_workers s + length (done_queue s)"

fun being_counted :: "'c acceptor \<Rightarrow> nat" where
  "being_counted (Counted c) = 1"
| "being_counted _ = 0"

fun being_queued :: "'c acceptor \<Rightarrow> nat" where
  "being_queued Queued = 1"
| "being_queued _ = 0"

text \<open>
  The invariant: the channels keep their bounds; the counter is the number of connections on
  their way through the pool; every outstanding result has its collector, except one whose
  collector is about to be started; the queue holds the latest jobs in order; no two workers
  handle one job, and none that is still queued.
\<close>

definition bounds_ok :: "nat \<Rightarrow> nat \<Rightarrow> ('c, 'r) pool \<Rightarrow> bool" where
  "bounds_ok W cap s \<longleftrightarrow>
     length (workers s) = W \<and> length (jobQueue s) \<le> cap \<and> length (done_queue s) \<le> cap"

definition counters_ok :: "('c, 'r) pool \<Rightarrow> bool" where
  "counters_ok s \<longleftrightarrow>
     connections s = int (outstanding s + length (received s) + being_counted (acceptor s)) \<and>
     collectors s + being_queued (acceptor s) = outstanding s \<and>
     jobIndex s = outstanding s + length (received s) + length (collectedStats s)"

definition order_ok :: "('c, 'r) pool \<Rightarrow> bool" where
  "order_ok s \<longleftrightarrow>
     (\<exists>k. jobIndex s = k + length (jobQueue s) \<and>
        map snd (jobQueue s) = [Suc k ..< Suc (k + length (jobQueue s))] \<and>
        distinct (concat (map handled_ids (workers s))) \<and>
        set (concat (map handled_ids (workers s))) \<subseteq> {1..k})"

definition pool_ok :: "nat \<Rightarrow> nat \<Rightarrow> ('c, 'r) pool \<Rightarrow> bool" where
  "pool_ok W cap s \<longleftrightarrow> bounds_ok W cap s \<and> counters_ok s \<and> order_ok s"

lemma sum_list_map_update:
  fixes f :: "'a \<Rightarrow> 'b::comm_monoid_add"
  shows "i < length ws \<Longrightarrow> sum_list (map f (ws[i := w])) + f (ws ! i) = sum_list (map f ws) + f w"
proof (induction ws arbitrary: i)
  case (Cons v ws)
  then show ?case by (cases i) (auto simp: ac_simps)
qed simp

section \<open>The invariant\<close>

abbreviation ids :: "('c, 'r) worker list \<Rightarrow> nat list" where
  "ids ws \<equiv> concat (map handled_ids ws)"

lemma ids_split:
  assumes "i < length ws"
  shows "ids ws = ids (take i ws) @ handled_ids (ws ! i) @ ids (drop (Suc i) ws)"
    and "ids (ws[i := w]) = ids (take i ws) @ handled_ids w @ ids (drop (Suc i) ws)"
proof -
  have "map handled_ids ws = map handled_ids (take i ws @ ws ! i # drop (Suc i) ws)"
    by (simp only: id_take_nth_drop [OF assms, symmetric])
  then show "ids ws = ids (take i ws) @ handled_ids (ws ! i) @ ids (drop (Suc i) ws)" by simp
  show "ids (ws[i := w]) = ids (take i ws) @ handled_ids w @ ids (drop (Suc i) ws)"
    by (simp add: upd_conv_take_nth_drop [OF assms])
qed

text \<open>A worker that goes on without taking a job drops at most the number it had.\<close>

lemma ids_drop:
  assumes "i < length ws" and "handled_ids w = []"
  shows "set (ids (ws[i := w])) \<subseteq> set (ids ws)" and "distinct (ids ws) \<Longrightarrow> distinct (ids (ws[i := w]))"
  unfolding ids_split [OF assms(1)] assms(2) by auto

lemma ids_take:
  assumes "i < length ws" and "ws ! i = Waiting" and "distinct (ids ws)" and "n \<notin> set (ids ws)"
  shows "set (ids (ws[i := Handling (c, n)])) = insert n (set (ids ws))"
    and "distinct (ids (ws[i := Handling (c, n)]))"
proof -
  have "ids ws = ids (take i ws) @ ids (drop (Suc i) ws)" using ids_split(1) [OF assms(1)] assms(2) by simp
  moreover have "ids (ws[i := Handling (c, n)]) = ids (take i ws) @ n # ids (drop (Suc i) ws)"
    using ids_split(2) [OF assms(1)] by simp
  ultimately show "set (ids (ws[i := Handling (c, n)])) = insert n (set (ids ws))"
    "distinct (ids (ws[i := Handling (c, n)]))"
    using assms(3,4) by auto
qed

lemma initial_pool_ok: "pool_ok W cap (initial_pool W)"
  by (simp add: pool_ok_def bounds_ok_def counters_ok_def order_ok_def initial_pool_def outstanding_def
      busy_workers_def sum_list_replicate)

lemma accept_step_ok: "accept_step s s' \<Longrightarrow> pool_ok W cap s \<Longrightarrow> pool_ok W cap s'"
  by (erule accept_stepE)
    (auto simp: pool_ok_def bounds_ok_def counters_ok_def order_ok_def outstanding_def busy_workers_def)

lemma pool_step_bounds: "pool_step cap handles s s' \<Longrightarrow> bounds_ok W cap s \<Longrightarrow> bounds_ok W cap s'"
  by (induction rule: pool_step.induct) (auto simp: bounds_ok_def)

lemma busy_change:
  "i < length (workers s) \<Longrightarrow>
     busy_workers (s\<lparr>workers := (workers s)[i := w]\<rparr>) + busy (workers s ! i) = busy_workers s + busy w"
  by (simp add: busy_workers_def sum_list_map_update)

lemma pool_step_counters: "pool_step cap handles s s' \<Longrightarrow> counters_ok s \<Longrightarrow> counters_ok s'"
proof (induction rule: pool_step.induct)
  case (take_job i s j js)
  with busy_change [OF take_job(1), of "Handling j"] show ?case
    by (simp add: counters_ok_def outstanding_def busy_workers_def)
next
  case (handled i s c n r)
  with busy_change [OF handled(1), of "Reporting r"] show ?case
    by (simp add: counters_ok_def outstanding_def busy_workers_def)
next
  case (report i s r)
  with busy_change [OF report(1), of Waiting] show ?case
    by (simp add: counters_ok_def outstanding_def busy_workers_def)
qed (auto simp: counters_ok_def outstanding_def busy_workers_def)

lemma order_okI:
  assumes "jobIndex s = k + length (jobQueue s)"
    and "map snd (jobQueue s) = [Suc k ..< Suc (k + length (jobQueue s))]"
    and "distinct (ids (workers s))" and "set (ids (workers s)) \<subseteq> {1..k}"
  shows "order_ok s"
  using assms unfolding order_ok_def by blast

lemma order_drop:
  assumes "order_ok s" and "i < length (workers s)" and "handled_ids w = []"
    and "workers s' = (workers s)[i := w]" and "jobQueue s' = jobQueue s" and "jobIndex s' = jobIndex s"
  shows "order_ok s'"
  using assms ids_drop [OF assms(2,3)] unfolding order_ok_def by (metis subset_trans)

lemma order_same:
  "order_ok s \<Longrightarrow> workers s' = workers s \<Longrightarrow> jobQueue s' = jobQueue s \<Longrightarrow> jobIndex s' = jobIndex s \<Longrightarrow> order_ok s'"
  unfolding order_ok_def by simp

lemma pool_step_order: "pool_step cap handles s s' \<Longrightarrow> order_ok s \<Longrightarrow> order_ok s'"
proof (induction rule: pool_step.induct)
  case (enqueue s c)
  then obtain k where "jobIndex s = k + length (jobQueue s)"
      "map snd (jobQueue s) = [Suc k ..< Suc (k + length (jobQueue s))]"
      "distinct (ids (workers s))" "set (ids (workers s)) \<subseteq> {1..k}"
    unfolding order_ok_def by blast
  then show ?case by (intro order_okI [of _ k]) auto
next
  case (take_job i s j js)
  then obtain k where k: "jobIndex s = k + Suc (length js)"
      "snd j # map snd js = [Suc k ..< Suc (Suc (k + length js))]"
      "distinct (ids (workers s))" "set (ids (workers s)) \<subseteq> {1..k}"
    unfolding order_ok_def by auto
  then have j: "snd j = Suc k" "map snd js = [Suc (Suc k) ..< Suc (Suc k + length js)]"
    by (simp_all add: upt_conv_Cons del: upt_Suc)
  from k(4) have "Suc k \<notin> set (ids (workers s))" by auto
  moreover obtain c where "j = (c, Suc k)" using j(1) by (cases j) simp
  ultimately have n: "set (ids ((workers s)[i := Handling j])) = insert (Suc k) (set (ids (workers s)))"
    "distinct (ids ((workers s)[i := Handling j]))"
    by (simp_all only: ids_take [OF take_job(1,2) k(3)] not_False_eq_True)
  from k(4) have "insert (Suc k) (set (ids (workers s))) \<subseteq> {1..Suc k}" by auto
  then have "set (ids ((workers s)[i := Handling j])) \<subseteq> {1..Suc k}" by (simp only: n)
  moreover have "jobIndex s = Suc k + length js" using k(1) by simp
  moreover let ?s = "s\<lparr>jobQueue := js, workers := (workers s)[i := Handling j]\<rparr>"
  have "workers ?s = (workers s)[i := Handling j]" "jobQueue ?s = js" "jobIndex ?s = jobIndex s"
    by simp_all
  ultimately show ?case using j(2) n(2) by (intro order_okI [where k = "Suc k"]) (simp_all only:)
next
  case (handled i s c n r)
  show ?case by (rule order_drop [of s i "Reporting r"]) (use handled in simp_all)
next
  case (report i s r)
  show ?case by (rule order_drop [of s i Waiting]) (use report in simp_all)
qed (auto intro: order_same)

lemma pool_reach_ok: "pool_reach W cap handles s \<Longrightarrow> pool_ok W cap s"
proof (induction rule: pool_reach.induct)
  case (internal s s')
  then show ?case
    unfolding pool_ok_def using pool_step_bounds pool_step_counters pool_step_order by blast
qed (simp_all add: initial_pool_ok accept_step_ok)

section \<open>Progress\<close>

text \<open>Every internal step brings some connection closer to being uncounted.\<close>

fun acceptor_weight :: "'c acceptor \<Rightarrow> nat" where
  "acceptor_weight Accepting = 0"
| "acceptor_weight (Accepted c) = 8"
| "acceptor_weight (Counted c) = 7"
| "acceptor_weight Queued = 1"

fun worker_weight :: "('c, 'r) worker \<Rightarrow> nat" where
  "worker_weight Waiting = 0"
| "worker_weight (Handling j) = 4"
| "worker_weight (Reporting r) = 3"

definition pool_weight :: "('c, 'r) pool \<Rightarrow> nat" where
  "pool_weight s =
     acceptor_weight (acceptor s) + 5 * length (jobQueue s) + sum_list (map worker_weight (workers s)) +
     2 * length (done_queue s) + length (received s)"

lemma pool_step_weight: "pool_step cap handles s s' \<Longrightarrow> pool_weight s' < pool_weight s"
proof (induction rule: pool_step.induct)
  case (take_job i s j js)
  with sum_list_map_update [OF take_job(1), of worker_weight "Handling j"] show ?case
    by (simp add: pool_weight_def)
next
  case (handled i s c n r)
  with sum_list_map_update [OF handled(1), of worker_weight "Reporting r"] show ?case
    by (simp add: pool_weight_def)
next
  case (report i s r)
  with sum_list_map_update [OF report(1), of worker_weight Waiting] show ?case
    by (simp add: pool_weight_def)
qed (simp_all add: pool_weight_def)

lemma pool_run_length: "(pool_step cap handles ^^ n) s s' \<Longrightarrow> n + pool_weight s' \<le> pool_weight s"
proof (induction n arbitrary: s')
  case (Suc n)
  then obtain t where "(pool_step cap handles ^^ n) s t" "pool_step cap handles t s'" by auto
  with Suc.IH [of t] pool_step_weight [of cap handles t s'] show ?case by simp
qed simp

lemma collector_present:
  assumes "pool_ok W cap s" and "acceptor s \<noteq> Queued" and "done_queue s \<noteq> []"
  shows "\<exists>s'. pool_step cap handles s s'"
proof -
  have "being_queued (acceptor s) = 0" using assms(2) by (cases "acceptor s") simp_all
  moreover have "0 < outstanding s" using assms(3) by (simp add: outstanding_def)
  ultimately have "0 < collectors s" using assms(1) by (simp add: pool_ok_def counters_ok_def)
  with assms(3) pool_step.collect [of s _ _ cap handles] show ?thesis by (cases "done_queue s") blast+
qed

lemma all_waiting_idle: "\<forall>i < length ws. ws ! i = Waiting \<Longrightarrow> sum_list (map busy ws) = 0"
  by (auto simp: in_set_conv_nth)

text \<open>
  Where no step is left but the return of a handler, nothing is on its way to the counter, and
  if a worker is free, nothing is on its way to the workers.
\<close>

lemma pool_stuck:
  assumes ok: "pool_ok W cap s" and cap: "0 < cap"
    and stuck: "\<nexists>s'. pool_step cap (\<lambda>c r. False) s s'"
  shows "received s = []" and "done_queue s = []"
    and "i < length (workers s) \<Longrightarrow> workers s ! i = Waiting \<or> (\<exists>c n. workers s ! i = Handling (c, n))"
    and "i < length (workers s) \<Longrightarrow> workers s ! i = Waiting \<Longrightarrow> jobQueue s = [] \<and> acceptor s = Accepting"
proof -
  let ?no = "\<lambda>c r. False"
  have acc: "acceptor s \<noteq> Queued" "acceptor s \<noteq> Accepted c" for c
    using stuck pool_step.start_collector [of s cap ?no] pool_step.count [of s c cap ?no] by blast+
  show "received s = []"
  proof (rule ccontr)
    assume "received s \<noteq> []"
    then obtain r rs where "received s = [] @ r # rs" by (cases "received s") auto
    from pool_step.uncount [OF this, of cap ?no] stuck show False by blast
  qed
  show done_nil: "done_queue s = []" using collector_present [OF ok acc(1)] stuck by blast
  show "workers s ! i = Waiting \<or> (\<exists>c n. workers s ! i = Handling (c, n))" if "i < length (workers s)" for i
    using that stuck done_nil cap pool_step.report [of i s _ cap ?no] by (cases "workers s ! i") auto
  assume i: "i < length (workers s)" "workers s ! i = Waiting"
  have jobs: "jobQueue s = []"
    using stuck i pool_step.take_job [OF i, of _ _ cap ?no] by (cases "jobQueue s") blast+
  have "acceptor s \<noteq> Counted c" for c
    using stuck pool_step.enqueue [of s c cap ?no] jobs cap by auto
  with acc jobs show "jobQueue s = [] \<and> acceptor s = Accepting" by (cases "acceptor s") auto
qed

lemma pool_progress:
  assumes ok: "pool_ok W cap s" and W: "0 < W" and cap: "0 < cap" and h: "\<forall>c. \<exists>r. handles c r"
    and stuck: "\<nexists>s'. pool_step cap handles s s'"
  shows "acceptor s = Accepting \<and> connections s = 0 \<and> jobIndex s = length (collectedStats s)"
proof -
  have stuck': "\<nexists>s'. pool_step cap (\<lambda>c r. False) s s'" using stuck pool_step_mono by blast
  note idle = pool_stuck [OF ok cap stuck']
  have len: "length (workers s) = W" using ok by (simp add: pool_ok_def bounds_ok_def)
  have waiting: "\<forall>i < length (workers s). workers s ! i = Waiting"
    using idle(3) h stuck pool_step.handled [of _ s _ _ handles _ cap] by metis
  with len W idle(4) [of 0] have acc: "jobQueue s = []" "acceptor s = Accepting" by simp_all
  with idle(2) all_waiting_idle [OF waiting] have "outstanding s = 0"
    by (simp add: outstanding_def busy_workers_def)
  with acc idle(1) ok show ?thesis by (simp add: pool_ok_def counters_ok_def)
qed

lemma pool_steps_ok: "(pool_step cap handles)\<^sup>*\<^sup>* s s' \<Longrightarrow> pool_ok W cap s \<Longrightarrow> pool_ok W cap s'"
  by (induction rule: rtranclp_induct)
    (auto simp: pool_ok_def intro: pool_step_bounds pool_step_counters pool_step_order)

section \<open>Properties\<close>

definition ex_returns :: "nat \<Rightarrow> int \<Rightarrow> bool" where
  "ex_returns c r \<longleftrightarrow> r = 0"

definition ex_pool :: "'c \<Rightarrow> ('c, 'r) pool" where
  "ex_pool c = (initial_pool MAX_WORKERS)\<lparr>acceptor := Counted c, connections := 1\<rparr>"

definition ex_pool' :: "'c \<Rightarrow> ('c, 'r) pool" where
  "ex_pool' c = (ex_pool c)\<lparr>acceptor := Queued, jobIndex := 1, jobQueue := [(c, 1)]\<rparr>"

lemma ex_pool_reach: "pool_reach MAX_WORKERS MAX_BUFFER_SIZE handles (ex_pool c)"
proof -
  let ?s = "(initial_pool MAX_WORKERS :: ('a, 'b) pool)\<lparr>acceptor := Accepted c\<rparr>"
  have "pool_reach MAX_WORKERS MAX_BUFFER_SIZE handles ?s"
    by (rule pool_reach.environment [OF pool_reach.start accept_ok]) (simp add: initial_pool_def)
  from pool_reach.internal [OF this pool_step.count [of ?s c]] show ?thesis
    by (simp add: ex_pool_def initial_pool_def)
qed

lemma ex_pool_step: "pool_step MAX_BUFFER_SIZE handles (ex_pool c) (ex_pool' c)"
  using pool_step.enqueue [of "ex_pool c" c MAX_BUFFER_SIZE handles]
  by (simp add: ex_pool'_def ex_pool_def initial_pool_def MAX_BUFFER_SIZE_def)

lemma pool_accounts_for_connections:
  assumes "pool_reach W cap handles s"
  shows "0 \<le> connections s \<and>
    connections s = int (jobIndex s + being_counted (acceptor s)) - int (length (collectedStats s)) \<and>
    length (jobQueue s) \<le> cap \<and> length (done_queue s) \<le> cap \<and>
    collectors s + being_queued (acceptor s) =
      length (jobQueue s) + busy_workers s + length (done_queue s)"
  using pool_reach_ok [OF assms] by (simp add: pool_ok_def bounds_ok_def counters_ok_def outstanding_def)

lemma jobs_are_taken_once_in_order:
  assumes "pool_reach W cap handles s"
  shows "\<exists>k. jobIndex s = k + length (jobQueue s) \<and>
    map snd (jobQueue s) = [Suc k ..< Suc (k + length (jobQueue s))] \<and>
    distinct (concat (map handled_ids (workers s))) \<and>
    set (concat (map handled_ids (workers s))) \<subseteq> {1..k}"
  using pool_reach_ok [OF assms] by (simp only: pool_ok_def order_ok_def)

text \<open>C15. In every reachable state of the pool the connection counter is not negative and equals
  the connections counted and not yet collected, the channels keep their capacity, every result
  on its way has exactly one collector, counting the one about to be started, the queue holds
  the latest jobs in order, and no two workers have the same job, nor one that is still queued.\<close>

theorem pool_keeps_its_accounts:
  assumes "pool_reach W cap handles s"
  shows "0 \<le> connections s \<and>
    connections s = int (jobIndex s + being_counted (acceptor s)) - int (length (collectedStats s)) \<and>
    length (jobQueue s) \<le> cap \<and> length (done_queue s) \<le> cap \<and>
    collectors s + being_queued (acceptor s) =
      length (jobQueue s) + busy_workers s + length (done_queue s) \<and>
    (\<exists>k. jobIndex s = k + length (jobQueue s) \<and>
       map snd (jobQueue s) = [Suc k ..< Suc (k + length (jobQueue s))] \<and>
       distinct (concat (map handled_ids (workers s))) \<and>
       set (concat (map handled_ids (workers s))) \<subseteq> {1..k})"
  using pool_accounts_for_connections [OF assms] jobs_are_taken_once_in_order [OF assms] by blast

lemma pool_keeps_its_accounts_witness:
  "0 \<le> connections (ex_pool' 7 :: (nat, int) pool) \<and>
    connections (ex_pool' 7 :: (nat, int) pool) = int (jobIndex (ex_pool' 7 :: (nat, int) pool) + being_counted (acceptor (ex_pool' 7 :: (nat, int) pool))) - int (length (collectedStats (ex_pool' 7 :: (nat, int) pool))) \<and>
    length (jobQueue (ex_pool' 7 :: (nat, int) pool)) \<le> MAX_BUFFER_SIZE \<and> length (done_queue (ex_pool' 7 :: (nat, int) pool)) \<le> MAX_BUFFER_SIZE \<and>
    collectors (ex_pool' 7 :: (nat, int) pool) + being_queued (acceptor (ex_pool' 7 :: (nat, int) pool)) =
      length (jobQueue (ex_pool' 7 :: (nat, int) pool)) + busy_workers (ex_pool' 7 :: (nat, int) pool) + length (done_queue (ex_pool' 7 :: (nat, int) pool)) \<and>
    (\<exists>k. jobIndex (ex_pool' 7 :: (nat, int) pool) = k + length (jobQueue (ex_pool' 7 :: (nat, int) pool)) \<and>
       map snd (jobQueue (ex_pool' 7 :: (nat, int) pool)) = [Suc k ..< Suc (k + length (jobQueue (ex_pool' 7 :: (nat, int) pool)))] \<and>
       distinct (concat (map handled_ids (workers (ex_pool' 7 :: (nat, int) pool)))) \<and>
       set (concat (map handled_ids (workers (ex_pool' 7 :: (nat, int) pool)))) \<subseteq> {1..k})"
  by (rule pool_keeps_its_accounts [OF pool_reach.internal [OF ex_pool_reach [where handles = ex_returns] ex_pool_step]])

lemma pool_runs_dry:
  assumes "pool_reach MAX_WORKERS MAX_BUFFER_SIZE handles s" and "\<forall>c. \<exists>r. handles c r"
    and "(pool_step MAX_BUFFER_SIZE handles ^^ n) s s'"
  shows "n \<le> pool_weight s \<and>
    ((\<nexists>s''. pool_step MAX_BUFFER_SIZE handles s' s'') \<longrightarrow>
       acceptor s' = Accepting \<and> connections s' = 0 \<and> jobIndex s' = length (collectedStats s'))"
proof -
  have "pool_ok MAX_WORKERS MAX_BUFFER_SIZE s'"
    using pool_steps_ok [OF relpowp_imp_rtranclp [OF assms(3)] pool_reach_ok [OF assms(1)]] .
  then show ?thesis
    using pool_progress [OF _ _ _ assms(2)] pool_run_length [OF assms(3)]
    by (auto simp: MAX_WORKERS_def MAX_BUFFER_SIZE_def)
qed

text \<open>The way of one connection through the pool.\<close>

definition ex_pool_at ::
  "'c acceptor \<Rightarrow> ('c, 'r) worker \<Rightarrow> 'c job list \<Rightarrow> 'r list \<Rightarrow> nat \<Rightarrow> 'r list \<Rightarrow> ('c, 'r) pool" where
  "ex_pool_at acc w jobs dq cs rcv =
     \<lparr>acceptor = acc, jobIndex = 1, jobQueue = jobs, workers = (replicate MAX_WORKERS Waiting)[0 := w],
      done_queue = dq, collectors = cs, received = rcv, connections = 1, collectedStats = []\<rparr>"

definition ex_final :: "'r \<Rightarrow> ('c, 'r) pool" where
  "ex_final r = (initial_pool MAX_WORKERS)\<lparr>jobIndex := 1, collectedStats := [r]\<rparr>"

lemma waiting_update: "(replicate n Waiting)[0 := Waiting] = replicate n Waiting"
  by (cases n) simp_all

lemma three_steps: "P a b \<Longrightarrow> P b c \<Longrightarrow> P c d \<Longrightarrow> (P ^^ 3) a d"
  by (auto simp: eval_nat_numeral relcompp.simps)

text \<open>Up to the handler, and from its return on.\<close>

lemma ex_run_before:
  "(pool_step MAX_BUFFER_SIZE handles ^^ 3) (ex_pool c) (ex_pool_at Accepting (Handling (c, 1)) [] [] 1 [])"
proof (rule three_steps)
  let ?step = "pool_step MAX_BUFFER_SIZE handles"
  have W: "0 < MAX_WORKERS" by (simp add: MAX_WORKERS_def)
  show "?step (ex_pool c) (ex_pool_at Queued Waiting [(c, 1)] [] 0 [])"
    using ex_pool_step [of handles c] by (simp add: ex_pool'_def ex_pool_def ex_pool_at_def initial_pool_def waiting_update)
  show "?step (ex_pool_at Queued Waiting [(c, 1)] [] 0 []) (ex_pool_at Accepting Waiting [(c, 1)] [] 1 [])"
    using pool_step.start_collector [of "ex_pool_at Queued Waiting [(c, 1)] [] 0 []" MAX_BUFFER_SIZE handles]
    by (simp add: ex_pool_at_def)
  show "?step (ex_pool_at Accepting Waiting [(c, 1)] [] 1 []) (ex_pool_at Accepting (Handling (c, 1)) [] [] 1 [])"
    using pool_step.take_job [of 0 "ex_pool_at Accepting Waiting [(c, 1)] [] 1 []" "(c, 1)" "[]" MAX_BUFFER_SIZE handles] W
    by (simp add: ex_pool_at_def)
qed

lemma ex_run_after:
  "(pool_step MAX_BUFFER_SIZE handles ^^ 3) (ex_pool_at Accepting (Reporting r) [] [] 1 []) (ex_final r)"
proof (rule three_steps)
  let ?step = "pool_step MAX_BUFFER_SIZE handles"
  have W: "0 < MAX_WORKERS" by (simp add: MAX_WORKERS_def)
  show "?step (ex_pool_at Accepting (Reporting r) [] [] 1 []) (ex_pool_at Accepting Waiting [] [r] 1 [])"
    using pool_step.report [of 0 "ex_pool_at Accepting (Reporting r) [] [] 1 []" r MAX_BUFFER_SIZE handles] W
    by (simp add: ex_pool_at_def MAX_BUFFER_SIZE_def)
  show "?step (ex_pool_at Accepting Waiting [] [r] 1 []) (ex_pool_at Accepting Waiting [] [] 0 [r])"
    using pool_step.collect [of "ex_pool_at Accepting Waiting [] [r] 1 []" r "[]" MAX_BUFFER_SIZE handles]
    by (simp add: ex_pool_at_def)
  show "?step (ex_pool_at Accepting Waiting [] [] 0 [r]) (ex_final r)"
    using pool_step.uncount [of "ex_pool_at Accepting Waiting [] [] 0 [r]" "[]" r "[]" MAX_BUFFER_SIZE handles]
    by (simp add: ex_pool_at_def ex_final_def initial_pool_def waiting_update)
qed

lemma around_handler:
  assumes "(P ^^ 3) a b" and "P b c" and "(P ^^ 3) c d"
  shows "(P ^^ 7) a d"
proof -
  have "(P ^^ (3 + Suc 3)) a d"
    unfolding relpowp_add using assms(1) relpowp_Suc_I2 [OF assms(2,3)] by blast
  then show ?thesis by simp
qed

lemma ex_run:
  assumes "handles c r"
  shows "(pool_step MAX_BUFFER_SIZE handles ^^ 7) (ex_pool c) (ex_final r)"
proof (rule around_handler [OF ex_run_before _ ex_run_after])
  show "pool_step MAX_BUFFER_SIZE handles (ex_pool_at Accepting (Handling (c, 1)) [] [] 1 [])
     (ex_pool_at Accepting (Reporting r) [] [] 1 [])"
    using pool_step.handled [of 0 "ex_pool_at Accepting (Handling (c, 1)) [] [] 1 []" c 1 handles r MAX_BUFFER_SIZE] assms
    by (simp add: ex_pool_at_def MAX_WORKERS_def)
qed

lemma ex_final_stuck: "\<nexists>s. pool_step MAX_BUFFER_SIZE handles (ex_final r) s"
  by (auto elim: pool_step.cases simp: ex_final_def initial_pool_def)

text \<open>The bypass mode: the handler of a connection returns if \<open>forwardConnection\<close> does.\<close>

definition forward_handles :: "fate \<Rightarrow> int \<Rightarrow> bool" where
  "forward_handles f r \<longleftrightarrow> fst (forwardConnection f) = Returns \<and> r = 0"

text \<open>C33. In bypass mode, when every worker forwards a connection whose copy to the server failed
  and whose copy to the client ended without error, forwardConnection waits for ever and no
  queued job is ever taken again, however many connections are accepted.\<close>

theorem blocked_forwards_stall_pool:
  assumes "\<forall>w \<in> set (workers s). \<exists>f n. w = Handling (f, n) \<and>
      dial_error f = None \<and> to_client f = None \<and> to_target f \<noteq> None"
    and "(\<lambda>s s'. pool_step cap forward_handles s s' \<or> accept_step s s')\<^sup>*\<^sup>* s s'"
  shows "workers s' = workers s \<and> (\<exists>js. jobQueue s' = jobQueue s @ js)"
  using assms(2)
proof (induction rule: rtranclp_induct)
  case (step t u)
  then obtain js where w: "workers t = workers s" and q: "jobQueue t = jobQueue s @ js" by blast
  have busy: "\<exists>f n. workers t ! i = Handling (f, n) \<and> fst (forwardConnection f) \<noteq> Returns"
    if "i < length (workers t)" for i
    using assms(1) nth_mem [OF that] unfolding w by (fastforce simp: forwardConnection_def)
  from step(2) show ?case
  proof
    assume "pool_step cap forward_handles t u"
    then show ?thesis
    proof (cases rule: pool_step.cases)
      case (take_job i j js)
      with busy [of i] show ?thesis by auto
    next
      case (handled i c n r)
      with busy [of i] show ?thesis by (auto simp: forward_handles_def)
    next
      case (report i r)
      with busy [of i] show ?thesis by auto
    qed (use w q in auto)
  next
    assume "accept_step t u"
    then show ?thesis by (cases rule: accept_step.cases) (use w q in auto)
  qed
qed simp

definition ex_fate :: fate where
  "ex_fate = \<lparr>target_nil = False, dial_error = None, to_target = Some (Go_error ''write: broken pipe''), to_client = None\<rparr>"

definition ex_stalled :: "(fate, int) pool" where
  "ex_stalled = \<lparr>acceptor = Accepting, jobIndex = 2, jobQueue = [(ex_fate, 2)], workers = [Handling (ex_fate, 1)],
     done_queue = [], collectors = 2, received = [], connections = 2, collectedStats = []\<rparr>"

lemma blocked_forwards_stall_pool_witness:
  "workers (ex_stalled\<lparr>acceptor := Accepted ex_fate\<rparr>) = workers ex_stalled \<and>
   (\<exists>js. jobQueue (ex_stalled\<lparr>acceptor := Accepted ex_fate\<rparr>) = jobQueue ex_stalled @ js)"
  by (rule blocked_forwards_stall_pool [where cap = 5])
    (simp_all add: ex_stalled_def ex_fate_def r_into_rtranclp accept_step.simps)

end
