(* ===== verification/Pool_Jobs.thy ===== *)
theory Pool_Jobs
  imports Worker_Pool "HOL-Library.Multiset"
begin

text \<open>
  Which connections the pool of \<^verbatim>\<open>main.go\<close> has served: the runs of the pool with the connections
  its accept loop accepted, and the pairing of these connections with the results the workers
  reported for them. The channels are read as multisets here; their order is in the invariant
  of \<^verbatim>\<open>Worker_Pool\<close>.
\<close>

section \<open>Runs with the accepted connections\<close>

inductive pool_run ::
  "nat \<Rightarrow> nat \<Rightarrow> ('c \<Rightarrow> 'r \<Rightarrow> bool) \<Rightarrow> 'c list \<Rightarrow> ('c, 'r) pool \<Rightarrow> bool" for W cap handles where
  run_start: "pool_run W cap handles [] (initial_pool W)"
| run_step: "pool_run W cap handles cs s \<Longrightarrow> pool_step cap handles s s' \<Longrightarrow> pool_run W cap handles cs s'"
| run_accept: "pool_run W cap handles cs s \<Longrightarrow> acceptor s = Accepting \<Longrightarrow>
    pool_run W cap handles (cs @ [c]) (s\<lparr>acceptor := Accepted c\<rparr>)"

lemma pool_run_reach: "pool_run W cap handles cs s \<Longrightarrow> pool_reach W cap handles s"
  by (induction rule: pool_run.induct) (blast intro: pool_reach.intros accept_step.intros)+

lemma pool_reach_run: "pool_reach W cap handles s \<Longrightarrow> \<exists>cs. pool_run W cap handles cs s"
  by (induction rule: pool_reach.induct) (blast intro: pool_run.intros elim: accept_step.cases)+

lemma pool_run_steps:
  "(pool_step cap handles ^^ n) s s' \<Longrightarrow> pool_run W cap handles cs s \<Longrightarrow> pool_run W cap handles cs s'"
  by (induction n arbitrary: s') (auto intro: run_step)

section \<open>Where a connection is\<close>

fun held :: "'c acceptor \<Rightarrow> 'c multiset" where
  "held (Accepted c) = {#c#}"
| "held (Counted c) = {#c#}"
| "held _ = {#}"

fun in_hand :: "('c, 'r) worker \<Rightarrow> 'c multiset" where
  "in_hand (Handling (c, n)) = {#c#}"
| "in_hand _ = {#}"

fun to_report :: "('c, 'r) worker \<Rightarrow> 'r multiset" where
  "to_report (Reporting r) = {#r#}"
| "to_report _ = {#}"

text \<open>The accepted connections no handler has returned from, and the results of the others.\<close>

definition waiting_conns :: "('c, 'r) pool \<Rightarrow> 'c multiset" where
  "waiting_conns s =
     held (acceptor s) + mset (map fst (jobQueue s)) + sum_list (map in_hand (workers s))"

definition results :: "('c, 'r) pool \<Rightarrow> 'r multiset" where
  "results s =
     sum_list (map to_report (workers s)) + mset (done_queue s) + mset (received s) + mset (collectedStats s)"

definition jobs_ok :: "('c \<Rightarrow> 'r \<Rightarrow> bool) \<Rightarrow> 'c list \<Rightarrow> ('c, 'r) pool \<Rightarrow> bool" where
  "jobs_ok handles cs s \<longleftrightarrow>
     (\<exists>served. mset cs = waiting_conns s + served \<and> rel_mset handles served (results s))"

lemma jobs_ok_same:
  "jobs_ok handles cs s \<Longrightarrow> waiting_conns s' = waiting_conns s \<Longrightarrow> results s' = results s \<Longrightarrow>
     jobs_ok handles cs s'"
  by (simp add: jobs_ok_def)

lemma in_hand_change:
  assumes "i < length ws"
  shows "sum_list (map in_hand (ws[i := w])) + in_hand (ws ! i) = sum_list (map in_hand ws) + in_hand w"
    and "sum_list (map to_report (ws[i := w])) + to_report (ws ! i) =
      sum_list (map to_report ws) + to_report w"
  using sum_list_map_update [OF assms] by blast+

lemma pool_step_jobs: "pool_step cap handles s s' \<Longrightarrow> jobs_ok handles cs s \<Longrightarrow> jobs_ok handles cs s'"
proof (induction rule: pool_step.induct)
  case (take_job i s j js)
  obtain c n where "j = (c, n)" by fastforce
  with take_job in_hand_change [OF take_job(1), of "Handling j"] show ?case
    by (intro jobs_ok_same [OF take_job(4)]) (simp_all add: waiting_conns_def results_def)
next
  case (handled i s c n r)
  let ?s = "s\<lparr>workers := (workers s)[i := Reporting r]\<rparr>"
  from handled(4) obtain D where D: "mset cs = waiting_conns s + D" "rel_mset handles D (results s)"
    by (auto simp: jobs_ok_def)
  have "waiting_conns s = add_mset c (waiting_conns ?s)" "results ?s = add_mset r (results s)"
    using handled(2) in_hand_change [OF handled(1), of "Reporting r"]
    by (simp_all add: waiting_conns_def results_def)
  with D handled(3) show ?case
    unfolding jobs_ok_def by (intro exI [of _ "add_mset c D"]) (simp add: rel_mset_Plus)
next
  case (report i s r)
  with in_hand_change [OF report(1), of Waiting] show ?case
    by (intro jobs_ok_same [OF report(4)]) (simp_all add: waiting_conns_def results_def)
qed (erule jobs_ok_same; simp add: waiting_conns_def results_def)+

lemma sum_list_zero: "\<forall>w \<in> set ws. f w = 0 \<Longrightarrow> sum_list (map f ws) = (0 :: 'a::comm_monoid_add)"
  by (induction ws) simp_all

lemma initial_jobs: "jobs_ok handles [] (initial_pool W)"
  using sum_list_zero [of "replicate W Waiting" in_hand] sum_list_zero [of "replicate W Waiting" to_report]
  by (simp add: jobs_ok_def waiting_conns_def results_def initial_pool_def rel_mset_Zero)

lemma pool_run_jobs: "pool_run W cap handles cs s \<Longrightarrow> jobs_ok handles cs s"
proof (induction rule: pool_run.induct)
  case (run_accept cs s c)
  then show ?case by (auto simp: jobs_ok_def waiting_conns_def results_def)
qed (simp_all add: initial_jobs pool_step_jobs)

section \<open>An idle pool has served every connection\<close>

lemma idle_worker: "busy w = 0 \<longleftrightarrow> w = Waiting"
  by (cases w) simp_all

lemma idle_pool:
  assumes "pool_ok W cap s" and "acceptor s = Accepting" and "connections s = 0"
  shows "waiting_conns s = {#}" and "results s = mset (collectedStats s)"
proof -
  have "outstanding s + length (received s) = 0"
    using assms by (simp add: pool_ok_def counters_ok_def del: of_nat_add)
  then have zero: "outstanding s = 0" "received s = []" by simp_all
  then have "\<forall>w \<in> set (workers s). w = Waiting"
    by (auto simp: outstanding_def busy_workers_def sum_list_eq_0_iff idle_worker)
  then have "sum_list (map in_hand (workers s)) = {#}" "sum_list (map to_report (workers s)) = {#}"
    by (intro sum_list_zero; fastforce)+
  with zero assms(2) show "waiting_conns s = {#}" "results s = mset (collectedStats s)"
    by (simp_all add: waiting_conns_def results_def outstanding_def)
qed

lemma rel_mset_size: "rel_mset R A B \<Longrightarrow> size A = size B"
  by (auto simp: rel_mset_def dest: list_all2_lengthD)

lemma idle_pool_served:
  assumes "pool_run W cap handles cs s" and "acceptor s = Accepting" and "connections s = 0"
  shows "rel_mset handles (mset cs) (mset (collectedStats s))" and "length (collectedStats s) = length cs"
proof -
  show r: "rel_mset handles (mset cs) (mset (collectedStats s))"
    using pool_run_jobs [OF assms(1)] idle_pool [OF pool_reach_ok [OF pool_run_reach [OF assms(1)]] assms(2,3)]
    by (simp add: jobs_ok_def)
  show "length (collectedStats s) = length cs" using rel_mset_size [OF r] by simp
qed

lemma pool_serves:
  assumes "pool_run MAX_WORKERS MAX_BUFFER_SIZE handles cs s" and "\<forall>c. \<exists>r. handles c r"
    and "(pool_step MAX_BUFFER_SIZE handles ^^ n) s s'"
  shows "n \<le> pool_weight s \<and>
    ((\<nexists>s''. pool_step MAX_BUFFER_SIZE handles s' s'') \<longrightarrow>
       acceptor s' = Accepting \<and> connections s' = 0 \<and> jobIndex s' = length cs \<and> length (collectedStats s') = length cs \<and>
       rel_mset handles (mset cs) (mset (collectedStats s')))"
  using pool_runs_dry [OF pool_run_reach [OF assms(1)] assms(2,3)]
    idle_pool_served [OF pool_run_steps [OF assms(3,1)]]
  by metis

section \<open>Properties\<close>

lemma ex_pool_run: "pool_run MAX_WORKERS MAX_BUFFER_SIZE handles [c] (ex_pool c)"
proof -
  let ?s = "(initial_pool MAX_WORKERS :: ('a, 'b) pool)\<lparr>acceptor := Accepted c\<rparr>"
  have "pool_run MAX_WORKERS MAX_BUFFER_SIZE handles ([] @ [c]) ?s"
    by (rule run_accept [OF run_start]) (simp add: initial_pool_def)
  from run_step [OF this pool_step.count [of ?s c]] show ?thesis
    by (simp add: ex_pool_def initial_pool_def)
qed

text \<open>C14. The worker pool serves every connection exactly once and cannot get stuck: after any run
  with 1000 workers and channels of 100000 that accepted the connections cs, if every handler
  can return, any sequence of internal steps is no longer than the state's weight, and where no
  step is left the accept loop waits, the connection counter is zero, and the collected results
  are, as multisets and one for one, results of handlers of the connections cs.\<close>

theorem pool_drains:
  assumes "pool_run MAX_WORKERS MAX_BUFFER_SIZE handles cs s" and "\<forall>c. \<exists>r. handles c r"
    and "(pool_step MAX_BUFFER_SIZE handles ^^ n) s s'"
  shows "n \<le> pool_weight s \<and>
    ((\<nexists>s''. pool_step MAX_BUFFER_SIZE handles s' s'') \<longrightarrow>
       acceptor s' = Accepting \<and> connections s' = 0 \<and> jobIndex s' = length cs \<and> length (collectedStats s') = length cs \<and>
       rel_mset handles (mset cs) (mset (collectedStats s')))"
  by (rule pool_serves [OF assms])

lemma pool_drains_witness:
  "7 \<le> pool_weight (ex_pool 7 :: (nat, int) pool) \<and> acceptor (ex_final 0 :: (nat, int) pool) = Accepting \<and>
   connections (ex_final 0 :: (nat, int) pool) = 0 \<and> jobIndex (ex_final 0 :: (nat, int) pool) = length [7 :: nat] \<and>
   length (collectedStats (ex_final 0 :: (nat, int) pool)) = length [7 :: nat] \<and>
   rel_mset ex_returns (mset [7]) (mset (collectedStats (ex_final 0 :: (nat, int) pool)))"
proof -
  have "ex_returns 7 0" by (simp add: ex_returns_def)
  from pool_drains [OF ex_pool_run _ ex_run [of ex_returns, OF this]] show ?thesis
    using ex_final_stuck [of ex_returns] by (simp add: ex_returns_def)
qed

end
