(* ===== verification/Pool_Serving.thy ===== *)
theory Pool_Serving
  imports Connection Pool_Jobs
begin

text \<open>
  The pool of \<^verbatim>\<open>main.go\<close> with what its workers do: each turn of \<^verbatim>\<open>proxyWorker\<close> runs the handler on
  the state all connections share, the network and the cache. A turn is one step here; that other
  workers may act within it is the subject of \<open>Concurrent_World\<close>.
\<close>

section \<open>Workers on a shared state\<close>

text \<open>
  What a turn was: the worker that took the job, the connection, the request its handler read,
  what the handler sent to the client, and the result the worker reports. The entry of a worker
  in the pool is its index, the \<open>id\<close> it was started with.
\<close>

record ('c, 'q, 'm, 'r) turn =
  turn_worker :: nat
  turn_conn :: 'c
  turn_request :: 'q
  turn_sent :: "'m list"
  turn_result :: 'r

text \<open>
  A state is the pool, the shared state and the turns so far. \<open>H\<close> is a worker's work on a
  connection, \<open>request\<close> what reading from the state gives, \<open>out\<close> what was sent. \<open>stalls c s\<close>
  says that some read or write of the handler of \<open>c\<close> waits in the state \<open>s\<close>: for a client that
  has not sent its request, a server that does not answer, or a peer that does not read.
  The program sets no deadline for any of these, so that the worker waits with it, until the
  environment has moved, which may be never. A handler that panics has no step: it ends the
  process, and the contract below excludes it.
\<close>

type_synonym ('c, 's, 'q, 'm, 'r) serving = "('c, 'r) pool \<times> 's \<times> ('c, 'q, 'm, 'r) turn list"

inductive serve_step ::
  "nat \<Rightarrow> ('c \<Rightarrow> 's \<Rightarrow> bool) \<Rightarrow> (nat \<Rightarrow> 'c \<Rightarrow> 's \<Rightarrow> unit go \<times> 's \<times> 'r) \<Rightarrow> ('s \<Rightarrow> 'q) \<Rightarrow> ('s \<Rightarrow> 'm list) \<Rightarrow>
     ('c, 's, 'q, 'm, 'r) serving \<Rightarrow> ('c, 's, 'q, 'm, 'r) serving \<Rightarrow> bool" for cap stalls H request out where
  pool_moves: "pool_step cap (\<lambda>c r. False) p p' \<Longrightarrow>
    serve_step cap stalls H request out (p, s, turns) (p', s, turns)"
| worker_turn: "i < length (workers p) \<Longrightarrow> workers p ! i = Handling (c, n) \<Longrightarrow> \<not> stalls c s \<Longrightarrow>
    H i c s = (Ret (), (s', r)) \<Longrightarrow> out s' = out s @ ms \<Longrightarrow>
    serve_step cap stalls H request out (p, s, turns)
      (p\<lparr>workers := (workers p)[i := Reporting r]\<rparr>, s',
       turns @ [\<lparr>turn_worker = i, turn_conn = c, turn_request = request s, turn_sent = ms, turn_result = r\<rparr>])"

text \<open>
  Between the steps connections are accepted, and the environment changes the shared state in
  any way that keeps it good: bytes arrive, puts run, entries are evicted.
\<close>

inductive serving_run ::
  "nat \<Rightarrow> nat \<Rightarrow> ('c \<Rightarrow> 's \<Rightarrow> bool) \<Rightarrow> (nat \<Rightarrow> 'c \<Rightarrow> 's \<Rightarrow> unit go \<times> 's \<times> 'r) \<Rightarrow> ('s \<Rightarrow> 'q) \<Rightarrow> ('s \<Rightarrow> 'm list) \<Rightarrow>
     ('s \<Rightarrow> bool) \<Rightarrow> 'c list \<Rightarrow> ('c, 's, 'q, 'm, 'r) serving \<Rightarrow> bool"
  for W cap stalls H request out good_state where
  serving_start: "good_state s \<Longrightarrow>
    serving_run W cap stalls H request out good_state [] (initial_pool W, s, [])"
| serving_step: "serving_run W cap stalls H request out good_state cs x \<Longrightarrow>
    serve_step cap stalls H request out x y \<Longrightarrow> serving_run W cap stalls H request out good_state cs y"
| serving_accept: "serving_run W cap stalls H request out good_state cs (p, s, turns) \<Longrightarrow>
    acceptor p = Accepting \<Longrightarrow>
    serving_run W cap stalls H request out good_state (cs @ [c]) (p\<lparr>acceptor := Accepted c\<rparr>, s, turns)"
| serving_environment: "serving_run W cap stalls H request out good_state cs (p, s, turns) \<Longrightarrow> good_state s' \<Longrightarrow>
    serving_run W cap stalls H request out good_state cs (p, s', turns)"

inductive_cases serve_stepE: "serve_step cap stalls H request out (p, s, turns) y"

section \<open>The pool underneath\<close>

text \<open>Every step is one of the pool, whatever its handlers may return.\<close>

abbreviation returns_any :: "'c \<Rightarrow> 'r \<Rightarrow> bool" where
  "returns_any \<equiv> \<lambda>c r. True"

lemma serve_step_pool:
  "serve_step cap stalls H request out x y \<Longrightarrow> pool_step cap returns_any (fst x) (fst y)"
  by (erule serve_step.cases) (auto intro: pool_step_mono pool_step.handled)

lemma serve_steps_pool:
  "(serve_step cap stalls H request out ^^ n) x y \<Longrightarrow> (pool_step cap returns_any ^^ n) (fst x) (fst y)"
proof (induction n arbitrary: y)
  case (Suc n)
  then obtain z where "(serve_step cap stalls H request out ^^ n) x z"
    and last: "serve_step cap stalls H request out z y"
    by (meson relpowp_Suc_E)
  with Suc.IH have "(pool_step cap returns_any ^^ n) (fst x) (fst z)" by blast
  from relpowp_Suc_I [OF this serve_step_pool [OF last]] show ?case .
qed simp

lemma serving_run_pool:
  "serving_run W cap stalls H request out good_state cs x \<Longrightarrow> pool_run W cap returns_any cs (fst x)"
  by (induction rule: serving_run.induct) (auto intro: pool_run.intros serve_step_pool)

lemma stuck_moves:
  assumes "\<nexists>y. serve_step cap stalls H request out (p, s, turns) y"
  shows "\<nexists>p'. pool_step cap (\<lambda>c r. False) p p'"
proof
  assume "\<exists>p'. pool_step cap (\<lambda>c r. False) p p'"
  then obtain p' where "pool_step cap (\<lambda>c r. False) p p'" by blast
  from pool_moves [OF this, of stalls H request out s turns] assms show False by blast
qed

lemma serving_run_ok:
  "serving_run W cap stalls H request out good_state cs x \<Longrightarrow> pool_ok W cap (fst x)"
  using pool_reach_ok [OF pool_run_reach [OF serving_run_pool]] .

lemma serve_steps_run:
  "(serve_step cap stalls H request out ^^ n) x y \<Longrightarrow>
     serving_run W cap stalls H request out good_state cs x \<Longrightarrow>
     serving_run W cap stalls H request out good_state cs y"
  by (induction n arbitrary: y) (auto intro: serving_step)

text \<open>
  The turns are those of the accepted connections that no longer wait, their results are the
  ones on their way to the collected ones, and their workers are those of the pool.
\<close>

lemma pool_moves_accounts:
  "pool_step cap (\<lambda>c r. False) p p' \<Longrightarrow>
     waiting_conns p' = waiting_conns p \<and> results p' = results p \<and> length (workers p') = length (workers p)"
proof (induction rule: pool_step.induct)
  case (take_job i s j js)
  obtain c n where "j = (c, n)" by fastforce
  with take_job in_hand_change [OF take_job(1), of "Handling j"] show ?case
    by (simp add: waiting_conns_def results_def)
next
  case (report i s r)
  with in_hand_change [OF report(1), of Waiting] show ?case by (simp add: waiting_conns_def results_def)
qed (simp_all add: waiting_conns_def results_def)

definition turns_ok :: "nat \<Rightarrow> 'c list \<Rightarrow> ('c, 's, 'q, 'm, 'r) serving \<Rightarrow> bool" where
  "turns_ok W cs x \<longleftrightarrow> length (workers (fst x)) = W \<and>
     mset cs = mset (map turn_conn (snd (snd x))) + waiting_conns (fst x) \<and>
     mset (map turn_result (snd (snd x))) = results (fst x) \<and>
     list_all (\<lambda>t. turn_worker t < W) (snd (snd x))"

lemma serve_step_turns: "serve_step cap stalls H request out x y \<Longrightarrow> turns_ok W cs x \<Longrightarrow> turns_ok W cs y"
proof (induction rule: serve_step.induct)
  case (pool_moves p p' s turns)
  with pool_moves_accounts [OF pool_moves(1)] show ?case by (simp add: turns_ok_def)
next
  case (worker_turn i p c n s s' r ms turns)
  with in_hand_change [OF worker_turn(1), of "Reporting r"] show ?case
    by (simp add: turns_ok_def waiting_conns_def results_def)
qed

lemma serving_run_turns: "serving_run W cap stalls H request out good_state cs x \<Longrightarrow> turns_ok W cs x"
proof (induction rule: serving_run.induct)
  case (serving_start s)
  show ?case
    using sum_list_zero [of "replicate W Waiting" in_hand] sum_list_zero [of "replicate W Waiting" to_report]
    by (simp add: turns_ok_def waiting_conns_def results_def initial_pool_def)
next
  case (serving_step cs x y)
  then show ?case using serve_step_turns by blast
next
  case (serving_accept cs p s turns c)
  then show ?case by (simp add: turns_ok_def waiting_conns_def results_def)
qed (simp add: turns_ok_def)

section \<open>What a handler promises the pool\<close>

text \<open>From a good state in which it does not stall, it comes back in a good state, and its turn is fine.\<close>

locale serving_handler =
  fixes stalls :: "'c \<Rightarrow> 's \<Rightarrow> bool" and H :: "nat \<Rightarrow> 'c \<Rightarrow> 's \<Rightarrow> unit go \<times> 's \<times> 'r"
    and request :: "'s \<Rightarrow> 'q" and out :: "'s \<Rightarrow> 'm list"
    and good_state :: "'s \<Rightarrow> bool" and fine :: "('c, 'q, 'm, 'r) turn \<Rightarrow> bool"
  assumes turn_law:
    "good_state s \<Longrightarrow> \<not> stalls c s \<Longrightarrow>
       \<exists>s' r ms. H i c s = (Ret (), (s', r)) \<and> good_state s' \<and> out s' = out s @ ms \<and>
         fine \<lparr>turn_worker = i, turn_conn = c, turn_request = request s, turn_sent = ms, turn_result = r\<rparr>"
begin

lemma serve_step_fine:
  "serve_step cap stalls H request out x y \<Longrightarrow> good_state (fst (snd x)) \<Longrightarrow> list_all fine (snd (snd x)) \<Longrightarrow>
     good_state (fst (snd y)) \<and> list_all fine (snd (snd y))"
proof (induction rule: serve_step.induct)
  case (worker_turn i p c n s s' r ms turns)
  then show ?case using turn_law [of s c i] by auto
qed simp

lemma serving_run_fine:
  "serving_run W cap stalls H request out good_state cs x \<Longrightarrow>
     good_state (fst (snd x)) \<and> list_all fine (snd (snd x))"
proof (induction rule: serving_run.induct)
  case (serving_step cs x y)
  then show ?case using serve_step_fine by blast
qed simp_all

text \<open>Where no step is left, a worker that has a job has one that stalls.\<close>

lemma stuck_worker:
  assumes "pool_ok W cap p" and "0 < cap" and "good_state s"
    and stuck: "\<nexists>y. serve_step cap stalls H request out (p, s, turns) y"
    and i: "i < length (workers p)"
  shows "workers p ! i = Waiting \<or> (\<exists>c n. workers p ! i = Handling (c, n) \<and> stalls c s)"
proof -
  from pool_stuck(3) [OF assms(1,2) stuck_moves [OF stuck] i] show ?thesis
  proof
    assume "\<exists>c n. workers p ! i = Handling (c, n)"
    then obtain c n where w: "workers p ! i = Handling (c, n)" by blast
    have "stalls c s"
    proof (rule ccontr)
      assume "\<not> stalls c s"
      moreover obtain s' r ms where "H i c s = (Ret (), (s', r))" "out s' = out s @ ms"
        using turn_law [OF assms(3) \<open>\<not> stalls c s\<close>, of i] by blast
      ultimately show False using worker_turn [where stalls = stalls, OF i w] stuck by blast
    qed
    with w show ?thesis by blast
  qed simp
qed

end

lemma in_hand_all:
  assumes "\<forall>w \<in> set ws. \<exists>c n. w = Handling (c, n) \<and> P c"
  shows "size (sum_list (map in_hand ws)) = length ws" and "\<forall>c \<in># sum_list (map in_hand ws). P c"
  using assms by (induction ws) auto

lemma in_hand_some:
  assumes "\<forall>w \<in> set ws. w = Waiting \<or> (\<exists>c n. w = Handling (c, n) \<and> P c)"
  shows "size (sum_list (map in_hand ws)) = sum_list (map busy ws)" and "\<forall>c \<in># sum_list (map in_hand ws). P c"
  using assms by (induction ws) auto

text \<open>A pool whose workers are all held holds as many of the accepted connections.\<close>

lemma all_held:
  assumes "mset cs = A + waiting_conns p"
    and "\<forall>w \<in> set (workers p). \<exists>c n. w = Handling (c, n) \<and> P c"
  shows "length (workers p) \<le> length (filter P cs)"
proof -
  let ?H = "sum_list (map in_hand (workers p))"
  have "filter_mset P ?H = ?H" using in_hand_all(2) [OF assms(2)] by (simp add: filter_mset_eq_conv)
  moreover have "?H \<subseteq># mset cs" using assms(1) by (simp add: waiting_conns_def)
  ultimately have "?H \<subseteq># mset (filter P cs)" using multiset_filter_mono [of ?H "mset cs" P] by (simp add: mset_filter)
  from size_mset_mono [OF this] in_hand_all(1) [OF assms(2)] show ?thesis by (simp only: size_mset)
qed

context serving_handler begin

lemma stuck_served:
  assumes run: "serving_run W cap stalls H request out good_state cs (p, s, turns)" and cap: "0 < cap"
    and stuck: "\<nexists>y. serve_step cap stalls H request out (p, s, turns) y"
    and few: "length (filter (\<lambda>c. stalls c s) cs) < W"
  shows "acceptor p = Accepting" and "jobQueue p = []" and "\<forall>c \<in># waiting_conns p. stalls c s"
    and "connections p = int (size (waiting_conns p))"
    and "results p = mset (collectedStats p)"
proof -
  have ok: "pool_ok W cap p" using serving_run_ok [OF run] by simp
  have good: "good_state s" using serving_run_fine [OF run] by simp
  have t: "length (workers p) = W" "mset cs = mset (map turn_conn turns) + waiting_conns p"
    using serving_run_turns [OF run] by (simp_all add: turns_ok_def)
  have held: "w = Waiting \<or> (\<exists>c n. w = Handling (c, n) \<and> stalls c s)" if "w \<in> set (workers p)" for w
    using that stuck_worker [OF ok cap good stuck] by (metis in_set_conv_nth)
  obtain i where i: "i < length (workers p)" "workers p ! i = Waiting"
  proof -
    have "\<not> (\<forall>w \<in> set (workers p). \<exists>c n. w = Handling (c, n) \<and> stalls c s)"
      using all_held [OF t(2)] t(1) few by fastforce
    with held that show thesis by (metis in_set_conv_nth)
  qed
  note idle = pool_stuck [OF ok cap stuck_moves [OF stuck]]
  from idle(4) [OF i] show acc: "acceptor p = Accepting" "jobQueue p = []" by simp_all
  then have w: "waiting_conns p = sum_list (map in_hand (workers p))" by (simp add: waiting_conns_def)
  have "\<forall>w \<in> set (workers p). w = Waiting \<or> (\<exists>c n. w = Handling (c, n) \<and> stalls c s)"
    using held by blast
  note some = in_hand_some [OF this, folded w]
  from some(2) show "\<forall>c \<in># waiting_conns p. stalls c s" .
  have "size (waiting_conns p) = busy_workers p" using some(1) by (simp only: busy_workers_def)
  with ok acc idle(1,2) show "connections p = int (size (waiting_conns p))"
    by (simp add: pool_ok_def counters_ok_def outstanding_def)
  have "\<forall>w \<in> set (map to_report (workers p)). w = {#}" using held by fastforce
  then have "sum_list (map to_report (workers p)) = {#}" by (simp add: sum_list_zero)
  with idle(1,2) show "results p = mset (collectedStats p)" by (simp add: results_def)
qed

lemma serving_serves_all:
  assumes run: "serving_run MAX_WORKERS MAX_BUFFER_SIZE stalls H request out good_state cs (p, s, turns)"
    and steps: "(serve_step MAX_BUFFER_SIZE stalls H request out ^^ n) (p, s, turns) (p', s', turns')"
  shows "n \<le> pool_weight p \<and> list_all fine turns' \<and> list_all (\<lambda>t. turn_worker t < MAX_WORKERS) turns' \<and>
    mset cs = mset (map turn_conn turns') + waiting_conns p' \<and>
    mset (map turn_result turns') = results p' \<and>
    ((\<nexists>y. serve_step MAX_BUFFER_SIZE stalls H request out (p', s', turns') y) \<and>
       length (filter (\<lambda>c. stalls c s') cs) < MAX_WORKERS \<longrightarrow>
       acceptor p' = Accepting \<and> jobQueue p' = [] \<and> (\<forall>c \<in># waiting_conns p'. stalls c s') \<and>
       connections p' = int (size (waiting_conns p')) \<and> results p' = mset (collectedStats p'))"
proof -
  note run' = serve_steps_run [OF steps run]
  have "n \<le> pool_weight p" using pool_run_length [OF serve_steps_pool [OF steps]] by simp
  moreover have "list_all fine turns'" using serving_run_fine [OF run'] by simp
  moreover have "0 < MAX_BUFFER_SIZE" by (simp add: MAX_BUFFER_SIZE_def)
  moreover have "turns_ok MAX_WORKERS cs (p', s', turns')" using serving_run_turns [OF run'] .
  ultimately show ?thesis
    unfolding turns_ok_def fst_conv snd_conv using stuck_served [OF run'] by blast
qed

end

section \<open>Connections that stall for ever\<close>

text \<open>
  When every worker handles a connection that stalls in every state the environment can bring
  about, such as those of clients that send nothing and stay connected, no job is taken any
  more and no turn comes back, whatever else is accepted.
\<close>

definition all_workers_held :: "('c \<Rightarrow> 's \<Rightarrow> bool) \<Rightarrow> ('c, 'r) pool \<Rightarrow> bool" where
  "all_workers_held stalls p \<longleftrightarrow>
     (\<forall>w \<in> set (workers p). \<exists>c n. w = Handling (c, n) \<and> (\<forall>s. stalls c s))"

lemma silent_clients_hold_workers:
  assumes "all_workers_held stalls p" and "serve_step cap stalls H request out (p, s, turns) (p', s', turns')"
  shows "workers p' = workers p \<and> turns' = turns \<and> s' = s \<and> (\<exists>js. jobQueue p' = jobQueue p @ js)"
proof -
  have held: "\<exists>c n. workers p ! i = Handling (c, n) \<and> (\<forall>s. stalls c s)" if "i < length (workers p)" for i
    using assms(1) nth_mem [OF that] unfolding all_workers_held_def by blast
  from assms(2) show ?thesis
  proof (cases rule: serve_step.cases)
    case pool_moves
    from pool_moves(3) show ?thesis
      by (cases rule: pool_step.cases) (use pool_moves held in fastforce)+
  next
    case (worker_turn i c n r ms)
    with held [of i] show ?thesis by auto
  qed
qed

lemma held_workers_stay:
  "(serve_step cap stalls H request out ^^ n) (p, s, turns) (p', s', turns') \<Longrightarrow> all_workers_held stalls p \<Longrightarrow>
     workers p' = workers p \<and> turns' = turns"
proof (induction n arbitrary: p' s' turns')
  case (Suc n)
  then obtain q s1 turns1 where "(serve_step cap stalls H request out ^^ n) (p, s, turns) (q, s1, turns1)"
    and last: "serve_step cap stalls H request out (q, s1, turns1) (p', s', turns')"
    by (metis relpowp_Suc_E prod_cases3)
  with Suc have "workers q = workers p \<and> turns1 = turns" by blast
  with Suc.prems(2) silent_clients_hold_workers [OF _ last] show ?case by (simp add: all_workers_held_def)
qed simp

section \<open>The caching proxy as the pool's handler\<close>

text \<open>
  \<open>dst\<close> is the original destination of a connection, which \<^verbatim>\<open>getOriginalTargetFromConn\<close> has found;
  what happens when it has not is in \<open>Proxy_Properties\<close>. \<^verbatim>\<open>proxyWorker\<close> reports 0 for every
  connection.
\<close>

definition proxyWorker_turn :: "unit go \<times> 's \<Rightarrow> unit go \<times> 's \<times> int" where
  "proxyWorker_turn handled = (case handled of (r, s) \<Rightarrow> (r, (s, 0)))"

definition fine_answer ::
  "(TCPAddr \<Rightarrow> http_request \<Rightarrow> http_response \<Rightarrow> bool) \<Rightarrow> ('c \<Rightarrow> TCPAddr) \<Rightarrow>
     ('c, http_request go, sent, int) turn \<Rightarrow> bool" where
  "fine_answer answers dst t =
     (case turn_request t of
        Ret q \<Rightarrow> answered (answers (dst (turn_conn t)) q) (turn_sent t)
      | _ \<Rightarrow> turn_sent t = [])"

sublocale caching_proxy \<subseteq> worker: serving_handler stalls
  "\<lambda>i c s. proxyWorker_turn (handleConnection_run N Get adapters fwd False ([], Some (dst c), None) s)"
  "\<lambda>s. fst (http_ReadRequest N s)" out ok "fine_answer answers dst"
  for stalls fwd dst
proof
  fix s c i
  assume "ok s"
  from handler_transparent [OF this, of "fst (http_ReadRequest N s)" "snd (http_ReadRequest N s)" "dst c"]
  show "\<exists>s' r ms. proxyWorker_turn (handleConnection_run N Get adapters fwd False ([], Some (dst c), None) s) =
        (Ret (), (s', r)) \<and> ok s' \<and> out s' = out s @ ms \<and>
      fine_answer answers dst \<lparr>turn_worker = i, turn_conn = c, turn_request = fst (http_ReadRequest N s),
        turn_sent = ms, turn_result = r\<rparr>"
    by (cases "handleHttpInternal N Get adapters (Some (dst c)) s")
      (auto simp: handleConnection_run_http serves_def proxyWorker_turn_def fine_answer_def split: go.splits)
qed

context caching_proxy begin

lemmas worker_handler = worker.serving_handler_axioms

end

section \<open>One connection on its way\<close>

lemma ex_serving_run:
  fixes c :: 'c
  assumes "good_state s"
  shows "serving_run MAX_WORKERS MAX_BUFFER_SIZE stalls H request out good_state [c] (ex_pool c, s, [])"
proof -
  let ?p = "(initial_pool MAX_WORKERS :: ('c, 'r) pool)\<lparr>acceptor := Accepted c\<rparr>"
  have "serving_run MAX_WORKERS MAX_BUFFER_SIZE stalls H request out good_state ([] @ [c]) (?p, s, [])"
    by (rule serving_accept, rule serving_start, rule assms) (simp add: initial_pool_def)
  from serving_step [OF this pool_moves [OF pool_step.count [of ?p c]]] show ?thesis
    by (simp add: ex_pool_def initial_pool_def)
qed

lemma pool_moves_steps:
  "(pool_step cap (\<lambda>c r. False) ^^ n) p p' \<Longrightarrow> (serve_step cap stalls H request out ^^ n) (p, s, turns) (p', s, turns)"
proof (induction n arbitrary: p')
  case (Suc n)
  then obtain q where "(pool_step cap (\<lambda>c r. False) ^^ n) p q" and last: "pool_step cap (\<lambda>c r. False) q p'"
    by (meson relpowp_Suc_E)
  with Suc.IH have "(serve_step cap stalls H request out ^^ n) (p, s, turns) (q, s, turns)" by blast
  from relpowp_Suc_I [OF this pool_moves [OF last]] show ?case .
qed simp

lemma ex_serving:
  assumes "\<not> stalls c s" and "H 0 c s = (Ret (), (s', r))" and "out s' = out s @ ms"
  shows "(serve_step MAX_BUFFER_SIZE stalls H request out ^^ 7) (ex_pool c, s, [])
    (ex_final r, s', [\<lparr>turn_worker = 0, turn_conn = c, turn_request = request s, turn_sent = ms, turn_result = r\<rparr>])"
proof (rule around_handler [OF pool_moves_steps [OF ex_run_before] _ pool_moves_steps [OF ex_run_after]])
  have "workers (ex_pool_at Accepting (Handling (c, 1)) [] [] 1 [] :: ('a, 'c) pool) ! 0 = Handling (c, 1)"
    "0 < length (workers (ex_pool_at Accepting (Handling (c, 1)) [] [] 1 [] :: ('a, 'c) pool))"
    by (simp_all add: ex_pool_at_def MAX_WORKERS_def)
  from worker_turn [where turns = "[]" and stalls = stalls and H = H and out = out, OF this(2,1) assms]
  show "serve_step MAX_BUFFER_SIZE stalls H request out (ex_pool_at Accepting (Handling (c, 1)) [] [] 1 [], s, [])
     (ex_pool_at Accepting (Reporting r) [] [] 1 [], s',
      [\<lparr>turn_worker = 0, turn_conn = c, turn_request = request s, turn_sent = ms, turn_result = r\<rparr>])"
    by (simp add: ex_pool_at_def)
qed

lemma ex_serving_stuck: "\<nexists>y. serve_step MAX_BUFFER_SIZE stalls H request out (ex_final r, s, turns) y"
  using serve_step_pool [of MAX_BUFFER_SIZE stalls H request out "(ex_final r, s, turns)"]
    ex_final_stuck [of returns_any r] by fastforce

end
