(* ===== verification/Statistics.thy ===== *)
theory Statistics
  imports Caching_Proxy
begin

text \<open>
  The statistics the program writes when it ends: the log of the bigcache wrapper and the
  entries of the timed proxy, as lines of comma-separated values.
\<close>

section \<open>Formatting\<close>

text \<open>\<^verbatim>\<open>%d\<close> and \<^verbatim>\<open>%v\<close> of integers, and \<^verbatim>\<open>%v\<close> of truth values.\<close>

definition digit_char :: "nat \<Rightarrow> char" where
  "digit_char d = ''0123456789'' ! d"

fun nat_string :: "nat \<Rightarrow> string" where
  "nat_string n = (if n < 10 then [digit_char n] else nat_string (n div 10) @ [digit_char (n mod 10)])"

declare nat_string.simps [simp del]

definition int_string :: "int \<Rightarrow> string" where
  "int_string i = (if i < 0 then CHR ''-'' # nat_string (nat (- i)) else nat_string (nat i))"

definition bool_string :: "bool \<Rightarrow> string" where
  "bool_string b = (if b then ''true'' else ''false'')"

definition newline :: string where
  "newline = [CHR 0x0A]"

lemma digit_char_plain: "d < 10 \<Longrightarrow> digit_char d \<in> set ''0123456789''"
  unfolding digit_char_def by (rule nth_mem) simp

lemma nat_string_digits: "set (nat_string n) \<subseteq> set ''0123456789''"
proof (induction n rule: nat_string.induct)
  case (1 n)
  show ?case
  proof (cases "n < 10")
    case True
    with digit_char_plain show ?thesis by (subst nat_string.simps) simp
  next
    case False
    with 1 digit_char_plain [of "n mod 10"] show ?thesis by (subst nat_string.simps) simp
  qed
qed

lemma int_string_no_comma [simp]: "CHR '','' \<notin> set (int_string i)"
  using nat_string_digits [of "nat i"] nat_string_digits [of "nat (- i)"]
  by (auto simp: int_string_def)

lemma bool_string_no_comma [simp]: "CHR '','' \<notin> set (bool_string b)"
  by (simp add: bool_string_def)

section \<open>The cache's log\<close>

record 't StatsLogEntry =
  Timestamp :: 't
  Hits :: int
  Misses :: int
  DelHits :: int
  DelMisses :: int
  Collisions :: int

definition SaveStats :: "'t StatsLogEntry \<Rightarrow> 't StatsLogEntry list \<Rightarrow> 't StatsLogEntry list" where
  "SaveStats stats entries = entries @ [stats]"

text \<open>\<open>rfc3339\<close> formats a time; \<open>write\<close> appends to the file, or fails.\<close>

definition cache_stats_header :: string where
  "cache_stats_header = ''time,hits,misses,delete_hits,delete_misses,collisions'' @ newline"

definition cache_stats_row :: "('t \<Rightarrow> string) \<Rightarrow> 't StatsLogEntry \<Rightarrow> string" where
  "cache_stats_row rfc3339 s =
     join_with (CHR '','')
       [rfc3339 (Timestamp s), int_string (Hits s), int_string (Misses s), int_string (DelHits s),
        int_string (DelMisses s), int_string (Collisions s)] @ newline"

fun write_rows :: "(string \<Rightarrow> 's \<Rightarrow> unit go \<times> 's) \<Rightarrow> string list \<Rightarrow> 's \<Rightarrow> unit go \<times> 's" where
  "write_rows write [] s = (Ret (), s)"
| "write_rows write (row # rows) s =
     on_go (write row s) (\<lambda>_ s1. write_rows write rows s1) (\<lambda>err s1. (Err err, s1))"

definition WriteCSV ::
  "('t \<Rightarrow> string) \<Rightarrow> (string \<Rightarrow> 's \<Rightarrow> unit go \<times> 's) \<Rightarrow> 't StatsLogEntry list \<Rightarrow> 's \<Rightarrow> unit go \<times> 's" where
  "WriteCSV rfc3339 write entries s =
     on_go (write cache_stats_header s)
       (\<lambda>_ s1. write_rows write (map (cache_stats_row rfc3339) entries) s1)
       (\<lambda>err s1. (Err err, s1))"

section \<open>The proxy's entries\<close>

definition proxy_stats_header :: string where
  "proxy_stats_header =
     ''total, cacheRetrieve, initialize, readRequest, dialRemote, writeRequest, readResponse, writeResponse, cacheMiss, forwarded, failed, objectKey, workerID'' @ newline"

definition proxy_stats_row :: "ProxyStatsEntry \<Rightarrow> string" where
  "proxy_stats_row s =
     join_with (CHR '','')
       [int_string (Total s), int_string (CacheRetrieve s), int_string (Initialize s),
        int_string (ReadRequest s), int_string (DialRemote s), int_string (WriteRequest s),
        int_string (ReadResponse s), int_string (WriteResponse s), bool_string (CacheMiss s),
        bool_string (Forwarded s), bool_string (Failed s), ObjectKey s, int_string (WorkerID s)] @ newline"

section \<open>Columns\<close>

definition columns :: "string \<Rightarrow> nat" where
  "columns line = length (split_at (CHR '','') line)"

lemma columns_count: "columns line = Suc (count_list line (CHR '',''))"
  by (simp add: columns_def length_split)

lemma count_join:
  "ps \<noteq> [] \<Longrightarrow> Suc (count_list (join_with c ps) c) = sum_list (map (\<lambda>p. count_list p c) ps) + length ps"
  by (induction c ps rule: join_with.induct) auto

lemma columns_join:
  "ps \<noteq> [] \<Longrightarrow> CHR '','' \<notin> set rest \<Longrightarrow>
     columns (join_with (CHR '','') ps @ rest) =
       sum_list (map (\<lambda>p. count_list p (CHR '','')) ps) + length ps"
  by (simp add: columns_count count_notin count_join)

lemma newline_no_comma [simp]: "CHR '','' \<notin> set newline"
  by (simp add: newline_def)

lemma statistics_columns:
  "columns proxy_stats_header = 13 \<and>
   columns (proxy_stats_row s) = 13 + count_list (ObjectKey s) (CHR '','') \<and>
   columns cache_stats_header = 6 \<and>
   columns (cache_stats_row rfc3339 e) = 6 + count_list (rfc3339 (Timestamp e)) (CHR '','')"
proof (intro conjI)
  show "columns proxy_stats_header = 13" by code_simp
  show "columns cache_stats_header = 6" by code_simp
  show "columns (proxy_stats_row s) = 13 + count_list (ObjectKey s) (CHR '','')"
    unfolding proxy_stats_row_def by (subst columns_join) (simp_all add: count_notin)
  show "columns (cache_stats_row rfc3339 e) = 6 + count_list (rfc3339 (Timestamp e)) (CHR '','')"
    unfolding cache_stats_row_def by (subst columns_join) (simp_all add: count_notin)
qed

text \<open>A file that takes every write holds the header and one line per entry, in order.\<close>

lemma write_rows_all:
  "write_rows (\<lambda>text written. (Ret (), written @ text)) rows s = (Ret (), s @ concat rows)"
  by (induction rows arbitrary: s) simp_all

lemma WriteCSV_file:
  "WriteCSV rfc3339 (\<lambda>text written. (Ret (), written @ text)) entries [] =
     (Ret (), cache_stats_header @ concat (map (cache_stats_row rfc3339) entries))"
  by (simp add: WriteCSV_def write_rows_all)

end
