(* ===== verification/Startup.thy ===== *)
theory Startup
  imports Program_Properties Statistics
begin

text \<open>
  The start of the program: \<^verbatim>\<open>run\<close> of \<^verbatim>\<open>main.go\<close> up to its accept loop, one step per call that
  can fail, while other processes already run into the hooks that are attached; and the end of
  the program by a signal.
\<close>

section \<open>What the start-up calls\<close>

datatype attach_point = AttachCGroupInet4Connect | AttachCGroupSockOps | AttachCGroupGetsockopt

text \<open>Finitely many, so that what holds at every point can be computed.\<close>

lemma UNIV_attach_point:
  "UNIV = {AttachCGroupInet4Connect, AttachCGroupSockOps, AttachCGroupGetsockopt}"
  using attach_point.exhaust by auto

instantiation attach_point :: enum
begin

definition enum_attach_point :: "attach_point list" where
  "enum_attach_point = [AttachCGroupInet4Connect, AttachCGroupSockOps, AttachCGroupGetsockopt]"

definition enum_all_attach_point :: "(attach_point \<Rightarrow> bool) \<Rightarrow> bool" where
  "enum_all_attach_point P \<longleftrightarrow>
     P AttachCGroupInet4Connect \<and> P AttachCGroupSockOps \<and> P AttachCGroupGetsockopt"

definition enum_ex_attach_point :: "(attach_point \<Rightarrow> bool) \<Rightarrow> bool" where
  "enum_ex_attach_point P \<longleftrightarrow>
     P AttachCGroupInet4Connect \<or> P AttachCGroupSockOps \<or> P AttachCGroupGetsockopt"

instance
  by standard
    (simp_all add: UNIV_attach_point enum_attach_point_def enum_all_attach_point_def enum_ex_attach_point_def)

end

text \<open>
  The results of the packages and of the system. \<^verbatim>\<open>link.AttachCgroup\<close> is told whether the
  program it gets was loaded, and returns whether its link is one (\<open>True\<close>) or nil, and its
  error. \<open>nil_map_Update\<close> is what the update of a map does when the objects were not loaded.
\<close>

record boot_env =
  os_Args :: "string list"
  bigcache_New :: "bigcache_config \<Rightarrow> go_error option"
  RemoveMemlock :: "go_error option"
  loadProxyObjects :: "go_error option"
  AttachCgroup :: "bool \<Rightarrow> attach_point \<Rightarrow> (bool \<times> go_error option) go"
  net_Listen :: "string \<Rightarrow> go_error option"
  nil_map_Update :: "go_error option go"
  Getpid :: u64

text \<open>
  Where \<^verbatim>\<open>run\<close> is: before a call, in its accept loop, or at the end of the process, with the
  status of \<^verbatim>\<open>log.Fatalf\<close> or after a panic.
\<close>

datatype boot_at =
    At_cache
  | At_memlock
  | At_load
  | At_attach attach_point
  | At_listen
  | At_publish
  | Serving
  | Exited int
  | Crashed

text \<open>
  The program and the kernel. The links are not pinned, so that hooks and listener are gone with
  the process.
\<close>

record 'k system =
  at :: boot_at
  boot_log :: "(string \<times> go_error) list"
  bypassHttpHandler :: bool
  objects :: bool
  links :: "attach_point list"
  listening :: "string option"
  kern :: 'k

definition booting :: "'k \<Rightarrow> 'k system" where
  "booting k =
     \<lparr>at = At_cache, boot_log = [], bypassHttpHandler = False, objects = False, links = [],
      listening = None, kern = k\<rparr>"

definition log_if :: "string \<Rightarrow> go_error option \<Rightarrow> 'k system \<Rightarrow> 'k system" where
  "log_if msg err s =
     (case err of None \<Rightarrow> s | Some e \<Rightarrow> s\<lparr>boot_log := boot_log s @ [(msg, e)]\<rparr>)"

definition stop :: "boot_at \<Rightarrow> 'k system \<Rightarrow> 'k system" where
  "stop a s = s\<lparr>at := a, links := [], listening := None\<rparr>"

text \<open>\<^verbatim>\<open>log.Fatalf\<close> on an error, and otherwise the rest.\<close>

definition fatal_if :: "string \<Rightarrow> go_error option \<Rightarrow> ('k system \<Rightarrow> 'k system) \<Rightarrow> 'k system \<Rightarrow> 'k system" where
  "fatal_if msg err f s =
     (case err of None \<Rightarrow> f s | Some e \<Rightarrow> stop (Exited 1) (log_if msg err s))"

section \<open>The steps of run\<close>

definition proxyAddr :: string where
  "proxyAddr = ''127.0.0.1:'' @ nat_string (unat PROXY_PORT)"

definition bypass_arg :: "string list \<Rightarrow> bool" where
  "bypass_arg args = (case args of [] \<Rightarrow> False | arg # _ \<Rightarrow> arg = ''--bypass'')"

fun attach_msg :: "attach_point \<Rightarrow> string" where
  "attach_msg AttachCGroupInet4Connect = ''Attaching CgConnect4 program to Cgroup:''"
| "attach_msg AttachCGroupSockOps = ''Attaching CgSockOps program to Cgroup:''"
| "attach_msg AttachCGroupGetsockopt = ''Attaching CgSockOpt program to Cgroup:''"

fun after_attach :: "attach_point \<Rightarrow> boot_at" where
  "after_attach AttachCGroupInet4Connect = At_attach AttachCGroupSockOps"
| "after_attach AttachCGroupSockOps = At_attach AttachCGroupGetsockopt"
| "after_attach AttachCGroupGetsockopt = At_listen"

text \<open>
  The error of an attachment is only logged, but \<^verbatim>\<open>defer link.Close()\<close> evaluates its method at
  once and panics if the link is nil.
\<close>

definition attach :: "boot_env \<Rightarrow> attach_point \<Rightarrow> 'k system \<Rightarrow> 'k system" where
  "attach env p s =
     (case AttachCgroup env (objects s) p of
        Ret (is_link, err) \<Rightarrow>
          (let s1 = log_if (attach_msg p) err s in
           if is_link then s1\<lparr>at := after_attach p, links := links s1 @ [p]\<rparr> else stop Crashed s1)
      | _ \<Rightarrow> stop Crashed s)"

definition error_of :: "int \<Rightarrow> go_error option" where
  "error_of rc = (if rc = 0 then None else Some (Errno (nat (- rc))))"

definition publish :: "boot_env \<Rightarrow> 'k kernel \<Rightarrow> 'k system \<Rightarrow> 'k system" where
  "publish env K s =
     (let serve = (\<lambda>s. s\<lparr>at := Serving\<rparr>); msg = ''Failed to update proxyMaps map'' in
      if objects s
      then (case publish_config K (Getpid env) (kern s) of
              (rc, k1) \<Rightarrow> fatal_if msg (error_of rc) serve (s\<lparr>kern := k1\<rparr>))
      else (case nil_map_Update env of
              Ret err \<Rightarrow> fatal_if msg err serve s
            | _ \<Rightarrow> stop Crashed s))"

text \<open>
  The goroutine that calls \<open>SaveStats\<close> every two seconds runs beside these steps and shares none of
  their state; at a signal its log is the parameter \<open>entries\<close> of \<open>on_signal\<close> below.
\<close>

definition boot_step :: "boot_env \<Rightarrow> 'k kernel \<Rightarrow> 'k system \<Rightarrow> 'k system" where
  "boot_step env K s =
     (case at s of
        At_cache \<Rightarrow>
          fatal_if ''Error creating bigcache instance'' (bigcache_New env (NewBigcacheWrapper 1000))
            (\<lambda>s. s\<lparr>at := At_memlock, bypassHttpHandler := bypass_arg (drop 1 (os_Args env))\<rparr>) s
      | At_memlock \<Rightarrow> (log_if ''Removing memlock:'' (RemoveMemlock env) s)\<lparr>at := At_load\<rparr>
      | At_load \<Rightarrow>
          (log_if ''Error loading eBPF objects:'' (loadProxyObjects env) s)
            \<lparr>at := At_attach AttachCGroupInet4Connect, objects := (loadProxyObjects env = None)\<rparr>
      | At_attach p \<Rightarrow> attach env p s
      | At_listen \<Rightarrow>
          fatal_if ''Failed to start proxy server'' (net_Listen env proxyAddr)
            (\<lambda>s. s\<lparr>at := At_publish, listening := Some proxyAddr\<rparr>) s
      | At_publish \<Rightarrow> publish env K s
      | _ \<Rightarrow> s)"

section \<open>Signals\<close>

definition TIMED :: bool where
  "TIMED = False"

text \<open>
  The goroutine of \<^verbatim>\<open>main\<close> that waits for a signal. \<open>entries\<close> is the log of the cache, or \<open>None\<close> as
  long as \<^verbatim>\<open>cacheModule\<close> is nil; \<open>write f\<close> appends to the file \<open>f\<close>, and fails on a file that could
  not be created. \<open>now1\<close> and \<open>now2\<close> are the formatted times of the two names. The errors of
  the writes are dropped.
\<close>

definition on_signal ::
  "('t \<Rightarrow> string) \<Rightarrow> (string \<Rightarrow> string \<Rightarrow> 's \<Rightarrow> unit go \<times> 's) \<Rightarrow> bool \<Rightarrow> string \<Rightarrow> string \<Rightarrow>
     't StatsLogEntry list option \<Rightarrow> ProxyStatsEntry list \<Rightarrow> 's \<Rightarrow> boot_at \<times> 's" where
  "on_signal rfc3339 write timed now1 now2 entries collectedStats s =
     (case entries of
        None \<Rightarrow> (Crashed, s)
      | Some es \<Rightarrow>
          (let s1 = snd (WriteCSV rfc3339 (write (''cache-stats-'' @ now1 @ ''.csv'')) es s);
               rows = proxy_stats_header # map proxy_stats_row collectedStats in
           (Exited 0,
            if timed then fold (\<lambda>row s. snd (write (''proxy-stats-'' @ now2 @ ''.csv'') row s)) rows s1
            else s1)))"

section \<open>The program among the other processes\<close>

text \<open>
  Between two steps of \<^verbatim>\<open>run\<close> other processes make any calls; a hook runs for them once its
  program is loaded and attached. A signal ends the process at any moment.
\<close>

fun hook_of :: "event \<Rightarrow> attach_point" where
  "hook_of (Connect h ctx) = AttachCGroupInet4Connect"
| "hook_of (Sock_ops h ctx) = AttachCGroupSockOps"
| "hook_of (Get_sockopt ctx) = AttachCGroupGetsockopt"

definition running :: "'k system \<Rightarrow> bool" where
  "running s = (case at s of Exited n \<Rightarrow> False | Crashed \<Rightarrow> False | _ \<Rightarrow> True)"

inductive reach :: "boot_env \<Rightarrow> endian \<Rightarrow> 'k kernel \<Rightarrow> 'k \<Rightarrow> 'k system \<Rightarrow> bool"
  for env e K k0 where
  start: "reach env e K k0 (booting k0)"
| main: "reach env e K k0 s \<Longrightarrow> reach env e K k0 (boot_step env K s)"
| hook: "reach env e K k0 s \<Longrightarrow> objects s \<Longrightarrow> hook_of ev \<in> set (links s) \<Longrightarrow>
     reach env e K k0 (s\<lparr>kern := step e K (kern s) ev\<rparr>)"
| signal: "reach env e K k0 s \<Longrightarrow> running s \<Longrightarrow> entries = (if at s = At_cache then None else Some es) \<Longrightarrow>
     reach env e K k0 (stop (fst (on_signal rfc3339 (write :: string \<Rightarrow> string \<Rightarrow> (string \<Rightarrow> string) \<Rightarrow> _)
       TIMED now1 now2 (entries :: int StatsLogEntry list option) stats files)) s)"

lemma log_if_sel [simp]:
  "at (log_if msg err s) = at s" "objects (log_if msg err s) = objects s"
  "links (log_if msg err s) = links s" "listening (log_if msg err s) = listening s"
  "kern (log_if msg err s) = kern s"
  by (simp_all add: log_if_def split: option.split)

lemma stop_sel [simp]:
  "at (stop a s) = a" "objects (stop a s) = objects s" "links (stop a s) = []"
  "listening (stop a s) = None" "kern (stop a s) = kern s"
  by (simp_all add: stop_def)

text \<open>How far \<^verbatim>\<open>run\<close> has come, as the links show it.\<close>

fun attached_before :: "boot_at \<Rightarrow> attach_point list" where
  "attached_before (At_attach AttachCGroupSockOps) = [AttachCGroupInet4Connect]"
| "attached_before (At_attach AttachCGroupGetsockopt) = [AttachCGroupInet4Connect, AttachCGroupSockOps]"
| "attached_before At_listen = [AttachCGroupInet4Connect, AttachCGroupSockOps, AttachCGroupGetsockopt]"
| "attached_before At_publish = [AttachCGroupInet4Connect, AttachCGroupSockOps, AttachCGroupGetsockopt]"
| "attached_before Serving = [AttachCGroupInet4Connect, AttachCGroupSockOps, AttachCGroupGetsockopt]"
| "attached_before _ = []"

definition links_to :: "boot_env \<Rightarrow> attach_point \<Rightarrow> bool" where
  "links_to env p \<longleftrightarrow>
     (case AttachCgroup env (loadProxyObjects env = None) p of Ret (linked, err) \<Rightarrow> linked | _ \<Rightarrow> False)"

lemma links_to_iff:
  "links_to env p \<longleftrightarrow> (\<exists>err. AttachCgroup env (loadProxyObjects env = None) p = Ret (True, err))"
  by (auto simp: links_to_def split: go.split)

text \<open>
  What holds of a state that was reached: the links and the listener tell where \<^verbatim>\<open>run\<close> is, and
  the calls before that point succeeded.
\<close>

definition started_ok :: "boot_env \<Rightarrow> 'k system \<Rightarrow> bool" where
  "started_ok env s \<longleftrightarrow>
     links s = attached_before (at s) \<and> list_all (links_to env) (attached_before (at s)) \<and>
     listening s = (if at s \<in> {At_publish, Serving} then Some proxyAddr else None) \<and>
     (listening s \<noteq> None \<longrightarrow> net_Listen env proxyAddr = None) \<and>
     (running s \<and> at s \<noteq> At_cache \<longrightarrow> bigcache_New env (NewBigcacheWrapper 1000) = None) \<and>
     (running s \<longrightarrow> objects s = (at s \<notin> {At_cache, At_memlock, At_load} \<and> loadProxyObjects env = None)) \<and>
     (at s = Serving \<longrightarrow> loadProxyObjects env = None \<or> nil_map_Update env = Ret None)"

text \<open>The configuration the hooks see.\<close>

definition config_at :: "boot_env \<Rightarrow> 'k system \<Rightarrow> Config" where
  "config_at env s =
     (if at s = Serving \<and> objects s then \<lparr>proxy_port = PROXY_PORT, proxy_pid = Getpid env\<rparr>
      else \<lparr>proxy_port = 0, proxy_pid = 0\<rparr>)"

definition startup_succeeds :: "boot_env \<Rightarrow> bool" where
  "startup_succeeds env \<longleftrightarrow>
     bigcache_New env (NewBigcacheWrapper 1000) = None \<and> (\<forall>p. links_to env p) \<and>
     net_Listen env proxyAddr = None \<and>
     (loadProxyObjects env = None \<or> nil_map_Update env = Ret None)"

lemma stop_started_ok: "a = Crashed \<or> (\<exists>n. a = Exited n) \<Longrightarrow> started_ok env (stop a s)"
  by (auto simp: started_ok_def running_def)

lemma running_simps [simp]:
  "running (s\<lparr>at := Serving\<rparr>)" "running (s\<lparr>kern := k\<rparr>) = running s"
  "at s = At_attach p \<Longrightarrow> running s" "at s = At_publish \<Longrightarrow> running s"
  by (simp_all add: running_def)

lemma running_log_if [simp]: "running (log_if msg err s) = running s"
  by (simp add: running_def)

lemma attach_started_ok:
  assumes s: "started_ok env s" and p: "at s = At_attach p"
  shows "started_ok env (attach env p s)"
proof (cases "\<exists>err. AttachCgroup env (objects s) p = Ret (True, err)")
  case True
  then obtain err where r: "AttachCgroup env (objects s) p = Ret (True, err)" ..
  with s p have "objects s = (loadProxyObjects env = None)" "links_to env p"
    by (auto simp: started_ok_def links_to_iff)
  with s p r show ?thesis
    by (cases p) (simp_all add: started_ok_def attach_def Let_def running_def)
next
  case False
  then have "\<exists>s1. attach env p s = stop Crashed s1"
    by (cases "AttachCgroup env (objects s) p") (auto simp: attach_def Let_def)
  then show ?thesis using stop_started_ok by fastforce
qed

lemma publish_started_ok:
  assumes s: "started_ok env s" and p: "at s = At_publish"
  shows "started_ok env (publish env K s)"
proof -
  have serve: "started_ok env (t\<lparr>at := Serving\<rparr>)"
    if "t = s\<lparr>kern := k\<rparr>" "objects s \<or> nil_map_Update env = Ret None" for t :: "'a system" and k
    using s p that by (auto simp: started_ok_def)
  have same: "s = s\<lparr>kern := kern s\<rparr>" by simp
  show ?thesis
    using serve [OF same] serve
    by (auto simp: publish_def fatal_if_def Let_def stop_started_ok split: option.split go.split prod.split)
qed

lemma boot_step_started_ok:
  assumes s: "started_ok env s"
  shows "started_ok env (boot_step env K s)"
proof (cases "at s")
  case (At_attach p)
  then show ?thesis using attach_started_ok [OF s] by (simp add: boot_step_def)
next
  case At_publish
  then show ?thesis using publish_started_ok [OF s] by (simp add: boot_step_def)
next
  case At_cache
  then show ?thesis using s
    by (auto simp: boot_step_def fatal_if_def stop_started_ok started_ok_def [of env "s\<lparr>at := A, bypassHttpHandler := B\<rparr>" for A B]
        split: option.split) (auto simp: started_ok_def running_def)
next
  case At_listen
  then show ?thesis using s
    by (cases "net_Listen env proxyAddr")
      (simp_all add: boot_step_def fatal_if_def stop_started_ok, simp add: started_ok_def running_def)
qed (use s in \<open>simp_all add: boot_step_def\<close>, simp_all add: started_ok_def running_def)

lemma reach_started_ok: "reach env e K k0 s \<Longrightarrow> started_ok env s"
proof (induction rule: reach.induct)
  case start
  show ?case by (simp add: started_ok_def booting_def)
next
  case (main s)
  then show ?case using boot_step_started_ok by blast
next
  case (hook s ev)
  then show ?case by (simp add: started_ok_def running_def)
next
  case (signal s es)
  show ?case by (rule stop_started_ok) (simp add: on_signal_def Let_def split: option.split)
qed

text \<open>In the accept loop all hooks are attached, so that any events of clients are steps of the system.\<close>

lemma reach_run:
  assumes "reach env e K k0 s" and "at s = Serving" and "objects s"
  shows "reach env e K k0 (s\<lparr>kern := run e K (kern s) evs\<rparr>)"
  using assms
proof (induction evs arbitrary: s)
  case (Cons ev evs)
  have "hook_of ev \<in> set (links s)"
    using reach_started_ok [OF Cons.prems(1)] Cons.prems(2) by (cases ev) (simp_all add: started_ok_def)
  from Cons.IH [OF reach.hook [OF Cons.prems(1,3) this]] Cons.prems show ?case by simp
qed simp

text \<open>The mode is the one the command line asks for.\<close>

lemma boot_step_bypass:
  assumes "running s \<longrightarrow> at s = At_cache \<or> bypassHttpHandler s = b" and "b = bypass_arg (drop 1 (os_Args env))"
  shows "running (boot_step env K s) \<longrightarrow> at (boot_step env K s) = At_cache \<or> bypassHttpHandler (boot_step env K s) = b"
  using assms
  by (cases "at s")
    (auto simp: boot_step_def fatal_if_def attach_def publish_def Let_def running_def log_if_def stop_def
      split: option.splits go.splits prod.splits if_splits)

lemma reach_bypass:
  assumes "reach env e K k0 s"
  shows "running s \<longrightarrow> at s = At_cache \<or> bypassHttpHandler s = bypass_arg (drop 1 (os_Args env))"
  using assms
proof (induction rule: reach.induct)
  case (main s)
  then show ?case using boot_step_bypass [OF _ HOL.refl] by blast
next
  case (signal s es)
  then show ?case by (simp add: running_def on_signal_def Let_def split: option.split)
qed (simp_all add: booting_def running_def)

section \<open>The configuration while the program starts\<close>

text \<open>What is known of the kernel as long as the process runs.\<close>

definition config_known ::
  "('k \<Rightarrow> bool) \<Rightarrow> ('k \<Rightarrow> view) \<Rightarrow> boot_env \<Rightarrow> 'k system \<Rightarrow> bool" where
  "config_known ok obs env s \<longleftrightarrow>
     ok (kern s) \<and> (running s \<longrightarrow> v_config (obs (kern s)) = config_at env s)"

lemma config_at_kern [simp]: "config_at env (s\<lparr>kern := k\<rparr>) = config_at env s"
  by (simp add: config_at_def)

context bpf_kernel
begin

lemma publish_config_result:
  "inv k \<Longrightarrow> \<exists>k1. publish_config K pid k = (0, k1) \<and> inv k1 \<and>
     obs k1 = (obs k)\<lparr>v_config := \<lparr>proxy_port = PROXY_PORT, proxy_pid = pid\<rparr>\<rparr>"
  using config_update by (cases "publish_config K pid k") (fastforce simp: publish_config_def)

end

context bpf_kernel_full
begin

lemma config_known_stop: "inv (kern s) \<Longrightarrow> config_known inv obs env (stop Crashed s) \<and> config_known inv obs env (stop (Exited n) s)"
  by (simp add: config_known_def running_def)

lemma publish_known:
  assumes "config_known inv obs env s" and "at s = At_publish"
  shows "config_known inv obs env (publish env K s)"
proof -
  have i: "inv (kern s)" "v_config (obs (kern s)) = \<lparr>proxy_port = 0, proxy_pid = 0\<rparr>"
    using assms by (simp_all add: config_known_def config_at_def)
  obtain k1 where k1: "publish_config K (Getpid env) (kern s) = (0, k1)" "inv k1"
    "obs k1 = (obs (kern s))\<lparr>v_config := \<lparr>proxy_port = PROXY_PORT, proxy_pid = Getpid env\<rparr>\<rparr>"
    using publish_config_result [OF i(1)] by blast
  then have "objects s \<Longrightarrow> config_known inv obs env (publish env K s)"
    by (simp add: publish_def fatal_if_def error_of_def config_known_def config_at_def)
  moreover have "\<not> objects s \<Longrightarrow> config_known inv obs env (publish env K s)"
    using i config_known_stop
    by (auto simp: publish_def fatal_if_def Let_def split: go.split option.split)
      (simp_all add: config_known_def config_at_def)
  ultimately show ?thesis by blast
qed

lemma boot_step_known:
  assumes s: "config_known inv obs env s"
  shows "config_known inv obs env (boot_step env K s)"
proof -
  have i: "inv (kern s)" using s by (simp add: config_known_def)
  have c: "config_known inv obs env t" if "at s \<noteq> Serving" "kern t = kern s" "at t \<noteq> Serving" "running s" for t
    using s that by (simp add: config_known_def config_at_def)
  show ?thesis
  proof (cases "at s")
    case At_publish
    with publish_known [OF s] show ?thesis by (simp add: boot_step_def)
  next
    case (At_attach p)
    have "at (attach env p s) \<noteq> Serving" "kern (attach env p s) = kern s"
      by (cases p; auto simp: attach_def Let_def split: go.split)+
    with At_attach c show ?thesis by (simp add: boot_step_def)
  qed (use s i c in \<open>auto simp: boot_step_def fatal_if_def running_def split: option.split\<close>)
qed

lemma reach_known:
  assumes "reach env e K k0 s" and "inv k0" and "v_config (obs k0) = \<lparr>proxy_port = 0, proxy_pid = 0\<rparr>"
  shows "config_known inv obs env s"
  using assms(1)
proof (induction rule: reach.induct)
  case start
  with assms(2,3) show ?case by (simp add: config_known_def booting_def config_at_def)
next
  case (main s)
  then show ?case using boot_step_known by blast
next
  case (hook s ev)
  then show ?case using step_refines [of "kern s" e ev] by (simp add: config_known_def)
next
  case (signal s es)
  then show ?case by (simp add: config_known_def running_def on_signal_def Let_def split: option.split)
qed

end

text \<open>What a client's connect() meets in the accept loop.\<close>

lemma serving_intercepts:
  assumes "bpf_kernel_full K ok obs cookie cp" and "ok k0"
    and "v_config (obs k0) = \<lparr>proxy_port = 0, proxy_pid = 0\<rparr>"
    and "reach env e K k0 s" and "at s = Serving" and "objects s"
    and "user_family ctx = AF_INET" and "protocol ctx = IPPROTO_TCP"
    and "user_port ctx = ucast (htons e 9000)" and "drop_bit 32 (task h) \<noteq> Getpid env"
  shows "ok (kern s) \<and> intercepted e (v_config (obs (kern s))) h ctx \<and> proxy_port (v_config (obs (kern s))) = PROXY_PORT"
  using bpf_kernel_full.reach_known [OF assms(1,4,2,3)] assms(5-10)
  by (simp add: config_known_def running_def config_at_def intercepted_def)

section \<open>Properties\<close>

text \<open>
  The port the kernel connects to: the low half of the word, in network byte order.
\<close>

definition connect_port :: "endian \<Rightarrow> bpf_sock_addr \<Rightarrow> u16" where
  "connect_port e ctx = ntohs e (ucast (user_port ctx))"

lemma redirected_port:
  "connect_port e (redirected e cfg ctx) = (case e of LE \<Rightarrow> proxy_port cfg | BE \<Rightarrow> 0)"
proof -
  have "(ucast (ucast x :: u32) :: u16) = x" for x :: u16
    by (rule bit_word_eqI) (simp add: bit_simps)
  then show ?thesis
    by (cases e) (simp_all add: connect_port_def redirected_def htonl_def ntohs_def bswap32_push16 low_half_push16)
qed

text \<open>C11. In every state that run and any events of other processes reach, once cg_connect4 is
  attached, every TCP connect() to port 9000, by a process with a nonzero number, is redirected
  to 127.0.0.1, except that the calls of the program itself pass unchanged once run is in its
  accept loop. The port it is redirected to is 0 while run has not come to its accept loop; from
  then on it is 18000 on a little-endian host, and on a big-endian one it stays 0.\<close>

theorem redirection_follows_startup:
  assumes "bpf_kernel_full K ok obs cookie cp" and "ok k0"
    and "v_config (obs k0) = \<lparr>proxy_port = 0, proxy_pid = 0\<rparr>"
    and "reach env e K k0 s" and "AttachCGroupInet4Connect \<in> set (links s)" and "objects s"
    and "user_family ctx = AF_INET" and "protocol ctx = IPPROTO_TCP"
    and "user_port ctx = ucast (htons e 9000)" and "drop_bit 32 (task h) \<noteq> 0"
  shows "\<exists>k' ctx'. cg_connect4 e K h (kern s) ctx = (1, k', ctx') \<and>
           (if at s = Serving \<and> drop_bit 32 (task h) = Getpid env then ctx' = ctx
            else store32 e (user_ip4 ctx') = [127, 0, 0, 1] \<and>
                 connect_port e ctx' = (if at s = Serving \<and> e = LE then 18000 else 0))"
proof -
  have run: "running s"
    using reach_started_ok [OF assms(4)] assms(5)
    by (cases "at s") (simp_all add: started_ok_def running_def)
  from bpf_kernel_full.reach_known [OF assms(1) assms(4) assms(2,3)] run
  have i: "ok (kern s)" and c: "v_config (obs (kern s)) = config_at env s"
    by (simp_all add: config_known_def)
  have K: "bpf_kernel K ok obs cookie cp"
    using assms(1) by (simp add: bpf_kernel_full_def bpf_kernel_room_def)
  show ?thesis
  proof (cases "at s = Serving \<and> drop_bit 32 (task h) = Getpid env")
    case True
    then have "\<not> intercepted e (v_config (obs (kern s))) h ctx"
      using c assms(6) by (simp add: intercepted_def config_at_def)
    from bpf_kernel.connect4_pass [OF K i this] True show ?thesis by auto
  next
    case False
    then have "intercepted e (v_config (obs (kern s))) h ctx"
      using c assms by (auto simp: intercepted_def config_at_def)
    then obtain k' where
      "cg_connect4 e K h (kern s) ctx = (1, k', redirected e (v_config (obs (kern s))) ctx)"
      using bpf_kernel.connect4_intercept [OF K i] by metis
    moreover have "store32 e (user_ip4 (redirected e cfg ctx)) = [127, 0, 0, 1]" for cfg
      using loopback_bytes [of e] by (simp add: redirected_def)
    ultimately show ?thesis using False c assms(6)
      by (cases e) (auto simp: redirected_port config_at_def PROXY_PORT_def)
  qed
qed

text \<open>An environment in which everything works.\<close>

definition ex_env :: boot_env where
  "ex_env =
     \<lparr>os_Args = [''proxy''], bigcache_New = (\<lambda>cfg. None), RemoveMemlock = None,
      loadProxyObjects = None, AttachCgroup = (\<lambda>b p. Ret (True, None)), net_Listen = (\<lambda>a. None),
      nil_map_Update = Ret None, Getpid = 100\<rparr>"

lemma reach_steps: "reach env e K k0 ((boot_step env K ^^ n) (booting k0))"
  by (induction n) (simp_all add: reach.start reach.main)

lemma ex_env_half_way:
  "at ((boot_step ex_env K ^^ 4) (booting k)) = At_attach AttachCGroupSockOps"
  "links ((boot_step ex_env K ^^ 4) (booting k)) = [AttachCGroupInet4Connect]"
  "objects ((boot_step ex_env K ^^ 4) (booting k))"
  by (simp_all add: eval_nat_numeral boot_step_def booting_def fatal_if_def attach_def ex_env_def)

lemma redirection_follows_startup_witness:
  "\<exists>k' ctx'. cg_connect4 LE slot_kernel ex_hook (kern ((boot_step ex_env slot_kernel ^^ 4) (booting boot))) ex_addr =
       (1, k', ctx') \<and> store32 LE (user_ip4 ctx') = [127, 0, 0, 1] \<and> connect_port LE ctx' = 0"
  using redirection_follows_startup [OF slot.bpf_kernel_full_axioms boot_ok _ reach_steps [of ex_env LE slot_kernel boot 4],
      where h = ex_hook and ctx = ex_addr]
  by (simp add: ex_env_half_way boot_def ex_simps AF_INET_def IPPROTO_TCP_def)

text \<open>If the calls succeed, \<^verbatim>\<open>run\<close> comes to its accept loop.\<close>

fun next_at :: "boot_at \<Rightarrow> boot_at" where
  "next_at At_cache = At_memlock"
| "next_at At_memlock = At_load"
| "next_at At_load = At_attach AttachCGroupInet4Connect"
| "next_at (At_attach p) = after_attach p"
| "next_at At_listen = At_publish"
| "next_at a = a"

lemma boot_step_advances:
  assumes "startup_succeeds env" and "started_ok env s" and "running s" and "at s \<noteq> At_publish"
  shows "at (boot_step env K s) = next_at (at s) \<and> kern (boot_step env K s) = kern s"
proof (cases "at s")
  case (At_attach p)
  then have "objects s = (loadProxyObjects env = None)" using assms(2) by (simp add: started_ok_def)
  moreover obtain err where "AttachCgroup env (loadProxyObjects env = None) p = Ret (True, err)"
    using assms(1) by (auto simp: startup_succeeds_def links_to_iff)
  ultimately show ?thesis using At_attach by (simp add: boot_step_def attach_def)
qed (use assms in \<open>simp_all add: boot_step_def fatal_if_def startup_succeeds_def running_def\<close>)

lemma boot_steps_advance:
  assumes "startup_succeeds env"
  shows "n \<le> 7 \<Longrightarrow>
    at ((boot_step env K ^^ n) (booting k)) = (next_at ^^ n) At_cache \<and>
    kern ((boot_step env K ^^ n) (booting k)) = k"
proof (induction n)
  case 0
  show ?case by (simp add: booting_def)
next
  case (Suc n)
  let ?s = "(boot_step env K ^^ n) (booting k)"
  have "n \<in> {0, 1, 2, 3, 4, 5, 6}" using Suc.prems by auto
  then have a: "running ?s" "at ?s \<noteq> At_publish"
    using Suc by (auto simp: running_def eval_nat_numeral)
  from boot_step_advances [OF assms reach_started_ok [OF reach_steps] a] Suc show ?case by simp
qed

lemma serving_boot:
  assumes "bpf_kernel K ok obs cookie cp" and "ok k0" and b: "startup_succeeds env"
  shows "at ((boot_step env K ^^ 8) (booting k0)) = Serving"
proof -
  let ?s = "(boot_step env K ^^ 7) (booting k0)"
  have s: "at ?s = At_publish" "kern ?s = k0"
    using boot_steps_advance [OF b, where n = 7 and K = K and k = k0] by (simp_all add: eval_nat_numeral)
  then have o: "objects ?s = (loadProxyObjects env = None)"
    using reach_started_ok [OF reach_steps [of env LE K k0 7]] by (simp add: started_ok_def)
  obtain k1 where "publish_config K (Getpid env) k0 = (0, k1)"
    using bpf_kernel.publish_config_result [OF assms(1,2)] by blast
  with s o b have "at (boot_step env K ?s) = Serving"
    by (auto simp: boot_step_def publish_def fatal_if_def error_of_def startup_succeeds_def)
  then show ?thesis by (simp add: eval_nat_numeral)
qed

text \<open>C36. run can come to its accept loop if and only if the cache is created, each of the three
  attachments returns a link, the listener starts, and the objects were loaded or the update of
  the unloaded map reports no error. The other errors, of the memory limit and of an attachment
  that returns a link, are only logged; whatever the hooks and signals do in between does not
  matter.\<close>

theorem startup_outcome:
  assumes "bpf_kernel K ok obs cookie cp" and "ok k0"
  shows "(\<exists>s. reach env e K k0 s \<and> at s = Serving) \<longleftrightarrow> startup_succeeds env"
proof
  assume "\<exists>s. reach env e K k0 s \<and> at s = Serving"
  then obtain s where "reach env e K k0 s" and serving: "at s = Serving" by blast
  from reach_started_ok [OF this(1)] serving show "startup_succeeds env"
    by (simp add: started_ok_def startup_succeeds_def running_def) (metis attach_point.exhaust)
next
  assume "startup_succeeds env"
  with serving_boot [OF assms] reach_steps show "\<exists>s. reach env e K k0 s \<and> at s = Serving" by metis
qed

lemma startup_outcome_witness:
  "(\<exists>s. reach ex_env LE slot_kernel boot s \<and> at s = Serving) \<longleftrightarrow> startup_succeeds ex_env"
  by (rule startup_outcome [OF slot.bpf_kernel_axioms boot_ok])

lemma ex_env_succeeds: "startup_succeeds ex_env"
  by (simp add: startup_succeeds_def links_to_def ex_env_def)

text \<open>An attachment that fails, with the nil link the package returns then, ends the program.\<close>

lemma failed_attachment_ends:
  assumes "AttachCgroup env (loadProxyObjects env = None) p = Ret (False, Some err)"
  shows "\<not> startup_succeeds env"
proof -
  from assms have "\<not> links_to env p" by (simp add: links_to_iff)
  then show ?thesis by (auto simp: startup_succeeds_def)
qed

section \<open>What a signal leaves behind\<close>

text \<open>On files that take every write; a file is what was written under its name.\<close>

definition append_to :: "string \<Rightarrow> string \<Rightarrow> (string \<Rightarrow> string) \<Rightarrow> unit go \<times> (string \<Rightarrow> string)" where
  "append_to f text files = (Ret (), files(f := files f @ text))"

lemma write_rows_append: "write_rows (append_to f) rows files = (Ret (), files(f := files f @ concat rows))"
  by (induction rows arbitrary: files) (simp_all add: append_to_def)

lemma fold_append: "fold (\<lambda>row fs. snd (append_to f row fs)) rows files = files(f := files f @ concat rows)"
  by (induction rows arbitrary: files) (simp_all add: append_to_def)

lemma signal_writes_statistics:
  "on_signal rfc3339 append_to timed now1 now2 (Some es) stats files =
     (Exited 0,
      let c = ''cache-stats-'' @ now1 @ ''.csv''; p = ''proxy-stats-'' @ now2 @ ''.csv'';
          fs = files(c := files c @ cache_stats_header @ concat (map (cache_stats_row rfc3339) es)) in
      if timed then fs(p := files p @ proxy_stats_header @ concat (map proxy_stats_row stats)) else fs)"
proof -
  have "snd (WriteCSV rfc3339 (append_to f) es files) =
      files(f := files f @ cache_stats_header @ concat (map (cache_stats_row rfc3339) es))" for f
    by (simp add: WriteCSV_def write_rows_append append_to_def)
  then show ?thesis
    by (simp add: on_signal_def Let_def fold_append del: fold.simps)
qed

end
