(* ===== verification/Timed_Run.thy ===== *)
theory Timed_Run
  imports Startup Pool_Serving
begin

text \<open>
  The timed mode of \<^verbatim>\<open>main.go\<close>: \<^verbatim>\<open>handleConnectionTimed\<close> with the calls it makes, a turn of
  \<^verbatim>\<open>timedProxyWorker\<close>, the pool whose workers take such turns, and the files of statistics that a
  signal leaves behind.
\<close>

section \<open>The handler and the worker\<close>

text \<open>
  \<^verbatim>\<open>handleConnectionTimed\<close> returns the entry of the connection. \<open>fwd\<close> is the forwarder's effect on
  the network; a panic of it ends the process, so that its entry is never seen.
\<close>

definition handleConnectionTimed_run ::
  "('s \<Rightarrow> 's \<Rightarrow> int) \<Rightarrow> 's net \<Rightarrow> go_error \<Rightarrow>
     (string \<Rightarrow> ('s \<times> ProxyStatsEntry) initializer option \<Rightarrow> 's \<times> ProxyStatsEntry \<Rightarrow>
        (object option go \<times> int \<times> int) \<times> 's \<times> ProxyStatsEntry) \<Rightarrow>
     adapter list \<Rightarrow> (TCPAddr option \<Rightarrow> 's \<Rightarrow> unit go \<times> 's) \<Rightarrow> bool \<Rightarrow>
     (string \<times> go_error) list \<times> TCPAddr option \<times> go_error option \<Rightarrow> 's \<Rightarrow>
     unit go \<times> 's \<times> ProxyStatsEntry" where
  "handleConnectionTimed_run since N eof GetTimed adapters fwd bypass target s =
     (case snd (handleConnectionTimed bypass target) of
        Handle_http addr \<Rightarrow> handleHttpTimed since N eof GetTimed adapters addr s
      | Forward_raw addr \<Rightarrow> with_stats (no_stats\<lparr>Forwarded := True\<rparr>) (fwd addr s)
      | Give_up \<Rightarrow> (Ret (), (s, no_stats\<lparr>Failed := True\<rparr>)))"

text \<open>The turn of worker \<open>wid\<close> on one job: what it sends to \<^verbatim>\<open>results\<close>.\<close>

definition timedProxyWorker_turn ::
  "int \<Rightarrow> unit go \<times> 's \<times> ProxyStatsEntry \<Rightarrow> unit go \<times> 's \<times> ProxyStatsEntry" where
  "timedProxyWorker_turn wid handled =
     (case handled of (r, (s, stats)) \<Rightarrow> (r, (s, stats\<lparr>WorkerID := wid\<rparr>)))"

lemma untimed_turn [simp]: "untimed (timedProxyWorker_turn wid x) = untimed x"
  by (simp add: timedProxyWorker_turn_def untimed_def split: prod.split)

lemma turn_WorkerID: "timedProxyWorker_turn wid x = (r, (s, st)) \<Longrightarrow> WorkerID st = wid"
  by (auto simp: timedProxyWorker_turn_def split: prod.splits)

text \<open>Without an error in the original destination, both modes do the same to the connection.\<close>

context timed_cache begin

lemma timed_connection:
  assumes "http_ReadRequest N s = (Ret req, s1)"
  shows "same_result
    (untimed (handleConnectionTimed_run since N eof GetTimed adapters fwd bypass (log, addr, None) s))
    (handleConnection_run N Get adapters fwd bypass (log, addr, None) s)"
  using timed_handler [OF assms]
  by (simp add: handleConnectionTimed_run_def handleConnection_run_def handleConnectionTimed_def
      handleConnection_def)

end

section \<open>The timed handler comes back\<close>

text \<open>
  A request that cannot be read is answered with status 400; a read one as the plain proxy would.
\<close>

context http_net begin

lemma timed_unreadable:
  assumes "ok s" and "http_ReadRequest N s = (Err e, s1)"
  shows "\<exists>s' st r. handleHttpTimed since N eof GetTimed adapters addr s = (Ret (), (s', st)) \<and> ok s' \<and>
    out s' = out s @ [written r (Line bad_request)]"
proof -
  have s1: "ok s1" "out s1 = out s" using request_law [OF assms] by simp_all
  obtain r s2 where w: "conn_Write N (Line bad_request) s1 = (r, s2)" by fastforce
  with s1 have s2: "ok s2" "\<forall>m. r \<noteq> Panic m" "out s2 = out s @ [written r (Line bad_request)]"
    using write_law [OF _ w] by simp_all
  then have "ok (client_Close N s2)" "out (client_Close N s2) = out s @ [written r (Line bad_request)]"
    using client_close_law [OF s2(1)] by simp_all
  with w s2(2) show ?thesis by (cases r) (auto simp: handleHttpTimed_def assms(2))
qed

end

definition timed_fine ::
  "(TCPAddr \<Rightarrow> http_request \<Rightarrow> http_response \<Rightarrow> bool) \<Rightarrow> ('c \<Rightarrow> TCPAddr) \<Rightarrow>
     ('c, http_request go, sent, ProxyStatsEntry) turn \<Rightarrow> bool" where
  "timed_fine answers dst t \<longleftrightarrow>
     WorkerID (turn_result t) = int (turn_worker t) \<and>
     (case turn_request t of
        Ret q \<Rightarrow> answered (answers (dst (turn_conn t)) q) (turn_sent t)
      | _ \<Rightarrow> \<exists>r. turn_sent t = [written r (Line bad_request)])"

lemma same_result_same: "same_result x y \<Longrightarrow> fst y = Ret () \<Longrightarrow> fst x = Ret () \<and> snd x = snd y"
  by (erule same_result_cases) auto

context caching_proxy begin

lemma timed_serves:
  assumes "timed_cache Get GetTimed" and "ok s"
  shows "\<exists>s' st ms. handleHttpTimed since N eof GetTimed adapters (Some a) s = (Ret (), (s', st)) \<and> ok s' \<and>
    out s' = out s @ ms \<and>
    (case fst (http_ReadRequest N s) of
       Ret q \<Rightarrow> answered (answers a q) ms
     | _ \<Rightarrow> \<exists>r. ms = [written r (Line bad_request)])"
proof -
  obtain rq s1 where rd: "http_ReadRequest N s = (rq, s1)" by fastforce
  show ?thesis
  proof (cases rq)
    case (Ret q)
    have plain: "serves ok out (answered (answers a q)) (out s) (handleHttpInternal N Get adapters (Some a) s)"
      using handler_transparent [OF assms(2) rd, of a] Ret by (auto simp: serves_def)
    then have "fst (handleHttpInternal N Get adapters (Some a) s) = Ret ()" by (simp add: serves_def)
    from same_result_same [OF timed_cache.timed_handler [OF assms(1) rd [unfolded Ret]] this]
    have "fst (handleHttpTimed since N eof GetTimed adapters (Some a) s) = Ret ()"
      "fst (snd (handleHttpTimed since N eof GetTimed adapters (Some a) s)) =
        snd (handleHttpInternal N Get adapters (Some a) s)"
      by (simp_all add: untimed_def)
    with plain rd Ret show ?thesis
      by (cases "handleHttpTimed since N eof GetTimed adapters (Some a) s") (auto simp: serves_def)
  next
    case (Err e)
    with timed_unreadable [OF assms(2) rd [unfolded Err]] rd show ?thesis by fastforce
  qed (use request_law [OF assms(2) rd] in simp)
qed

lemma timed_worker_handler:
  assumes "timed_cache Get GetTimed"
  shows "serving_handler stalls
    (\<lambda>i c s. timedProxyWorker_turn (int i)
       (handleConnectionTimed_run since N eof GetTimed adapters fwd False ([], Some (dst c), None) s))
    (\<lambda>s. fst (http_ReadRequest N s)) out ok (timed_fine answers dst)"
proof
  fix s c i
  assume "ok s"
  from timed_serves [OF assms this, of since eof "dst c"] obtain s' st ms where
    "handleHttpTimed since N eof GetTimed adapters (Some (dst c)) s = (Ret (), (s', st))" "ok s'"
    "out s' = out s @ ms"
    "case fst (http_ReadRequest N s) of
       Ret q \<Rightarrow> answered (answers (dst c) q) ms
     | _ \<Rightarrow> \<exists>r. ms = [written r (Line bad_request)]"
    by blast
  then show "\<exists>s' r ms. timedProxyWorker_turn (int i)
        (handleConnectionTimed_run since N eof GetTimed adapters fwd False ([], Some (dst c), None) s) =
        (Ret (), (s', r)) \<and> ok s' \<and> out s' = out s @ ms \<and>
      timed_fine answers dst \<lparr>turn_worker = i, turn_conn = c, turn_request = fst (http_ReadRequest N s),
        turn_sent = ms, turn_result = r\<rparr>"
    by (auto simp: handleConnectionTimed_run_def handleConnectionTimed_def timedProxyWorker_turn_def timed_fine_def
        split: go.splits)
qed

end

text \<open>What a signal writes, on a file system without files.\<close>

lemma fresh_statistics:
  "on_signal rfc3339 append_to True now1 now2 (Some es) stats (\<lambda>f. []) =
     (Exited 0, (\<lambda>f. [])
        (''cache-stats-'' @ now1 @ ''.csv'' := cache_stats_header @ concat (map (cache_stats_row rfc3339) es),
         ''proxy-stats-'' @ now2 @ ''.csv'' := proxy_stats_header @ concat (map proxy_stats_row stats)))"
  by (simp only: signal_writes_statistics Let_def if_True append_Nil)

section \<open>Properties\<close>

text \<open>C16. In timed mode, over any network, cache and adapters that keep their contracts, and with
  any condition stalls on what makes a handler wait: the entry of every turn that comes back
  carries the number of the worker that took the job, which is one of the 1000, and the turn has
  answered the client, with status 400 if its request could not be read; the accepted
  connections are, each once, those of the turns and those still on their way; and the entries
  on their way to the statistics are, one for one, those of the turns. The internal steps are
  bounded, and where none is left and fewer than 1000 of the accepted connections stall, all
  entries have been collected and only connections that stall have none.\<close>

theorem timed_statistics_complete:
  assumes "caching_proxy Get N good_state out chan answers good adapters" and "timed_cache Get GetTimed"
    and H: "H = (\<lambda>i c s. timedProxyWorker_turn (int i)
      (handleConnectionTimed_run since N eof GetTimed adapters fwd False ([], Some (dst c), None) s))"
    and request: "request = (\<lambda>s. fst (http_ReadRequest N s))"
    and "serving_run MAX_WORKERS MAX_BUFFER_SIZE stalls H request out good_state cs (p, s, turns)"
    and "(serve_step MAX_BUFFER_SIZE stalls H request out ^^ n) (p, s, turns) (p', s', turns')"
  shows "n \<le> pool_weight p \<and>
    list_all (\<lambda>t. turn_worker t < MAX_WORKERS) turns' \<and> list_all (timed_fine answers dst) turns' \<and>
    mset cs = mset (map turn_conn turns') + waiting_conns p' \<and> mset (map turn_result turns') = results p' \<and>
    ((\<nexists>y. serve_step MAX_BUFFER_SIZE stalls H request out (p', s', turns') y) \<and>
       length (filter (\<lambda>c. stalls c s') cs) < MAX_WORKERS \<longrightarrow>
       (\<forall>c \<in># waiting_conns p'. stalls c s') \<and> connections p' = int (size (waiting_conns p')) \<and>
       results p' = mset (collectedStats p'))"
  using serving_handler.serving_serves_all
    [OF caching_proxy.timed_worker_handler [OF assms(1,2), where stalls = stalls and since = since and eof = eof
      and fwd = fwd and dst = dst, folded H request] assms(5,6)]
  by blast

text \<open>The entry of one connection whose object is fetched and cached, through the pool.\<close>

definition ex_timed_get ::
  "string \<Rightarrow> (world \<times> ProxyStatsEntry) initializer option \<Rightarrow> world \<times> ProxyStatsEntry \<Rightarrow>
     (object option go \<times> int \<times> int) \<times> world \<times> ProxyStatsEntry" where
  "ex_timed_get = bigcache_GetTimed (\<lambda>w w'. 9) (lift_bigcache (world_bigcache (\<lambda>key data. True)))"

lemma ex_world_ok: "world_ok minio_host same_origin empty_world"
  by (simp add: world_ok_def empty_world_def)

lemma ex_timed_cache: "timed_cache (bigcache_Get (world_bigcache (\<lambda>key data. True))) ex_timed_get"
  unfolding ex_timed_get_def by (rule bigcache_timed.timed_cache_axioms)

lemma timed_statistics_complete_witness:
  "\<exists>st. WorkerID st = 0 \<and> mset (collectedStats (ex_final st :: (TCPAddr, ProxyStatsEntry) pool)) = {#st#} \<and>
     connections (ex_final st :: (TCPAddr, ProxyStatsEntry) pool) =
       int (size (waiting_conns (ex_final st :: (TCPAddr, ProxyStatsEntry) pool)))"
proof -
  let ?c = "server 1"
  define stalls where "stalls = (\<lambda>(c :: TCPAddr) (s :: world). False)"
  define H where "H = (\<lambda>(i :: nat) (c :: TCPAddr) s. timedProxyWorker_turn (int i) (handleConnectionTimed_run (\<lambda>w w'. 5)
    (world_net same_origin) (Go_error ''unexpected EOF'') ex_timed_get [NewMinIOAdapter minio_host]
    (\<lambda>a s. (Ret (), s)) False ([], Some ((\<lambda>c. c) c), None) s))"
  define request where "request = (\<lambda>s. fst (http_ReadRequest (world_net same_origin) s))"
  have handler: "serving_handler stalls H request w_out (world_ok minio_host same_origin)
      (timed_fine (\<lambda>a q res. res = same_origin a q) (\<lambda>c. c))"
    unfolding H_def request_def
    by (rule caching_proxy.timed_worker_handler [OF ex_world.proxy.caching_proxy_axioms ex_timed_cache])
  have goes: "\<not> stalls ?c empty_world" by (simp add: stalls_def)
  obtain s' st ms where turn: "H 0 ?c empty_world = (Ret (), (s', st))" "w_out s' = w_out empty_world @ ms"
    using serving_handler.turn_law [OF handler, of empty_world ?c 0] ex_world_ok goes by blast
  note steps = ex_serving [where stalls = stalls and H = H and out = w_out and request = request, OF goes turn]
  have few: "length (filter (\<lambda>c. stalls c s') [?c]) < MAX_WORKERS" by (simp add: stalls_def MAX_WORKERS_def)
  note result = timed_statistics_complete [OF ex_world.proxy.caching_proxy_axioms ex_timed_cache H_def request_def
      ex_serving_run [where good_state = "world_ok minio_host same_origin", OF ex_world_ok] steps]
  let ?p = "ex_final st :: (TCPAddr, ProxyStatsEntry) pool"
  have "connections ?p = int (size (waiting_conns ?p))"
    using result ex_serving_stuck [of stalls H request w_out st s'] few by blast
  moreover have "WorkerID st = 0"
    using result by (simp only: list.pred_inject(2) timed_fine_def turn.simps of_nat_0)
  moreover have "mset (collectedStats ?p) = {#st#}" by (simp add: ex_final_def)
  ultimately show ?thesis by blast
qed

end
