(* ===== verification/Helper_Types.thy ===== *)
theory Helper_Types
  imports Prelude
begin

text \<open>
  The vocabulary of \<^verbatim>\<open>bpf-builtin.h\<close>: the C types its prototypes use, and a prototype as a record.
  The header declares every kernel helper as a
  constant function pointer whose address is the helper's call number; its comments document what
  each helper returns.
\<close>

section \<open>C types\<close>

datatype c_scalar =
    C_void | C_char | C_int | C_long | C_ulong
  | C_u16 | C_u32 | C_u64 | C_s32 | C_s64
  | C_be16 | C_be32 | C_wsum
  | C_struct string

datatype c_type = Val c_scalar | PtrTo c_scalar | ConstPtrTo c_scalar

fun signed_scalar :: "c_scalar \<Rightarrow> bool" where
  "signed_scalar C_int = True"
| "signed_scalar C_long = True"
| "signed_scalar C_s32 = True"
| "signed_scalar C_s64 = True"
| "signed_scalar _ = False"

fun signed_type :: "c_type \<Rightarrow> bool" where
  "signed_type (Val s) = signed_scalar s"
| "signed_type _ = False"

fun pointer_type :: "c_type \<Rightarrow> bool" where
  "pointer_type (Val _) = False"
| "pointer_type _ = True"

fun structs_of_scalar :: "c_scalar \<Rightarrow> string list" where
  "structs_of_scalar (C_struct s) = [s]"
| "structs_of_scalar _ = []"

fun structs_of :: "c_type \<Rightarrow> string list" where
  "structs_of (Val s) = structs_of_scalar s"
| "structs_of (PtrTo s) = structs_of_scalar s"
| "structs_of (ConstPtrTo s) = structs_of_scalar s"

section \<open>Prototypes\<close>

text \<open>
  The exceptional result that the "Returns" paragraph of a helper's comment names: a negative error
  code, the null pointer, zero, another distinguished value (a verdict, \<^verbatim>\<open>overflowuid\<close>), or none.
\<close>

datatype exceptional = Negative_error | Null_pointer | Zero | Special_value | No_exception

record helper =
  h_ret :: c_type
  h_name :: string
  h_params :: "c_type list"
  h_variadic :: bool
  h_id :: nat
  h_exn :: exceptional

definition fn :: "c_type \<Rightarrow> string \<Rightarrow> c_type list \<Rightarrow> nat \<Rightarrow> exceptional \<Rightarrow> helper" where
  "fn r n ps i x =
     \<lparr>h_ret = r, h_name = n, h_params = ps, h_variadic = False, h_id = i, h_exn = x\<rparr>"

definition fn_variadic :: "c_type \<Rightarrow> string \<Rightarrow> c_type list \<Rightarrow> nat \<Rightarrow> exceptional \<Rightarrow> helper" where
  "fn_variadic r n ps i x =
     \<lparr>h_ret = r, h_name = n, h_params = ps, h_variadic = True, h_id = i, h_exn = x\<rparr>"

lemma fn_sel [simp]:
  "h_ret (fn r n ps i x) = r" "h_name (fn r n ps i x) = n" "h_params (fn r n ps i x) = ps"
  "h_variadic (fn r n ps i x) = False" "h_id (fn r n ps i x) = i" "h_exn (fn r n ps i x) = x"
  by (simp_all add: fn_def)

lemma fn_variadic_sel [simp]:
  "h_ret (fn_variadic r n ps i x) = r" "h_name (fn_variadic r n ps i x) = n"
  "h_params (fn_variadic r n ps i x) = ps" "h_variadic (fn_variadic r n ps i x) = True"
  "h_id (fn_variadic r n ps i x) = i" "h_exn (fn_variadic r n ps i x) = x"
  by (simp_all add: fn_variadic_def)

section \<open>Passing arguments\<close>

text \<open>A helper call passes its arguments in the five registers R1 to R5.\<close>

definition max_call_args :: nat where
  "max_call_args = 5"

end
