(* ===== verification/Helper_Table.thy ===== *)
theory Helper_Table
  imports Helper_Types
begin

text \<open>
  The prototypes of \<^verbatim>\<open>bpf-builtin.h\<close>, in the header's order and in groups that follow its lines:
  for each helper its return type, name, parameter types (the parameters' names are dropped), call
  number, and the exceptional result its comment documents.
\<close>

section \<open>Forward declarations\<close>

definition forward_structs :: "string list" where
  "forward_structs =
    [''bpf_fib_lookup'', ''bpf_sk_lookup'', ''bpf_perf_event_data'', ''bpf_perf_event_value'',
     ''bpf_pidns_info'', ''bpf_redir_neigh'', ''bpf_sock'', ''bpf_sock_addr'',
     ''bpf_sock_ops'', ''bpf_sock_tuple'', ''bpf_spin_lock'', ''bpf_sysctl'',
     ''bpf_tcp_sock'', ''bpf_tunnel_key'', ''bpf_xfrm_state'', ''linux_binprm'',
     ''pt_regs'', ''sk_reuseport_md'', ''sockaddr'', ''tcphdr'',
     ''seq_file'', ''tcp6_sock'', ''tcp_sock'', ''tcp_timewait_sock'',
     ''tcp_request_sock'', ''udp6_sock'', ''unix_sock'', ''task_struct'',
     ''cgroup'', ''__sk_buff'', ''sk_msg_md'', ''xdp_md'',
     ''path'', ''btf_ptr'', ''inode'', ''socket'',
     ''file'', ''bpf_timer'', ''mptcp_sock'', ''bpf_dynptr'',
     ''iphdr'', ''ipv6hdr'']"

section \<open>Prototypes\<close>

definition helpers_001_006 :: "helper list" where
  "helpers_001_006 = [
    fn (PtrTo C_void) ''bpf_map_lookup_elem'' [PtrTo C_void, ConstPtrTo C_void] 1 Null_pointer,
    fn (Val C_long) ''bpf_map_update_elem'' [PtrTo C_void, ConstPtrTo C_void, ConstPtrTo C_void, Val C_u64] 2 Negative_error,
    fn (Val C_long) ''bpf_map_delete_elem'' [PtrTo C_void, ConstPtrTo C_void] 3 Negative_error,
    fn (Val C_long) ''bpf_probe_read'' [PtrTo C_void, Val C_u32, ConstPtrTo C_void] 4 Negative_error,
    fn (Val C_u64) ''bpf_ktime_get_ns'' [] 5 No_exception,
    fn_variadic (Val C_long) ''bpf_trace_printk'' [ConstPtrTo C_char, Val C_u32] 6 Negative_error]"

definition helpers_007_011 :: "helper list" where
  "helpers_007_011 = [
    fn (Val C_u32) ''bpf_get_prandom_u32'' [] 7 No_exception,
    fn (Val C_u32) ''bpf_get_smp_processor_id'' [] 8 No_exception,
    fn (Val C_long) ''bpf_skb_store_bytes'' [PtrTo (C_struct ''__sk_buff''), Val C_u32, ConstPtrTo C_void, Val C_u32, Val C_u64] 9 Negative_error,
    fn (Val C_long) ''bpf_l3_csum_replace'' [PtrTo (C_struct ''__sk_buff''), Val C_u32, Val C_u64, Val C_u64, Val C_u64] 10 Negative_error,
    fn (Val C_long) ''bpf_l4_csum_replace'' [PtrTo (C_struct ''__sk_buff''), Val C_u32, Val C_u64, Val C_u64, Val C_u64] 11 Negative_error]"

definition helpers_012_017 :: "helper list" where
  "helpers_012_017 = [
    fn (Val C_long) ''bpf_tail_call'' [PtrTo C_void, PtrTo C_void, Val C_u32] 12 Negative_error,
    fn (Val C_long) ''bpf_clone_redirect'' [PtrTo (C_struct ''__sk_buff''), Val C_u32, Val C_u64] 13 Negative_error,
    fn (Val C_u64) ''bpf_get_current_pid_tgid'' [] 14 No_exception,
    fn (Val C_u64) ''bpf_get_current_uid_gid'' [] 15 No_exception,
    fn (Val C_long) ''bpf_get_current_comm'' [PtrTo C_void, Val C_u32] 16 Negative_error,
    fn (Val C_u32) ''bpf_get_cgroup_classid'' [PtrTo (C_struct ''__sk_buff'')] 17 Zero]"

definition helpers_018_021 :: "helper list" where
  "helpers_018_021 = [
    fn (Val C_long) ''bpf_skb_vlan_push'' [PtrTo (C_struct ''__sk_buff''), Val C_be16, Val C_u16] 18 Negative_error,
    fn (Val C_long) ''bpf_skb_vlan_pop'' [PtrTo (C_struct ''__sk_buff'')] 19 Negative_error,
    fn (Val C_long) ''bpf_skb_get_tunnel_key'' [PtrTo (C_struct ''__sk_buff''), PtrTo (C_struct ''bpf_tunnel_key''), Val C_u32, Val C_u64] 20 Negative_error,
    fn (Val C_long) ''bpf_skb_set_tunnel_key'' [PtrTo (C_struct ''__sk_buff''), PtrTo (C_struct ''bpf_tunnel_key''), Val C_u32, Val C_u64] 21 Negative_error]"

definition helpers_022_025 :: "helper list" where
  "helpers_022_025 = [
    fn (Val C_u64) ''bpf_perf_event_read'' [PtrTo C_void, Val C_u64] 22 Negative_error,
    fn (Val C_long) ''bpf_redirect'' [Val C_u32, Val C_u64] 23 Special_value,
    fn (Val C_u32) ''bpf_get_route_realm'' [PtrTo (C_struct ''__sk_buff'')] 24 Zero,
    fn (Val C_long) ''bpf_perf_event_output'' [PtrTo C_void, PtrTo C_void, Val C_u64, PtrTo C_void, Val C_u64] 25 Negative_error]"

definition helpers_026_030 :: "helper list" where
  "helpers_026_030 = [
    fn (Val C_long) ''bpf_skb_load_bytes'' [ConstPtrTo C_void, Val C_u32, PtrTo C_void, Val C_u32] 26 Negative_error,
    fn (Val C_long) ''bpf_get_stackid'' [PtrTo C_void, PtrTo C_void, Val C_u64] 27 Negative_error,
    fn (Val C_s64) ''bpf_csum_diff'' [PtrTo C_be32, Val C_u32, PtrTo C_be32, Val C_u32, Val C_wsum] 28 Negative_error,
    fn (Val C_long) ''bpf_skb_get_tunnel_opt'' [PtrTo (C_struct ''__sk_buff''), PtrTo C_void, Val C_u32] 29 No_exception,
    fn (Val C_long) ''bpf_skb_set_tunnel_opt'' [PtrTo (C_struct ''__sk_buff''), PtrTo C_void, Val C_u32] 30 Negative_error]"

definition helpers_031_037 :: "helper list" where
  "helpers_031_037 = [
    fn (Val C_long) ''bpf_skb_change_proto'' [PtrTo (C_struct ''__sk_buff''), Val C_be16, Val C_u64] 31 Negative_error,
    fn (Val C_long) ''bpf_skb_change_type'' [PtrTo (C_struct ''__sk_buff''), Val C_u32] 32 Negative_error,
    fn (Val C_long) ''bpf_skb_under_cgroup'' [PtrTo (C_struct ''__sk_buff''), PtrTo C_void, Val C_u32] 33 Negative_error,
    fn (Val C_u32) ''bpf_get_hash_recalc'' [PtrTo (C_struct ''__sk_buff'')] 34 No_exception,
    fn (Val C_u64) ''bpf_get_current_task'' [] 35 No_exception,
    fn (Val C_long) ''bpf_probe_write_user'' [PtrTo C_void, ConstPtrTo C_void, Val C_u32] 36 Negative_error,
    fn (Val C_long) ''bpf_current_task_under_cgroup'' [PtrTo C_void, Val C_u32] 37 Negative_error]"

definition helpers_038_043 :: "helper list" where
  "helpers_038_043 = [
    fn (Val C_long) ''bpf_skb_change_tail'' [PtrTo (C_struct ''__sk_buff''), Val C_u32, Val C_u64] 38 Negative_error,
    fn (Val C_long) ''bpf_skb_pull_data'' [PtrTo (C_struct ''__sk_buff''), Val C_u32] 39 Negative_error,
    fn (Val C_s64) ''bpf_csum_update'' [PtrTo (C_struct ''__sk_buff''), Val C_wsum] 40 Negative_error,
    fn (Val C_void) ''bpf_set_hash_invalid'' [PtrTo (C_struct ''__sk_buff'')] 41 No_exception,
    fn (Val C_long) ''bpf_get_numa_node_id'' [] 42 No_exception,
    fn (Val C_long) ''bpf_skb_change_head'' [PtrTo (C_struct ''__sk_buff''), Val C_u32, Val C_u64] 43 Negative_error]"

definition helpers_044_049 :: "helper list" where
  "helpers_044_049 = [
    fn (Val C_long) ''bpf_xdp_adjust_head'' [PtrTo (C_struct ''xdp_md''), Val C_int] 44 Negative_error,
    fn (Val C_long) ''bpf_probe_read_str'' [PtrTo C_void, Val C_u32, ConstPtrTo C_void] 45 Negative_error,
    fn (Val C_u64) ''bpf_get_socket_cookie'' [PtrTo C_void] 46 Zero,
    fn (Val C_u32) ''bpf_get_socket_uid'' [PtrTo (C_struct ''__sk_buff'')] 47 Special_value,
    fn (Val C_long) ''bpf_set_hash'' [PtrTo (C_struct ''__sk_buff''), Val C_u32] 48 No_exception,
    fn (Val C_long) ''bpf_setsockopt'' [PtrTo C_void, Val C_int, Val C_int, PtrTo C_void, Val C_int] 49 Negative_error]"

definition helpers_050_053 :: "helper list" where
  "helpers_050_053 = [
    fn (Val C_long) ''bpf_skb_adjust_room'' [PtrTo (C_struct ''__sk_buff''), Val C_s32, Val C_u32, Val C_u64] 50 Negative_error,
    fn (Val C_long) ''bpf_redirect_map'' [PtrTo C_void, Val C_u64, Val C_u64] 51 Special_value,
    fn (Val C_long) ''bpf_sk_redirect_map'' [PtrTo (C_struct ''__sk_buff''), PtrTo C_void, Val C_u32, Val C_u64] 52 Special_value,
    fn (Val C_long) ''bpf_sock_map_update'' [PtrTo (C_struct ''bpf_sock_ops''), PtrTo C_void, PtrTo C_void, Val C_u64] 53 Negative_error]"

definition helpers_054_057 :: "helper list" where
  "helpers_054_057 = [
    fn (Val C_long) ''bpf_xdp_adjust_meta'' [PtrTo (C_struct ''xdp_md''), Val C_int] 54 Negative_error,
    fn (Val C_long) ''bpf_perf_event_read_value'' [PtrTo C_void, Val C_u64, PtrTo (C_struct ''bpf_perf_event_value''), Val C_u32] 55 Negative_error,
    fn (Val C_long) ''bpf_perf_prog_read_value'' [PtrTo (C_struct ''bpf_perf_event_data''), PtrTo (C_struct ''bpf_perf_event_value''), Val C_u32] 56 Negative_error,
    fn (Val C_long) ''bpf_getsockopt'' [PtrTo C_void, Val C_int, Val C_int, PtrTo C_void, Val C_int] 57 Negative_error]"

definition helpers_058_061 :: "helper list" where
  "helpers_058_061 = [
    fn (Val C_long) ''bpf_override_return'' [PtrTo (C_struct ''pt_regs''), Val C_u64] 58 No_exception,
    fn (Val C_long) ''bpf_sock_ops_cb_flags_set'' [PtrTo (C_struct ''bpf_sock_ops''), Val C_int] 59 Negative_error,
    fn (Val C_long) ''bpf_msg_redirect_map'' [PtrTo (C_struct ''sk_msg_md''), PtrTo C_void, Val C_u32, Val C_u64] 60 Special_value,
    fn (Val C_long) ''bpf_msg_apply_bytes'' [PtrTo (C_struct ''sk_msg_md''), Val C_u32] 61 No_exception]"

definition helpers_062_066 :: "helper list" where
  "helpers_062_066 = [
    fn (Val C_long) ''bpf_msg_cork_bytes'' [PtrTo (C_struct ''sk_msg_md''), Val C_u32] 62 No_exception,
    fn (Val C_long) ''bpf_msg_pull_data'' [PtrTo (C_struct ''sk_msg_md''), Val C_u32, Val C_u32, Val C_u64] 63 Negative_error,
    fn (Val C_long) ''bpf_bind'' [PtrTo (C_struct ''bpf_sock_addr''), PtrTo (C_struct ''sockaddr''), Val C_int] 64 Negative_error,
    fn (Val C_long) ''bpf_xdp_adjust_tail'' [PtrTo (C_struct ''xdp_md''), Val C_int] 65 Negative_error,
    fn (Val C_long) ''bpf_skb_get_xfrm_state'' [PtrTo (C_struct ''__sk_buff''), Val C_u32, PtrTo (C_struct ''bpf_xfrm_state''), Val C_u32, Val C_u64] 66 Negative_error]"

definition helpers_067_070 :: "helper list" where
  "helpers_067_070 = [
    fn (Val C_long) ''bpf_get_stack'' [PtrTo C_void, PtrTo C_void, Val C_u32, Val C_u64] 67 Negative_error,
    fn (Val C_long) ''bpf_skb_load_bytes_relative'' [ConstPtrTo C_void, Val C_u32, PtrTo C_void, Val C_u32, Val C_u32] 68 Negative_error,
    fn (Val C_long) ''bpf_fib_lookup'' [PtrTo C_void, PtrTo (C_struct ''bpf_fib_lookup''), Val C_int, Val C_u32] 69 Negative_error,
    fn (Val C_long) ''bpf_sock_hash_update'' [PtrTo (C_struct ''bpf_sock_ops''), PtrTo C_void, PtrTo C_void, Val C_u64] 70 Negative_error]"

definition helpers_071_075 :: "helper list" where
  "helpers_071_075 = [
    fn (Val C_long) ''bpf_msg_redirect_hash'' [PtrTo (C_struct ''sk_msg_md''), PtrTo C_void, PtrTo C_void, Val C_u64] 71 Special_value,
    fn (Val C_long) ''bpf_sk_redirect_hash'' [PtrTo (C_struct ''__sk_buff''), PtrTo C_void, PtrTo C_void, Val C_u64] 72 Special_value,
    fn (Val C_long) ''bpf_lwt_push_encap'' [PtrTo (C_struct ''__sk_buff''), Val C_u32, PtrTo C_void, Val C_u32] 73 Negative_error,
    fn (Val C_long) ''bpf_lwt_seg6_store_bytes'' [PtrTo (C_struct ''__sk_buff''), Val C_u32, ConstPtrTo C_void, Val C_u32] 74 Negative_error,
    fn (Val C_long) ''bpf_lwt_seg6_adjust_srh'' [PtrTo (C_struct ''__sk_buff''), Val C_u32, Val C_s32] 75 Negative_error]"

definition helpers_076_081 :: "helper list" where
  "helpers_076_081 = [
    fn (Val C_long) ''bpf_lwt_seg6_action'' [PtrTo (C_struct ''__sk_buff''), Val C_u32, PtrTo C_void, Val C_u32] 76 Negative_error,
    fn (Val C_long) ''bpf_rc_repeat'' [PtrTo C_void] 77 No_exception,
    fn (Val C_long) ''bpf_rc_keydown'' [PtrTo C_void, Val C_u32, Val C_u64, Val C_u32] 78 No_exception,
    fn (Val C_u64) ''bpf_skb_cgroup_id'' [PtrTo (C_struct ''__sk_buff'')] 79 Zero,
    fn (Val C_u64) ''bpf_get_current_cgroup_id'' [] 80 No_exception,
    fn (PtrTo C_void) ''bpf_get_local_storage'' [PtrTo C_void, Val C_u64] 81 No_exception]"

definition helpers_082_086 :: "helper list" where
  "helpers_082_086 = [
    fn (Val C_long) ''bpf_sk_select_reuseport'' [PtrTo (C_struct ''sk_reuseport_md''), PtrTo C_void, PtrTo C_void, Val C_u64] 82 Negative_error,
    fn (Val C_u64) ''bpf_skb_ancestor_cgroup_id'' [PtrTo (C_struct ''__sk_buff''), Val C_int] 83 Zero,
    fn (PtrTo (C_struct ''bpf_sock'')) ''bpf_sk_lookup_tcp'' [PtrTo C_void, PtrTo (C_struct ''bpf_sock_tuple''), Val C_u32, Val C_u64, Val C_u64] 84 Null_pointer,
    fn (PtrTo (C_struct ''bpf_sock'')) ''bpf_sk_lookup_udp'' [PtrTo C_void, PtrTo (C_struct ''bpf_sock_tuple''), Val C_u32, Val C_u64, Val C_u64] 85 Null_pointer,
    fn (Val C_long) ''bpf_sk_release'' [PtrTo C_void] 86 Negative_error]"

definition helpers_087_093 :: "helper list" where
  "helpers_087_093 = [
    fn (Val C_long) ''bpf_map_push_elem'' [PtrTo C_void, ConstPtrTo C_void, Val C_u64] 87 Negative_error,
    fn (Val C_long) ''bpf_map_pop_elem'' [PtrTo C_void, PtrTo C_void] 88 Negative_error,
    fn (Val C_long) ''bpf_map_peek_elem'' [PtrTo C_void, PtrTo C_void] 89 Negative_error,
    fn (Val C_long) ''bpf_msg_push_data'' [PtrTo (C_struct ''sk_msg_md''), Val C_u32, Val C_u32, Val C_u64] 90 Negative_error,
    fn (Val C_long) ''bpf_msg_pop_data'' [PtrTo (C_struct ''sk_msg_md''), Val C_u32, Val C_u32, Val C_u64] 91 Negative_error,
    fn (Val C_long) ''bpf_rc_pointer_rel'' [PtrTo C_void, Val C_s32, Val C_s32] 92 No_exception,
    fn (Val C_long) ''bpf_spin_lock'' [PtrTo (C_struct ''bpf_spin_lock'')] 93 No_exception]"

definition helpers_094_101 :: "helper list" where
  "helpers_094_101 = [
    fn (Val C_long) ''bpf_spin_unlock'' [PtrTo (C_struct ''bpf_spin_lock'')] 94 No_exception,
    fn (PtrTo (C_struct ''bpf_sock'')) ''bpf_sk_fullsock'' [PtrTo (C_struct ''bpf_sock'')] 95 Null_pointer,
    fn (PtrTo (C_struct ''bpf_tcp_sock'')) ''bpf_tcp_sock'' [PtrTo (C_struct ''bpf_sock'')] 96 Null_pointer,
    fn (Val C_long) ''bpf_skb_ecn_set_ce'' [PtrTo (C_struct ''__sk_buff'')] 97 No_exception,
    fn (PtrTo (C_struct ''bpf_sock'')) ''bpf_get_listener_sock'' [PtrTo (C_struct ''bpf_sock'')] 98 Null_pointer,
    fn (PtrTo (C_struct ''bpf_sock'')) ''bpf_skc_lookup_tcp'' [PtrTo C_void, PtrTo (C_struct ''bpf_sock_tuple''), Val C_u32, Val C_u64, Val C_u64] 99 Null_pointer,
    fn (Val C_long) ''bpf_tcp_check_syncookie'' [PtrTo C_void, PtrTo C_void, Val C_u32, PtrTo (C_struct ''tcphdr''), Val C_u32] 100 Negative_error,
    fn (Val C_long) ''bpf_sysctl_get_name'' [PtrTo (C_struct ''bpf_sysctl''), PtrTo C_char, Val C_ulong, Val C_u64] 101 Negative_error]"

definition helpers_102_106 :: "helper list" where
  "helpers_102_106 = [
    fn (Val C_long) ''bpf_sysctl_get_current_value'' [PtrTo (C_struct ''bpf_sysctl''), PtrTo C_char, Val C_ulong] 102 Negative_error,
    fn (Val C_long) ''bpf_sysctl_get_new_value'' [PtrTo (C_struct ''bpf_sysctl''), PtrTo C_char, Val C_ulong] 103 Negative_error,
    fn (Val C_long) ''bpf_sysctl_set_new_value'' [PtrTo (C_struct ''bpf_sysctl''), ConstPtrTo C_char, Val C_ulong] 104 Negative_error,
    fn (Val C_long) ''bpf_strtol'' [ConstPtrTo C_char, Val C_ulong, Val C_u64, PtrTo C_long] 105 Negative_error,
    fn (Val C_long) ''bpf_strtoul'' [ConstPtrTo C_char, Val C_ulong, Val C_u64, PtrTo C_ulong] 106 Negative_error]"

definition helpers_107_112 :: "helper list" where
  "helpers_107_112 = [
    fn (PtrTo C_void) ''bpf_sk_storage_get'' [PtrTo C_void, PtrTo C_void, PtrTo C_void, Val C_u64] 107 Null_pointer,
    fn (Val C_long) ''bpf_sk_storage_delete'' [PtrTo C_void, PtrTo C_void] 108 Negative_error,
    fn (Val C_long) ''bpf_send_signal'' [Val C_u32] 109 Negative_error,
    fn (Val C_s64) ''bpf_tcp_gen_syncookie'' [PtrTo C_void, PtrTo C_void, Val C_u32, PtrTo (C_struct ''tcphdr''), Val C_u32] 110 Negative_error,
    fn (Val C_long) ''bpf_skb_output'' [PtrTo C_void, PtrTo C_void, Val C_u64, PtrTo C_void, Val C_u64] 111 Negative_error,
    fn (Val C_long) ''bpf_probe_read_user'' [PtrTo C_void, Val C_u32, ConstPtrTo C_void] 112 Negative_error]"

definition helpers_113_119 :: "helper list" where
  "helpers_113_119 = [
    fn (Val C_long) ''bpf_probe_read_kernel'' [PtrTo C_void, Val C_u32, ConstPtrTo C_void] 113 Negative_error,
    fn (Val C_long) ''bpf_probe_read_user_str'' [PtrTo C_void, Val C_u32, ConstPtrTo C_void] 114 Negative_error,
    fn (Val C_long) ''bpf_probe_read_kernel_str'' [PtrTo C_void, Val C_u32, ConstPtrTo C_void] 115 Negative_error,
    fn (Val C_long) ''bpf_tcp_send_ack'' [PtrTo C_void, Val C_u32] 116 Negative_error,
    fn (Val C_long) ''bpf_send_signal_thread'' [Val C_u32] 117 Negative_error,
    fn (Val C_u64) ''bpf_jiffies64'' [] 118 No_exception,
    fn (Val C_long) ''bpf_read_branch_records'' [PtrTo (C_struct ''bpf_perf_event_data''), PtrTo C_void, Val C_u32, Val C_u64] 119 Negative_error]"

definition helpers_120_125 :: "helper list" where
  "helpers_120_125 = [
    fn (Val C_long) ''bpf_get_ns_current_pid_tgid'' [Val C_u64, Val C_u64, PtrTo (C_struct ''bpf_pidns_info''), Val C_u32] 120 Negative_error,
    fn (Val C_long) ''bpf_xdp_output'' [PtrTo C_void, PtrTo C_void, Val C_u64, PtrTo C_void, Val C_u64] 121 Negative_error,
    fn (Val C_u64) ''bpf_get_netns_cookie'' [PtrTo C_void] 122 No_exception,
    fn (Val C_u64) ''bpf_get_current_ancestor_cgroup_id'' [Val C_int] 123 Zero,
    fn (Val C_long) ''bpf_sk_assign'' [PtrTo C_void, PtrTo C_void, Val C_u64] 124 Negative_error,
    fn (Val C_u64) ''bpf_ktime_get_boot_ns'' [] 125 No_exception]"

definition helpers_126_132 :: "helper list" where
  "helpers_126_132 = [
    fn (Val C_long) ''bpf_seq_printf'' [PtrTo (C_struct ''seq_file''), ConstPtrTo C_char, Val C_u32, ConstPtrTo C_void, Val C_u32] 126 Negative_error,
    fn (Val C_long) ''bpf_seq_write'' [PtrTo (C_struct ''seq_file''), ConstPtrTo C_void, Val C_u32] 127 Negative_error,
    fn (Val C_u64) ''bpf_sk_cgroup_id'' [PtrTo C_void] 128 Zero,
    fn (Val C_u64) ''bpf_sk_ancestor_cgroup_id'' [PtrTo C_void, Val C_int] 129 Zero,
    fn (Val C_long) ''bpf_ringbuf_output'' [PtrTo C_void, PtrTo C_void, Val C_u64, Val C_u64] 130 Negative_error,
    fn (PtrTo C_void) ''bpf_ringbuf_reserve'' [PtrTo C_void, Val C_u64, Val C_u64] 131 Null_pointer,
    fn (Val C_void) ''bpf_ringbuf_submit'' [PtrTo C_void, Val C_u64] 132 No_exception]"

definition helpers_133_140 :: "helper list" where
  "helpers_133_140 = [
    fn (Val C_void) ''bpf_ringbuf_discard'' [PtrTo C_void, Val C_u64] 133 No_exception,
    fn (Val C_u64) ''bpf_ringbuf_query'' [PtrTo C_void, Val C_u64] 134 Zero,
    fn (Val C_long) ''bpf_csum_level'' [PtrTo (C_struct ''__sk_buff''), Val C_u64] 135 Negative_error,
    fn (PtrTo (C_struct ''tcp6_sock'')) ''bpf_skc_to_tcp6_sock'' [PtrTo C_void] 136 Null_pointer,
    fn (PtrTo (C_struct ''tcp_sock'')) ''bpf_skc_to_tcp_sock'' [PtrTo C_void] 137 Null_pointer,
    fn (PtrTo (C_struct ''tcp_timewait_sock'')) ''bpf_skc_to_tcp_timewait_sock'' [PtrTo C_void] 138 Null_pointer,
    fn (PtrTo (C_struct ''tcp_request_sock'')) ''bpf_skc_to_tcp_request_sock'' [PtrTo C_void] 139 Null_pointer,
    fn (PtrTo (C_struct ''udp6_sock'')) ''bpf_skc_to_udp6_sock'' [PtrTo C_void] 140 Null_pointer]"

definition helpers_141_143 :: "helper list" where
  "helpers_141_143 = [
    fn (Val C_long) ''bpf_get_task_stack'' [PtrTo (C_struct ''task_struct''), PtrTo C_void, Val C_u32, Val C_u64] 141 Negative_error,
    fn (Val C_long) ''bpf_load_hdr_opt'' [PtrTo (C_struct ''bpf_sock_ops''), PtrTo C_void, Val C_u32, Val C_u64] 142 Negative_error,
    fn (Val C_long) ''bpf_store_hdr_opt'' [PtrTo (C_struct ''bpf_sock_ops''), ConstPtrTo C_void, Val C_u32, Val C_u64] 143 Negative_error]"

definition helpers_144_149 :: "helper list" where
  "helpers_144_149 = [
    fn (Val C_long) ''bpf_reserve_hdr_opt'' [PtrTo (C_struct ''bpf_sock_ops''), Val C_u32, Val C_u64] 144 Negative_error,
    fn (PtrTo C_void) ''bpf_inode_storage_get'' [PtrTo C_void, PtrTo C_void, PtrTo C_void, Val C_u64] 145 Null_pointer,
    fn (Val C_int) ''bpf_inode_storage_delete'' [PtrTo C_void, PtrTo C_void] 146 Negative_error,
    fn (Val C_long) ''bpf_d_path'' [PtrTo (C_struct ''path''), PtrTo C_char, Val C_u32] 147 Negative_error,
    fn (Val C_long) ''bpf_copy_from_user'' [PtrTo C_void, Val C_u32, ConstPtrTo C_void] 148 Negative_error,
    fn (Val C_long) ''bpf_snprintf_btf'' [PtrTo C_char, Val C_u32, PtrTo (C_struct ''btf_ptr''), Val C_u32, Val C_u64] 149 Negative_error]"

definition helpers_150_156 :: "helper list" where
  "helpers_150_156 = [
    fn (Val C_long) ''bpf_seq_printf_btf'' [PtrTo (C_struct ''seq_file''), PtrTo (C_struct ''btf_ptr''), Val C_u32, Val C_u64] 150 Negative_error,
    fn (Val C_u64) ''bpf_skb_cgroup_classid'' [PtrTo (C_struct ''__sk_buff'')] 151 Zero,
    fn (Val C_long) ''bpf_redirect_neigh'' [Val C_u32, PtrTo (C_struct ''bpf_redir_neigh''), Val C_int, Val C_u64] 152 Special_value,
    fn (PtrTo C_void) ''bpf_per_cpu_ptr'' [ConstPtrTo C_void, Val C_u32] 153 Null_pointer,
    fn (PtrTo C_void) ''bpf_this_cpu_ptr'' [ConstPtrTo C_void] 154 No_exception,
    fn (Val C_long) ''bpf_redirect_peer'' [Val C_u32, Val C_u64] 155 Special_value,
    fn (PtrTo C_void) ''bpf_task_storage_get'' [PtrTo C_void, PtrTo (C_struct ''task_struct''), PtrTo C_void, Val C_u64] 156 Null_pointer]"

definition helpers_157_162 :: "helper list" where
  "helpers_157_162 = [
    fn (Val C_long) ''bpf_task_storage_delete'' [PtrTo C_void, PtrTo (C_struct ''task_struct'')] 157 Negative_error,
    fn (PtrTo (C_struct ''task_struct'')) ''bpf_get_current_task_btf'' [] 158 No_exception,
    fn (Val C_long) ''bpf_bprm_opts_set'' [PtrTo (C_struct ''linux_binprm''), Val C_u64] 159 Negative_error,
    fn (Val C_u64) ''bpf_ktime_get_coarse_ns'' [] 160 No_exception,
    fn (Val C_long) ''bpf_ima_inode_hash'' [PtrTo (C_struct ''inode''), PtrTo C_void, Val C_u32] 161 Negative_error,
    fn (PtrTo (C_struct ''socket'')) ''bpf_sock_from_file'' [PtrTo (C_struct ''file'')] 162 Null_pointer]"

definition helpers_163_165 :: "helper list" where
  "helpers_163_165 = [
    fn (Val C_long) ''bpf_check_mtu'' [PtrTo C_void, Val C_u32, PtrTo C_u32, Val C_s32, Val C_u64] 163 Negative_error,
    fn (Val C_long) ''bpf_for_each_map_elem'' [PtrTo C_void, PtrTo C_void, PtrTo C_void, Val C_u64] 164 Negative_error,
    fn (Val C_long) ''bpf_snprintf'' [PtrTo C_char, Val C_u32, ConstPtrTo C_char, PtrTo C_u64, Val C_u32] 165 Negative_error]"

definition helpers_166_174 :: "helper list" where
  "helpers_166_174 = [
    fn (Val C_long) ''bpf_sys_bpf'' [Val C_u32, PtrTo C_void, Val C_u32] 166 No_exception,
    fn (Val C_long) ''bpf_btf_find_by_name_kind'' [PtrTo C_char, Val C_int, Val C_u32, Val C_int] 167 No_exception,
    fn (Val C_long) ''bpf_sys_close'' [Val C_u32] 168 No_exception,
    fn (Val C_long) ''bpf_timer_init'' [PtrTo (C_struct ''bpf_timer''), PtrTo C_void, Val C_u64] 169 Negative_error,
    fn (Val C_long) ''bpf_timer_set_callback'' [PtrTo (C_struct ''bpf_timer''), PtrTo C_void] 170 Negative_error,
    fn (Val C_long) ''bpf_timer_start'' [PtrTo (C_struct ''bpf_timer''), Val C_u64, Val C_u64] 171 Negative_error,
    fn (Val C_long) ''bpf_timer_cancel'' [PtrTo (C_struct ''bpf_timer'')] 172 Negative_error,
    fn (Val C_u64) ''bpf_get_func_ip'' [PtrTo C_void] 173 Zero,
    fn (Val C_u64) ''bpf_get_attach_cookie'' [PtrTo C_void] 174 Zero]"

definition helpers_175_181 :: "helper list" where
  "helpers_175_181 = [
    fn (Val C_long) ''bpf_task_pt_regs'' [PtrTo (C_struct ''task_struct'')] 175 No_exception,
    fn (Val C_long) ''bpf_get_branch_snapshot'' [PtrTo C_void, Val C_u32, Val C_u64] 176 Negative_error,
    fn (Val C_long) ''bpf_trace_vprintk'' [ConstPtrTo C_char, Val C_u32, ConstPtrTo C_void, Val C_u32] 177 Negative_error,
    fn (PtrTo (C_struct ''unix_sock'')) ''bpf_skc_to_unix_sock'' [PtrTo C_void] 178 Null_pointer,
    fn (Val C_long) ''bpf_kallsyms_lookup_name'' [ConstPtrTo C_char, Val C_int, Val C_int, PtrTo C_u64] 179 Negative_error,
    fn (Val C_long) ''bpf_find_vma'' [PtrTo (C_struct ''task_struct''), Val C_u64, PtrTo C_void, PtrTo C_void, Val C_u64] 180 Negative_error,
    fn (Val C_long) ''bpf_loop'' [Val C_u32, PtrTo C_void, PtrTo C_void, Val C_u64] 181 Negative_error]"

definition helpers_182_191 :: "helper list" where
  "helpers_182_191 = [
    fn (Val C_long) ''bpf_strncmp'' [ConstPtrTo C_char, Val C_u32, ConstPtrTo C_char] 182 No_exception,
    fn (Val C_long) ''bpf_get_func_arg'' [PtrTo C_void, Val C_u32, PtrTo C_u64] 183 Negative_error,
    fn (Val C_long) ''bpf_get_func_ret'' [PtrTo C_void, PtrTo C_u64] 184 Negative_error,
    fn (Val C_long) ''bpf_get_func_arg_cnt'' [PtrTo C_void] 185 No_exception,
    fn (Val C_int) ''bpf_get_retval'' [] 186 No_exception,
    fn (Val C_int) ''bpf_set_retval'' [Val C_int] 187 Negative_error,
    fn (Val C_u64) ''bpf_xdp_get_buff_len'' [PtrTo (C_struct ''xdp_md'')] 188 No_exception,
    fn (Val C_long) ''bpf_xdp_load_bytes'' [PtrTo (C_struct ''xdp_md''), Val C_u32, PtrTo C_void, Val C_u32] 189 Negative_error,
    fn (Val C_long) ''bpf_xdp_store_bytes'' [PtrTo (C_struct ''xdp_md''), Val C_u32, PtrTo C_void, Val C_u32] 190 Negative_error,
    fn (Val C_long) ''bpf_copy_from_user_task'' [PtrTo C_void, Val C_u32, ConstPtrTo C_void, PtrTo (C_struct ''task_struct''), Val C_u64] 191 Negative_error]"

definition helpers_192_199 :: "helper list" where
  "helpers_192_199 = [
    fn (Val C_long) ''bpf_skb_set_tstamp'' [PtrTo (C_struct ''__sk_buff''), Val C_u64, Val C_u32] 192 Negative_error,
    fn (Val C_long) ''bpf_ima_file_hash'' [PtrTo (C_struct ''file''), PtrTo C_void, Val C_u32] 193 Negative_error,
    fn (PtrTo C_void) ''bpf_kptr_xchg'' [PtrTo C_void, PtrTo C_void] 194 Null_pointer,
    fn (PtrTo C_void) ''bpf_map_lookup_percpu_elem'' [PtrTo C_void, ConstPtrTo C_void, Val C_u32] 195 Null_pointer,
    fn (PtrTo (C_struct ''mptcp_sock'')) ''bpf_skc_to_mptcp_sock'' [PtrTo C_void] 196 Null_pointer,
    fn (Val C_long) ''bpf_dynptr_from_mem'' [PtrTo C_void, Val C_u32, Val C_u64, PtrTo (C_struct ''bpf_dynptr'')] 197 Negative_error,
    fn (Val C_long) ''bpf_ringbuf_reserve_dynptr'' [PtrTo C_void, Val C_u32, Val C_u64, PtrTo (C_struct ''bpf_dynptr'')] 198 Negative_error,
    fn (Val C_void) ''bpf_ringbuf_submit_dynptr'' [PtrTo (C_struct ''bpf_dynptr''), Val C_u64] 199 No_exception]"

definition helpers_200_206 :: "helper list" where
  "helpers_200_206 = [
    fn (Val C_void) ''bpf_ringbuf_discard_dynptr'' [PtrTo (C_struct ''bpf_dynptr''), Val C_u64] 200 No_exception,
    fn (Val C_long) ''bpf_dynptr_read'' [PtrTo C_void, Val C_u32, ConstPtrTo (C_struct ''bpf_dynptr''), Val C_u32, Val C_u64] 201 Negative_error,
    fn (Val C_long) ''bpf_dynptr_write'' [ConstPtrTo (C_struct ''bpf_dynptr''), Val C_u32, PtrTo C_void, Val C_u32, Val C_u64] 202 Negative_error,
    fn (PtrTo C_void) ''bpf_dynptr_data'' [ConstPtrTo (C_struct ''bpf_dynptr''), Val C_u32, Val C_u32] 203 Null_pointer,
    fn (Val C_s64) ''bpf_tcp_raw_gen_syncookie_ipv4'' [PtrTo (C_struct ''iphdr''), PtrTo (C_struct ''tcphdr''), Val C_u32] 204 Negative_error,
    fn (Val C_s64) ''bpf_tcp_raw_gen_syncookie_ipv6'' [PtrTo (C_struct ''ipv6hdr''), PtrTo (C_struct ''tcphdr''), Val C_u32] 205 Negative_error,
    fn (Val C_long) ''bpf_tcp_raw_check_syncookie_ipv4'' [PtrTo (C_struct ''iphdr''), PtrTo (C_struct ''tcphdr'')] 206 Negative_error]"

definition helpers_207_211 :: "helper list" where
  "helpers_207_211 = [
    fn (Val C_long) ''bpf_tcp_raw_check_syncookie_ipv6'' [PtrTo (C_struct ''ipv6hdr''), PtrTo (C_struct ''tcphdr'')] 207 Negative_error,
    fn (Val C_u64) ''bpf_ktime_get_tai_ns'' [] 208 No_exception,
    fn (Val C_long) ''bpf_user_ringbuf_drain'' [PtrTo C_void, PtrTo C_void, PtrTo C_void, Val C_u64] 209 Negative_error,
    fn (PtrTo C_void) ''bpf_cgrp_storage_get'' [PtrTo C_void, PtrTo (C_struct ''cgroup''), PtrTo C_void, Val C_u64] 210 Null_pointer,
    fn (Val C_long) ''bpf_cgrp_storage_delete'' [PtrTo C_void, PtrTo (C_struct ''cgroup'')] 211 Negative_error]"

section \<open>The whole header\<close>

definition helper_table :: "helper list" where
  "helper_table =
     helpers_001_006 @
     helpers_007_011 @
     helpers_012_017 @
     helpers_018_021 @
     helpers_022_025 @
     helpers_026_030 @
     helpers_031_037 @
     helpers_038_043 @
     helpers_044_049 @
     helpers_050_053 @
     helpers_054_057 @
     helpers_058_061 @
     helpers_062_066 @
     helpers_067_070 @
     helpers_071_075 @
     helpers_076_081 @
     helpers_082_086 @
     helpers_087_093 @
     helpers_094_101 @
     helpers_102_106 @
     helpers_107_112 @
     helpers_113_119 @
     helpers_120_125 @
     helpers_126_132 @
     helpers_133_140 @
     helpers_141_143 @
     helpers_144_149 @
     helpers_150_156 @
     helpers_157_162 @
     helpers_163_165 @
     helpers_166_174 @
     helpers_175_181 @
     helpers_182_191 @
     helpers_192_199 @
     helpers_200_206 @
     helpers_207_211"

lemmas helper_groups =
  helpers_001_006_def
  helpers_007_011_def
  helpers_012_017_def
  helpers_018_021_def
  helpers_022_025_def
  helpers_026_030_def
  helpers_031_037_def
  helpers_038_043_def
  helpers_044_049_def
  helpers_050_053_def
  helpers_054_057_def
  helpers_058_061_def
  helpers_062_066_def
  helpers_067_070_def
  helpers_071_075_def
  helpers_076_081_def
  helpers_082_086_def
  helpers_087_093_def
  helpers_094_101_def
  helpers_102_106_def
  helpers_107_112_def
  helpers_113_119_def
  helpers_120_125_def
  helpers_126_132_def
  helpers_133_140_def
  helpers_141_143_def
  helpers_144_149_def
  helpers_150_156_def
  helpers_157_162_def
  helpers_163_165_def
  helpers_166_174_def
  helpers_175_181_def
  helpers_182_191_def
  helpers_192_199_def
  helpers_200_206_def
  helpers_207_211_def

definition helper_named :: "string \<Rightarrow> helper option" where
  "helper_named n = find (\<lambda>h. h_name h = n) helper_table"

definition helper_numbered :: "nat \<Rightarrow> helper option" where
  "helper_numbered i = find (\<lambda>h. h_id h = i) helper_table"

end
