(* ===== verification/Helper_Calls.thy ===== *)
theory Helper_Calls
  imports Program_Properties Helper_Table
begin

text \<open>
  The helper calls the three programs make, with the numbers \<^verbatim>\<open>bpf-builtin.h\<close> gives them. A kernel
  is wrapped so that it logs which helper is called, on which map, and with which message; a
  program run on the wrapped kernel computes what it computes on the plain one, and the log is
  the sequence of calls on each path.
\<close>

section \<open>Calls\<close>





section \<open>The logging kernel\<close>
















section \<open>The calls of each program\<close>





section \<open>Properties\<close>



section \<open>The header\<close>

lemma helper_ids: "map h_id helper_table = [1..<212]"
  by code_simp

text \<open>
  A helper call passes at most five arguments; the variadic helper's additional ones are three.
\<close>

lemma helper_arguments:
  "list_all (\<lambda>h. length (h_params h) + (if h_variadic h then 3 else 0) \<le> max_call_args) helper_table"
  by code_simp

lemma structs_declared:
  "list_all (\<lambda>h. list_all (\<lambda>s. List.member forward_structs s)
               (concat (map structs_of (h_ret h # h_params h)))) helper_table"
  by code_simp

text \<open>
  Helpers documented to return NULL return a pointer, and those documented to return a negative
  error a signed integer, with one exception.
\<close>

lemma null_results_typed:
  "filter (\<lambda>h. h_exn h = Null_pointer \<and> \<not> pointer_type (h_ret h)) helper_table = []"
  by code_simp

lemma negative_results_typed:
  "filter (\<lambda>h. h_exn h = Negative_error \<and> \<not> signed_type (h_ret h)) helper_table =
     [fn (Val C_u64) ''bpf_perf_event_read'' [PtrTo C_void, Val C_u64] 22 Negative_error]"
  by code_simp

end
