(* ===== verification/Printing_Proxy.thy ===== *)
theory Printing_Proxy
  imports Object_Storage Worker_Pool
begin

text \<open>
  The parts the program does not run: of the printing proxy of \<^verbatim>\<open>httpPrintingProxy.go\<close> the list of
  links and the printing of responses, whose goroutines are in \<open>Printing_Run\<close>, and the request
  analyser of \<^verbatim>\<open>handler.go\<close>.
\<close>

section \<open>The list of links\<close>

record InterceptLink =
  link_Url :: string
  link_Intercept :: bool

record InterceptConfig =
  ConfigName :: string
  InterceptLinks :: "InterceptLink list"

definition default_interceptConfig :: InterceptConfig where
  "default_interceptConfig = \<lparr>ConfigName = ''default'', InterceptLinks = []\<rparr>"

text \<open>
  \<open>file\<close> is the content of \<^verbatim>\<open>interceptLinks.json\<close>, if it can be opened; \<open>unmarshal\<close> is the JSON
  decoder, which fills in the configuration it is given.
\<close>

definition initConfig ::
  "(u8 list \<Rightarrow> InterceptConfig \<Rightarrow> InterceptConfig) \<Rightarrow> u8 list option \<Rightarrow> InterceptConfig \<Rightarrow> InterceptConfig" where
  "initConfig unmarshal file config =
     (case file of None \<Rightarrow> config | Some jsonBytes \<Rightarrow> unmarshal jsonBytes config)"

text \<open>The host of the parsed URL is replaced by the Host header, which \<^verbatim>\<open>URL.String\<close> prints as it is.\<close>

definition parseHttpRequest :: "http_request go \<Rightarrow> http_request go" where
  "parseHttpRequest r =
     (case r of
        Ret request \<Rightarrow>
          Ret (request\<lparr>req_url := (req_url request)\<lparr>url_host := req_host request,
                                                url_escaped_host := req_host request\<rparr>\<rparr>)
      | Err err \<Rightarrow> Err err
      | Panic m \<Rightarrow> Panic m)"

fun intercept_links :: "InterceptLink list \<Rightarrow> http_request \<Rightarrow> bool" where
  "intercept_links [] request = False"
| "intercept_links (link # links) request =
     (if \<not> link_Intercept link then intercept_links links request
      else if contains (url_String (req_url request)) (link_Url link) then True
      else intercept_links links request)"

lemma intercept_links_iff:
  "intercept_links links request \<longleftrightarrow>
     (\<exists>link \<in> set links. link_Intercept link \<and> contains (url_String (req_url request)) (link_Url link))"
  by (induction links) auto

text \<open>
  The parsed URL has no scheme, so that a link with one matches nothing but a request with a
  colon in it.
\<close>

lemma link_with_scheme_never_matches:
  assumes "parseHttpRequest (Ret r) = Ret request" and "url_scheme (req_url r) = []"
    and "CHR '':'' \<notin> set (req_host r @ url_escaped_path (req_url r) @ url_rawquery (req_url r))"
    and "CHR '':'' \<in> set (link_Url link)"
  shows "\<not> intercept_links [link] request"
proof -
  have "CHR '':'' \<notin> set (url_String (req_url request))"
    using assms(1-3) by (auto simp: parseHttpRequest_def url_String_def)
  with assms(4) show ?thesis by (auto simp: contains_iff)
qed

section \<open>Printing a response\<close>

text \<open>
  \<^verbatim>\<open>printResponse\<close> prints, below a title, the status line, the headers in the order the map's iteration has them,
  an empty line, and what it reads from the pipe. A closed pipe ends it like an end of file. The
  result is what was printed and whether the end is announced; \<open>has_ready\<close> is false for a nil
  channel.
\<close>

datatype pipe_end = Pipe_EOF | Pipe_closed | Pipe_failed

definition crlf :: string where
  "crlf = [CHR 0x0D, CHR 0x0A]"

fun join_comma :: "string list \<Rightarrow> string" where
  "join_comma [] = []"
| "join_comma [v] = v"
| "join_comma (v # w # vs) = v @ '', '' @ join_comma (w # vs)"

definition printResponse ::
  "string \<Rightarrow> (string \<times> string list) list \<Rightarrow> string list \<Rightarrow> pipe_end \<Rightarrow> bool \<Rightarrow> string list \<times> bool" where
  "printResponse status hdrs chunks e has_ready =
     ((''HTTP/1.1 '' @ status @ crlf) #
        map (\<lambda>(k, v). k @ '': '' @ join_comma v @ crlf) hdrs @ [crlf] @ chunks,
      e \<noteq> Pipe_failed \<and> has_ready)"

text \<open>
  The goroutine of \<^verbatim>\<open>intercept\<close> that has received the response writes it, piece by piece, to a
  \<^verbatim>\<open>MultiWriter\<close>: to the client first, and to the console's pipe if that went well. \<open>n\<close> is how
  many pieces the client takes before a write fails.
\<close>

fun multi_write :: "nat \<Rightarrow> 'a list \<Rightarrow> 'a list \<times> 'a list \<times> bool" where
  "multi_write n [] = ([], [], True)"
| "multi_write 0 (p # ps) = ([], [], False)"
| "multi_write (Suc n) (p # ps) =
     (case multi_write n ps of (client, console, written) \<Rightarrow> (p # client, p # console, written))"

definition intercept_response ::
  "string \<Rightarrow> (string \<times> string list) list \<Rightarrow> nat \<Rightarrow> string list option \<Rightarrow> string list \<times> string list" where
  "intercept_response status hdrs n res =
     (case res of
        None \<Rightarrow> ([], [])
      | Some pieces \<Rightarrow>
          (case multi_write n pieces of
             (client, console, written) \<Rightarrow>
               (client, fst (printResponse status hdrs console Pipe_closed False))))"

lemma multi_write_take: "multi_write n ps = (take n ps, take n ps, length ps \<le> n)"
  by (induction n ps rule: multi_write.induct) auto

text \<open>The console shows the status line and the headers, and then exactly what the client got.\<close>

lemma console_shows_what_client_got:
  "intercept_response status hdrs n (Some pieces) = (client, console) \<Longrightarrow>
     client = take n pieces \<and> drop (length hdrs + 2) console = client"
  by (auto simp: intercept_response_def multi_write_take printResponse_def)

section \<open>The request analyser\<close>

definition http_methods :: "string list" where
  "http_methods = [''GET'', ''POST'', ''HEAD'', ''PUT'', ''DELETE'', ''OPTIONS'', ''TRACE'', ''CONNECT'']"

fun has_method :: "string list \<Rightarrow> string \<Rightarrow> bool" where
  "has_method [] data = False"
| "has_method (method # methods) data = (if prefix (method @ '' '') data then True else has_method methods data)"

definition isHTTP :: "string \<Rightarrow> bool" where
  "isHTTP data = has_method http_methods data"

text \<open>
  \<open>read\<close> is \<^verbatim>\<open>http.ReadRequest\<close> on the bytes and \<open>dump\<close> the textual form of a request; the result is
  what is printed, and the pair the method returns.
\<close>

definition AnalyzeRequest ::
  "(string \<Rightarrow> http_request go) \<Rightarrow> (http_request \<Rightarrow> string go) \<Rightarrow> string \<Rightarrow>
     (string option \<times> bool \<times> go_error option) go" where
  "AnalyzeRequest read dump data =
     (if isHTTP data then
        (case read data of
           Err err \<Rightarrow> Ret (None, True, Some err)
         | Panic m \<Rightarrow> Panic m
         | Ret request \<Rightarrow>
            (if url_host (req_url request) = ''www.example.com'' then
               (case dump request of
                  Err err \<Rightarrow> Ret (None, True, Some err)
                | Panic m \<Rightarrow> Panic m
                | Ret text \<Rightarrow> Ret (Some text, True, None))
             else Ret (None, True, None)))
      else Ret (None, True, None))"

lemma has_method_iff: "has_method methods data \<longleftrightarrow> (\<exists>m \<in> set methods. \<exists>rest. data = m @ '' '' @ rest)"
  by (induction methods) (auto simp: prefix_def)

lemma analyzer_always_forwards:
  "AnalyzeRequest read dump data = Ret (printed, forward, err) \<Longrightarrow> forward"
  by (auto simp: AnalyzeRequest_def split: if_splits go.splits)

end
