(* ===== verification/Relay.thy ===== *)
theory Relay
  imports Worker_Pool "HOL-Library.Sublist"
begin

text \<open>
  \<^verbatim>\<open>forwardConnection\<close> byte by byte: the two copies of the bypass mode as a step relation, with the
  client and the server sending, ending their streams and breaking the connections at any moment.
  The summary of \<open>Worker_Pool\<close>, which only knows how the copies ended, is refined by it.
\<close>

section \<open>Connections\<close>

text \<open>
  A connection as the proxy has it: what the peer has sent so far and how much of that was not
  read yet, what was written to the connection, how many bytes more it takes before a write
  waits, whether the peer has ended its stream, whether the connection is broken, and whether
  the proxy has closed it.
\<close>

record tcp =
  sent :: "u8 list"
  unread :: "u8 list"
  got :: "u8 list"
  room :: nat
  ended :: bool
  broken :: bool
  closed :: bool

definition fresh_tcp :: tcp where
  "fresh_tcp = \<lparr>sent = [], unread = [], got = [], room = 0, ended = False, broken = False, closed = False\<rparr>"

text \<open>
  What the peer does: it sends, reads what was written, which makes room for more, ends its
  stream, or the connection breaks.
\<close>

inductive peer_step :: "tcp \<Rightarrow> tcp \<Rightarrow> bool" where
  send: "\<not> ended c \<Longrightarrow> \<not> closed c \<Longrightarrow> peer_step c (c\<lparr>sent := sent c @ bs, unread := unread c @ bs\<rparr>)"
| reads: "\<not> closed c \<Longrightarrow> peer_step c (c\<lparr>room := room c + n\<rparr>)"
| finish: "\<not> closed c \<Longrightarrow> peer_step c (c\<lparr>ended := True\<rparr>)"
| breaks: "\<not> closed c \<Longrightarrow> peer_step c (c\<lparr>broken := True\<rparr>)"

section \<open>One copy\<close>

text \<open>
  \<^verbatim>\<open>io.Copy\<close> reads a piece of any length and writes it, as much at a time as the connection has
  room for, until the source ends (\<open>None\<close>) or an operation fails. Without room the write waits,
  as long as the peer does not read: no deadline is set. A failing write may have written a part
  of the piece.
\<close>

datatype copier = Copying "u8 list" | Copied "go_error option"

inductive copy_step :: "tcp \<Rightarrow> tcp \<Rightarrow> copier \<Rightarrow> tcp \<Rightarrow> tcp \<Rightarrow> copier \<Rightarrow> bool" where
  read_piece: "\<not> closed src \<Longrightarrow> unread src = xs @ ys \<Longrightarrow> xs \<noteq> [] \<Longrightarrow>
    copy_step src dst (Copying []) (src\<lparr>unread := ys\<rparr>) dst (Copying xs)"
| eof: "\<not> closed src \<Longrightarrow> unread src = [] \<Longrightarrow> ended src \<Longrightarrow>
    copy_step src dst (Copying []) src dst (Copied None)"
| read_error: "closed src \<or> broken src \<Longrightarrow>
    copy_step src dst (Copying []) src dst (Copied (Some e))"
| write_piece: "ys \<noteq> [] \<Longrightarrow> \<not> closed dst \<Longrightarrow> length ys \<le> room dst \<Longrightarrow>
    copy_step src dst (Copying (ys @ zs)) src
      (dst\<lparr>got := got dst @ ys, room := room dst - length ys\<rparr>) (Copying zs)"
| write_error: "xs \<noteq> [] \<Longrightarrow> closed dst \<or> broken dst \<Longrightarrow> prefix ys xs \<Longrightarrow>
    copy_step src dst (Copying xs) src (dst\<lparr>got := got dst @ ys\<rparr>) (Copied (Some e))"

inductive_cases copy_stepE: "copy_step src dst c src' dst' c'"

section \<open>The forwarder\<close>

text \<open>
  The goroutine that copies from the client to the server; once its copy is \<open>Copied None\<close> it
  sends on the unbuffered channel \<^verbatim>\<open>ready\<close>. The handler dials, copies from the server to the
  client, and once its copy is \<open>Copied None\<close> receives from \<^verbatim>\<open>ready\<close>; it returns with the error it
  has logged, and its deferred calls close the connections it has.
\<close>

datatype goroutine = Not_started | Upward copier | Announced

datatype handler_at = Dialing | Downward copier | Returned "go_error option"

record relay =
  conn :: tcp
  targetConn :: tcp
  goroutine :: goroutine
  handler :: handler_at

definition new_relay :: relay where
  "new_relay = \<lparr>conn = fresh_tcp, targetConn = fresh_tcp, goroutine = Not_started, handler = Dialing\<rparr>"

definition return_closing :: "go_error option \<Rightarrow> relay \<Rightarrow> relay" where
  "return_closing err r =
     r\<lparr>handler := Returned err, conn := (conn r)\<lparr>closed := True\<rparr>,
       targetConn := (targetConn r)\<lparr>closed := True\<rparr>\<rparr>"

inductive relay_step :: "relay \<Rightarrow> relay \<Rightarrow> bool" where
  dial_failed: "handler r = Dialing \<Longrightarrow>
    relay_step r (r\<lparr>handler := Returned (Some e), conn := (conn r)\<lparr>closed := True\<rparr>\<rparr>)"
| dialed: "handler r = Dialing \<Longrightarrow>
    relay_step r (r\<lparr>handler := Downward (Copying []), goroutine := Upward (Copying [])\<rparr>)"
| upward: "goroutine r = Upward c \<Longrightarrow> copy_step (conn r) (targetConn r) c s t c' \<Longrightarrow>
    relay_step r (r\<lparr>conn := s, targetConn := t, goroutine := Upward c'\<rparr>)"
| downward: "handler r = Downward c \<Longrightarrow> copy_step (targetConn r) (conn r) c t s c' \<Longrightarrow>
    relay_step r (r\<lparr>conn := s, targetConn := t, handler := Downward c'\<rparr>)"
| copy_failed: "handler r = Downward (Copied (Some e)) \<Longrightarrow> relay_step r (return_closing (Some e) r)"
| ready: "handler r = Downward (Copied None) \<Longrightarrow> goroutine r = Upward (Copied None) \<Longrightarrow>
    relay_step r (return_closing None (r\<lparr>goroutine := Announced\<rparr>))"

inductive relay_reach :: "relay \<Rightarrow> bool" where
  start: "relay_reach new_relay"
| relay: "relay_reach r \<Longrightarrow> relay_step r r' \<Longrightarrow> relay_reach r'"
| client: "relay_reach r \<Longrightarrow> peer_step (conn r) c \<Longrightarrow> relay_reach (r\<lparr>conn := c\<rparr>)"
| server: "relay_reach r \<Longrightarrow> goroutine r \<noteq> Not_started \<Longrightarrow> peer_step (targetConn r) c \<Longrightarrow>
    relay_reach (r\<lparr>targetConn := c\<rparr>)"

inductive_cases relay_stepE: "relay_step r r'"
inductive_cases peer_stepE: "peer_step c c'"

section \<open>What was copied\<close>

text \<open>
  One direction: while the copy goes on, what the source sent is what was written, the piece in
  hand and what is unread; when it has failed, what was written is a prefix of what was sent.
\<close>

fun flow_ok :: "tcp \<Rightarrow> tcp \<Rightarrow> copier \<Rightarrow> bool" where
  "flow_ok src dst (Copying xs) \<longleftrightarrow> sent src = got dst @ xs @ unread src"
| "flow_ok src dst (Copied None) \<longleftrightarrow> sent src = got dst \<and> ended src"
| "flow_ok src dst (Copied (Some e)) \<longleftrightarrow> prefix (got dst) (sent src)"

lemma flow_ok_prefix: "flow_ok src dst c \<Longrightarrow> prefix (got dst) (sent src)"
  by (cases "(src, dst, c)" rule: flow_ok.cases) auto

text \<open>A copy changes nothing of its source but what is unread, and nothing of its target but what it got.\<close>

lemma copy_step_frame:
  assumes "copy_step src dst c src' dst' c'"
  shows "sent src' = sent src" "got src' = got src" "ended src' = ended src" "broken src' = broken src"
    "closed src' = closed src" "sent dst' = sent dst" "unread dst' = unread dst"
    "ended dst' = ended dst" "broken dst' = broken dst" "closed dst' = closed dst"
  using assms by (auto elim: copy_stepE)

lemma copy_step_flow: "copy_step src dst c src' dst' c' \<Longrightarrow> flow_ok src dst c \<Longrightarrow> flow_ok src' dst' c'"
  by (induction rule: copy_step.induct) (auto simp: prefix_def)

text \<open>The flow depends on \<open>sent\<close>, \<open>unread\<close> and \<open>ended\<close> of the source and \<open>got\<close> of the target.\<close>

lemma flow_ok_cong:
  "sent src' = sent src \<Longrightarrow> unread src' = unread src \<Longrightarrow> ended src' = ended src \<Longrightarrow> got dst' = got dst \<Longrightarrow>
     flow_ok src' dst' c = flow_ok src dst c"
  by (cases "(src, dst, c)" rule: flow_ok.cases) simp_all

lemma peer_step_flow: "peer_step src src' \<Longrightarrow> flow_ok src dst c \<Longrightarrow> flow_ok src' dst c"
  by (cases "(src, dst, c)" rule: flow_ok.cases) (auto elim!: peer_stepE simp: prefix_def)

lemma peer_step_target: "peer_step dst dst' \<Longrightarrow> flow_ok src dst c \<Longrightarrow> flow_ok src dst' c"
  by (cases "(src, dst, c)" rule: flow_ok.cases) (auto elim!: peer_stepE)

section \<open>The invariant\<close>

definition upward_ok :: "relay \<Rightarrow> bool" where
  "upward_ok r =
     (case goroutine r of
        Not_started \<Rightarrow> targetConn r = fresh_tcp \<and> sent (conn r) = unread (conn r)
      | Upward c \<Rightarrow> flow_ok (conn r) (targetConn r) c
      | Announced \<Rightarrow> flow_ok (conn r) (targetConn r) (Copied None))"

definition downward_ok :: "relay \<Rightarrow> bool" where
  "downward_ok r =
     (case handler r of
        Dialing \<Rightarrow> goroutine r = Not_started \<and> got (conn r) = []
      | Downward c \<Rightarrow> (\<exists>u. goroutine r = Upward u) \<and> flow_ok (targetConn r) (conn r) c
      | Returned (Some e) \<Rightarrow> goroutine r \<noteq> Announced \<and> prefix (got (conn r)) (sent (targetConn r))
      | Returned None \<Rightarrow> goroutine r = Announced \<and> flow_ok (targetConn r) (conn r) (Copied None))"

text \<open>
  The connections are open until the handler returns, and then closed. If none is broken, a copy
  fails only after that.
\<close>

definition closing_ok :: "relay \<Rightarrow> bool" where
  "closing_ok r \<longleftrightarrow>
     (case handler r of
        Returned err \<Rightarrow> closed (conn r) \<and> (goroutine r \<noteq> Not_started \<longrightarrow> closed (targetConn r))
      | _ \<Rightarrow> \<not> closed (conn r) \<and> \<not> closed (targetConn r)) \<and>
     (goroutine r \<noteq> Not_started \<and> \<not> broken (conn r) \<and> \<not> broken (targetConn r) \<longrightarrow>
        (\<forall>e. handler r \<noteq> Downward (Copied (Some e)) \<and> handler r \<noteq> Returned (Some e)) \<and>
        ((\<exists>e. goroutine r = Upward (Copied (Some e))) \<longrightarrow> (\<exists>err. handler r = Returned err)))"

definition relay_ok :: "relay \<Rightarrow> bool" where
  "relay_ok r \<longleftrightarrow> upward_ok r \<and> downward_ok r \<and> closing_ok r"

lemmas relay_ok_defs = relay_ok_def upward_ok_def downward_ok_def closing_ok_def

lemma new_relay_ok: "relay_ok new_relay"
  by (simp add: relay_ok_defs new_relay_def fresh_tcp_def)

lemma copy_step_failing:
  "copy_step src dst c src' dst' (Copied (Some e)) \<Longrightarrow> closed src \<or> broken src \<or> closed dst \<or> broken dst"
  by (auto elim: copy_stepE)

lemma upward_step_ok:
  assumes r: "relay_ok r" and g: "goroutine r = Upward c"
    and step: "copy_step (conn r) (targetConn r) c s t c'"
  shows "relay_ok (r\<lparr>conn := s, targetConn := t, goroutine := Upward c'\<rparr>)"
proof -
  note frame = copy_step_frame [OF step]
  have "upward_ok (r\<lparr>conn := s, targetConn := t, goroutine := Upward c'\<rparr>)"
    using r g copy_step_flow [OF step] by (simp add: relay_ok_defs)
  moreover have "flow_ok t s d = flow_ok (targetConn r) (conn r) d" for d
    by (rule flow_ok_cong) (simp_all add: frame)
  then have "downward_ok (r\<lparr>conn := s, targetConn := t, goroutine := Upward c'\<rparr>)"
    using r g by (auto simp: relay_ok_def downward_ok_def frame split: handler_at.splits option.splits)
  moreover have "closing_ok (r\<lparr>conn := s, targetConn := t, goroutine := Upward c'\<rparr>)"
    using r g step copy_step_failing [of "conn r" "targetConn r" c s t]
    by (cases "handler r") (auto simp: relay_ok_def closing_ok_def frame)
  ultimately show ?thesis by (simp add: relay_ok_def)
qed

lemma downward_step_ok:
  assumes r: "relay_ok r" and h: "handler r = Downward c"
    and step: "copy_step (targetConn r) (conn r) c t s c'"
  shows "relay_ok (r\<lparr>conn := s, targetConn := t, handler := Downward c'\<rparr>)"
proof -
  note frame = copy_step_frame [OF step]
  have "flow_ok s t d = flow_ok (conn r) (targetConn r) d" for d
    by (rule flow_ok_cong) (simp_all add: frame)
  then have "upward_ok (r\<lparr>conn := s, targetConn := t, handler := Downward c'\<rparr>)"
    using r h by (auto simp: relay_ok_def upward_ok_def downward_ok_def)
  moreover have "downward_ok (r\<lparr>conn := s, targetConn := t, handler := Downward c'\<rparr>)"
    using r h copy_step_flow [OF step] by (auto simp: relay_ok_def downward_ok_def)
  moreover have "closing_ok (r\<lparr>conn := s, targetConn := t, handler := Downward c'\<rparr>)"
    using r h step copy_step_failing [of "targetConn r" "conn r" c t s]
    by (auto simp: relay_ok_def closing_ok_def frame)
  ultimately show ?thesis by (simp add: relay_ok_def)
qed

lemma relay_step_ok: "relay_step r r' \<Longrightarrow> relay_ok r \<Longrightarrow> relay_ok r'"
proof (induction rule: relay_step.induct)
  case (upward r c s t c')
  then show ?case by (blast intro: upward_step_ok)
next
  case (downward r c t s c')
  then show ?case by (blast intro: downward_step_ok)
next
  case (copy_failed r e)
  then have "prefix (got (conn r)) (sent (targetConn r))" by (simp add: relay_ok_defs)
  with copy_failed show ?case
    by (auto simp: relay_ok_defs return_closing_def split: goroutine.splits
        elim: flow_ok_cong [THEN iffD2, rotated -1])
next
  case (ready r)
  then show ?case by (simp add: relay_ok_defs return_closing_def)
qed (auto simp: relay_ok_defs fresh_tcp_def)

lemma peer_step_frame:
  "peer_step c c' \<Longrightarrow>
     got c' = got c \<and> closed c' = closed c \<and> (broken c \<longrightarrow> broken c') \<and> prefix (sent c) (sent c') \<and>
     (sent c = unread c \<longrightarrow> sent c' = unread c')"
  by (auto elim: peer_stepE)

lemma client_step_ok:
  assumes r: "relay_ok r" and p: "peer_step (conn r) c"
  shows "relay_ok (r\<lparr>conn := c\<rparr>)"
proof -
  note frame = peer_step_frame [OF p]
  have "upward_ok (r\<lparr>conn := c\<rparr>)"
    using r peer_step_flow [OF p, of "targetConn r"] frame
    by (auto simp: relay_ok_def upward_ok_def split: goroutine.splits simp del: flow_ok.simps)
  moreover have "downward_ok (r\<lparr>conn := c\<rparr>)"
    using r peer_step_target [OF p, of "targetConn r"] frame
    by (auto simp: relay_ok_def downward_ok_def split: handler_at.splits option.splits simp del: flow_ok.simps)
  moreover have "closing_ok (r\<lparr>conn := c\<rparr>)"
    using r frame by (cases "handler r") (auto simp: relay_ok_def closing_ok_def)
  ultimately show ?thesis by (simp add: relay_ok_def)
qed

lemma server_step_ok:
  assumes r: "relay_ok r" and p: "peer_step (targetConn r) c" and g: "goroutine r \<noteq> Not_started"
  shows "relay_ok (r\<lparr>targetConn := c\<rparr>)"
proof -
  note frame = peer_step_frame [OF p]
  have "upward_ok (r\<lparr>targetConn := c\<rparr>)"
    using r peer_step_target [OF p, of "conn r"] g
    by (auto simp: relay_ok_def upward_ok_def split: goroutine.splits simp del: flow_ok.simps)
  moreover have "downward_ok (r\<lparr>targetConn := c\<rparr>)"
    using r peer_step_flow [OF p, of "conn r"] frame
    by (auto simp: relay_ok_def downward_ok_def split: handler_at.splits option.splits simp del: flow_ok.simps
        intro: prefix_order.trans)
  moreover have "closing_ok (r\<lparr>targetConn := c\<rparr>)"
    using r frame by (cases "handler r") (auto simp: relay_ok_def closing_ok_def)
  ultimately show ?thesis by (simp add: relay_ok_def)
qed

lemma relay_reach_ok: "relay_reach r \<Longrightarrow> relay_ok r"
  by (induction rule: relay_reach.induct)
    (simp_all add: new_relay_ok relay_step_ok client_step_ok server_step_ok)

section \<open>Termination\<close>

text \<open>
  How many steps a copy, a goroutine and the handler can still take: each byte is read and
  written, and then the copy ends.
\<close>

fun copy_weight :: "tcp \<Rightarrow> copier \<Rightarrow> nat" where
  "copy_weight src (Copying xs) = 2 * length (unread src) + length xs + 1"
| "copy_weight src (Copied e) = 0"

definition relay_weight :: "relay \<Rightarrow> nat" where
  "relay_weight r =
     (case goroutine r of Upward c \<Rightarrow> copy_weight (conn r) c | _ \<Rightarrow> 0) +
     (case handler r of
        Dialing \<Rightarrow> 2 * length (unread (conn r)) + 2 * length (unread (targetConn r)) + 4
      | Downward c \<Rightarrow> copy_weight (targetConn r) c + 1
      | Returned e \<Rightarrow> 0)"

lemma copy_weight_cong: "unread src' = unread src \<Longrightarrow> copy_weight src' c = copy_weight src c"
  by (cases "(src, c)" rule: copy_weight.cases) simp_all

lemma copy_step_weight: "copy_step src dst c src' dst' c' \<Longrightarrow> copy_weight src' c' < copy_weight src c"
proof (induction rule: copy_step.induct)
  case (read_piece src xs ys dst)
  then show ?case by (cases xs) auto
next
  case (write_piece ys dst zs src)
  then show ?case by (cases ys) auto
qed auto

lemma relay_step_weight: "relay_step r r' \<Longrightarrow> relay_ok r \<Longrightarrow> relay_weight r' < relay_weight r"
proof (induction rule: relay_step.induct)
  case (upward r c s t c')
  note frame = copy_step_frame [OF upward(2)]
  have "copy_weight t d = copy_weight (targetConn r) d" for d
    by (rule copy_weight_cong) (simp add: frame)
  moreover have "handler r \<noteq> Dialing" using upward by (auto simp: relay_ok_defs)
  ultimately show ?case using upward copy_step_weight [OF upward(2)]
    by (simp add: relay_weight_def split: handler_at.split)
next
  case (downward r c t s c')
  note frame = copy_step_frame [OF downward(2)]
  have "copy_weight s d = copy_weight (conn r) d" for d
    by (rule copy_weight_cong) (simp add: frame)
  then show ?case using downward copy_step_weight [OF downward(2)]
    by (simp add: relay_weight_def split: goroutine.split)
next
  case (copy_failed r e)
  have "copy_weight ((conn r)\<lparr>closed := True\<rparr>) d = copy_weight (conn r) d" for d
    by (rule copy_weight_cong) simp
  with copy_failed show ?case
    by (cases "goroutine r") (simp_all add: relay_weight_def return_closing_def)
next
  case (ready r)
  then show ?case by (simp add: relay_weight_def return_closing_def)
qed (auto simp: relay_weight_def relay_ok_defs split: goroutine.split)

lemma relay_run_length:
  "(relay_step ^^ n) r r' \<Longrightarrow> relay_ok r \<Longrightarrow> relay_ok r' \<and> n + relay_weight r' \<le> relay_weight r"
proof (induction n arbitrary: r')
  case (Suc n)
  then obtain q where q: "(relay_step ^^ n) r q" "relay_step q r'" by auto
  have "relay_ok q" "n + relay_weight q \<le> relay_weight r" using Suc.IH [OF q(1) Suc.prems(2)] by simp_all
  with relay_step_ok [OF q(2)] relay_step_weight [OF q(2)] show ?case by simp
qed simp

text \<open>
  A copy whose source has ended, or is closed, can take a step until it has ended, unless it has
  a piece to write and no room.
\<close>

fun held_up :: "tcp \<Rightarrow> copier \<Rightarrow> bool" where
  "held_up dst (Copying xs) \<longleftrightarrow> xs \<noteq> [] \<and> room dst = 0"
| "held_up dst (Copied e) \<longleftrightarrow> False"

lemma write_progress:
  assumes "xs \<noteq> []" and "room dst \<noteq> 0"
  shows "\<exists>src' dst' c'. copy_step src dst (Copying xs) src' dst' c'"
proof (cases "closed dst")
  case True
  then show ?thesis using assms(1) copy_step.write_error [of xs dst "[]" src] by (auto intro!: exI)
next
  case False
  obtain x ys where "xs = [x] @ ys" using assms(1) by (cases xs) simp_all
  with copy_step.write_piece [of "[x]" dst src ys] False assms(2)
  have "copy_step src dst (Copying xs) src (dst\<lparr>got := got dst @ [x], room := room dst - length [x]\<rparr>) (Copying ys)"
    by simp
  then show ?thesis by blast
qed

lemma read_progress:
  assumes "ended src \<or> closed src \<or> broken src \<or> unread src \<noteq> []"
  shows "\<exists>src' dst' c'. copy_step src dst (Copying []) src' dst' c'"
proof (cases "closed src")
  case True
  then show ?thesis using copy_step.read_error [of src dst] by blast
next
  case False
  show ?thesis
  proof (cases "unread src")
    case Nil
    with assms False show ?thesis using copy_step.eof [of src dst] copy_step.read_error [of src dst] by blast
  next
    case (Cons y ys)
    then show ?thesis using False copy_step.read_piece [of src "unread src" "[]" dst] by auto
  qed
qed

lemma copy_progress:
  assumes "ended src \<or> closed src \<or> broken src \<or> unread src \<noteq> []"
  shows "(\<exists>e. c = Copied e) \<or> held_up dst c \<or> (\<exists>src' dst' c'. copy_step src dst c src' dst' c')"
proof (cases c)
  case (Copying xs)
  then show ?thesis using read_progress [OF assms] write_progress [of xs dst src] by (cases xs) auto
qed simp

section \<open>Runs\<close>

text \<open>The forwarder does not change what the peers did.\<close>

lemma relay_step_frame:
  "relay_step r r' \<Longrightarrow>
     ended (conn r') = ended (conn r) \<and> ended (targetConn r') = ended (targetConn r) \<and>
     broken (conn r') = broken (conn r) \<and> broken (targetConn r') = broken (targetConn r) \<and>
     sent (conn r') = sent (conn r) \<and> sent (targetConn r') = sent (targetConn r) \<and>
     (goroutine r \<noteq> Not_started \<longrightarrow> goroutine r' \<noteq> Not_started)"
  by (induction rule: relay_step.induct) (auto simp: return_closing_def dest: copy_step_frame)

lemma relay_steps_frame:
  "(relay_step ^^ n) r r' \<Longrightarrow>
     ended (conn r') = ended (conn r) \<and> ended (targetConn r') = ended (targetConn r) \<and>
     broken (conn r') = broken (conn r) \<and> broken (targetConn r') = broken (targetConn r) \<and>
     sent (conn r') = sent (conn r) \<and> sent (targetConn r') = sent (targetConn r) \<and>
     (goroutine r \<noteq> Not_started \<longrightarrow> goroutine r' \<noteq> Not_started)"
proof (induction n arbitrary: r')
  case (Suc n)
  then obtain q where "(relay_step ^^ n) r q" "relay_step q r'" by auto
  with Suc.IH [of q] relay_step_frame [of q r'] show ?case by simp
qed simp

text \<open>A write that waits for room, and the bytes that are still to be written.\<close>

definition waits_for_room :: "relay \<Rightarrow> bool" where
  "waits_for_room r \<longleftrightarrow>
     (case goroutine r of Upward c \<Rightarrow> held_up (targetConn r) c | _ \<Rightarrow> False) \<or>
     (case handler r of Downward c \<Rightarrow> held_up (conn r) c | _ \<Rightarrow> False)"

fun to_write :: "tcp \<Rightarrow> copier \<Rightarrow> nat" where
  "to_write src (Copying xs) = length (unread src) + length xs"
| "to_write src (Copied e) = 0"

definition enough_room :: "relay \<Rightarrow> bool" where
  "enough_room r \<longleftrightarrow>
     (case goroutine r of Upward c \<Rightarrow> to_write (conn r) c \<le> room (targetConn r) | _ \<Rightarrow> True) \<and>
     (case handler r of Downward c \<Rightarrow> to_write (targetConn r) c \<le> room (conn r) | _ \<Rightarrow> True)"

lemma held_up_little: "held_up dst c \<Longrightarrow> room dst < to_write src c"
  by (cases "(dst, c)" rule: held_up.cases) (auto simp: neq_Nil_conv)

lemma enough_room_goes: "enough_room r \<Longrightarrow> \<not> waits_for_room r"
  unfolding enough_room_def waits_for_room_def
  using held_up_little [of "targetConn r" _ "conn r"] held_up_little [of "conn r" _ "targetConn r"]
  by (auto simp: not_le [symmetric] split: goroutine.splits handler_at.splits)

lemma to_write_cong: "unread src' = unread src \<Longrightarrow> to_write src' c = to_write src c"
  by (cases c) simp_all

lemma copy_step_room:
  assumes "copy_step src dst c src' dst' c'"
  shows "to_write src c \<le> room dst \<Longrightarrow> to_write src' c' \<le> room dst'" and "room src' = room src"
    and "to_write dst' d = to_write dst d"
  using assms by (auto elim!: copy_stepE intro: to_write_cong)

lemma relay_step_room:
  "relay_step r r' \<Longrightarrow> goroutine r \<noteq> Not_started \<Longrightarrow> relay_ok r \<Longrightarrow> enough_room r \<Longrightarrow> enough_room r'"
proof (induction rule: relay_step.induct)
  case (upward r c s t c')
  note room = copy_step_room [OF upward(2)]
  with upward show ?case by (auto simp: enough_room_def split: handler_at.splits)
next
  case (downward r c t s c')
  note room = copy_step_room [OF downward(2)]
  with downward show ?case by (auto simp: enough_room_def split: goroutine.splits)
next
  case (copy_failed r e)
  have "to_write ((conn r)\<lparr>closed := True\<rparr>) d = to_write (conn r) d" for d by (cases d) simp_all
  with copy_failed show ?case by (auto simp: enough_room_def return_closing_def split: goroutine.splits)
qed (auto simp: enough_room_def return_closing_def relay_ok_defs)

lemma relay_steps_room:
  "(relay_step ^^ n) r r' \<Longrightarrow> goroutine r \<noteq> Not_started \<Longrightarrow> relay_ok r \<Longrightarrow> enough_room r \<Longrightarrow> enough_room r'"
proof (induction n arbitrary: r')
  case (Suc n)
  then obtain q where q: "(relay_step ^^ n) r q" "relay_step q r'" by auto
  with Suc relay_steps_frame [OF q(1)] relay_run_length [OF q(1)] relay_step_room [OF q(2)] show ?case by blast
qed simp

lemma stuck_goroutine:
  assumes "\<nexists>r'. relay_step r r'" and "goroutine r = Upward c" and "\<not> held_up (targetConn r) c"
    and "ended (conn r) \<or> closed (conn r) \<or> broken (conn r) \<or> unread (conn r) \<noteq> []"
  shows "\<exists>e. c = Copied e"
  using copy_progress [OF assms(4), of c "targetConn r"] assms(1-3) relay_step.upward by blast

lemma stuck_handler:
  assumes "\<nexists>r'. relay_step r r'" and "handler r = Downward c" and "\<not> held_up (conn r) c"
    and "ended (targetConn r) \<or> closed (targetConn r) \<or> broken (targetConn r) \<or> unread (targetConn r) \<noteq> []"
  shows "\<exists>e. c = Copied e"
  using copy_progress [OF assms(4), of c "conn r"] assms(1-3) relay_step.downward by blast

text \<open>If nothing breaks, a waiting write has not been overtaken by the handler's return.\<close>

lemma waiting_not_returned:
  assumes "relay_ok r" and "waits_for_room r" and "goroutine r \<noteq> Not_started"
    and "\<not> broken (conn r)" "\<not> broken (targetConn r)"
  shows "handler r \<noteq> Returned err"
  using assms by (cases err) (auto simp: relay_ok_def closing_ok_def downward_ok_def waits_for_room_def)

lemma unbroken_stuck_returned:
  assumes "relay_ok r" and "\<nexists>r'. relay_step r r'" and "goroutine r \<noteq> Not_started"
    and "ended (conn r)" "ended (targetConn r)" "\<not> broken (conn r)" "\<not> broken (targetConn r)"
    and w: "\<not> waits_for_room r"
  shows "handler r = Returned None"
proof (cases "handler r")
  case Dialing
  then show ?thesis using assms by (simp add: relay_ok_defs)
next
  case (Downward d)
  obtain u where u: "goroutine r = Upward u" using assms(1) Downward by (auto simp: relay_ok_defs)
  with Downward w have h: "\<not> held_up (targetConn r) u" "\<not> held_up (conn r) d"
    by (simp_all add: waits_for_room_def)
  have "\<exists>e. d = Copied e" using stuck_handler [OF assms(2) Downward h(2)] assms(5) by blast
  moreover have "\<exists>e. u = Copied e" using stuck_goroutine [OF assms(2) u h(1)] assms(4) by blast
  moreover have "\<forall>e. d \<noteq> Copied (Some e) \<and> u \<noteq> Copied (Some e)"
    using assms Downward u by (auto simp: relay_ok_def closing_ok_def)
  ultimately have "d = Copied None" "u = Copied None" by (metis not_Some_eq)+
  with Downward u assms(2) relay_step.ready show ?thesis by blast
next
  case (Returned err)
  then show ?thesis using assms by (cases err) (auto simp: relay_ok_def closing_ok_def)
qed

lemma relay_returned:
  assumes "relay_ok r" and "handler r = Returned None"
  shows "goroutine r = Announced \<and> got (targetConn r) = sent (conn r) \<and> got (conn r) = sent (targetConn r) \<and>
    ended (conn r) \<and> ended (targetConn r)"
  using assms by (auto simp: relay_ok_def upward_ok_def downward_ok_def)

section \<open>The summary of the two copies\<close>

definition relay_fate :: "relay \<Rightarrow> fate option" where
  "relay_fate r =
     (case (goroutine r, handler r) of
        (Not_started, Returned (Some e)) \<Rightarrow> Some \<lparr>target_nil = False, dial_error = Some e, to_target = None, to_client = None\<rparr>
      | (Upward (Copied u), Downward (Copied d)) \<Rightarrow> Some \<lparr>target_nil = False, dial_error = None, to_target = u, to_client = d\<rparr>
      | (Upward (Copied u), Returned d) \<Rightarrow> Some \<lparr>target_nil = False, dial_error = None, to_target = u, to_client = d\<rparr>
      | (Announced, Returned d) \<Rightarrow> Some \<lparr>target_nil = False, dial_error = None, to_target = None, to_client = d\<rparr>
      | _ \<Rightarrow> None)"

definition relay_end :: "relay \<Rightarrow> thread_end \<times> thread_end option" where
  "relay_end r =
     (case handler r of Returned e \<Rightarrow> Returns | _ \<Rightarrow> Blocks,
      case goroutine r of
        Not_started \<Rightarrow> None
      | Upward (Copied (Some e)) \<Rightarrow> Some Returns
      | Upward c \<Rightarrow> Some Blocks
      | Announced \<Rightarrow> Some Returns)"

section \<open>Properties\<close>

text \<open>C17. In bypass mode, whatever both peers do and however the connections break: what the server
  has got is a prefix of what the client has sent and the other way round, and when
  forwardConnection returns without an error both have ended their streams and everything was
  delivered in both directions.\<close>

theorem relay_bytes_in_order:
  assumes "relay_reach r"
  shows "prefix (got (targetConn r)) (sent (conn r)) \<and> prefix (got (conn r)) (sent (targetConn r)) \<and>
    (handler r = Returned None \<longrightarrow>
       got (targetConn r) = sent (conn r) \<and> got (conn r) = sent (targetConn r) \<and>
       ended (conn r) \<and> ended (targetConn r))"
proof -
  have ok: "upward_ok r" "downward_ok r" using relay_reach_ok [OF assms] by (simp_all add: relay_ok_def)
  have "prefix (got (targetConn r)) (sent (conn r))"
    using ok(1) by (auto simp: upward_ok_def fresh_tcp_def dest: flow_ok_prefix split: goroutine.splits)
  moreover have "prefix (got (conn r)) (sent (targetConn r))"
    using ok(2) by (auto simp: downward_ok_def dest: flow_ok_prefix split: handler_at.splits option.splits)
  ultimately show ?thesis using relay_returned [OF relay_reach_ok [OF assms]] by blast
qed

text \<open>C18. If both peers of a forwarded connection have ended their streams and neither connection
  breaks, the two copies take at most a number of steps computed from the bytes that are still
  to be read and written; when no step is left, either a write is waiting for a peer that does
  not read, and then forwardConnection has not returned, or it has returned without an error and
  everything was delivered in both directions. If each connection has room for what is still to
  be written to it, no write waits.\<close>

theorem relay_delivers:
  assumes "relay_reach r" and "goroutine r \<noteq> Not_started"
    and "ended (conn r)" and "ended (targetConn r)" and "\<not> broken (conn r)" and "\<not> broken (targetConn r)"
    and "(relay_step ^^ n) r r'"
  shows "n \<le> relay_weight r \<and>
    ((\<nexists>r''. relay_step r' r'') \<longrightarrow>
       (if waits_for_room r' then \<forall>err. handler r' \<noteq> Returned err
        else handler r' = Returned None \<and> got (targetConn r') = sent (conn r) \<and> got (conn r') = sent (targetConn r))) \<and>
    (enough_room r \<longrightarrow> \<not> waits_for_room r')"
proof -
  have ok: "relay_ok r" using relay_reach_ok [OF assms(1)] .
  have r': "relay_ok r'" "n + relay_weight r' \<le> relay_weight r"
    using relay_run_length [OF assms(7) ok] by simp_all
  note frame = relay_steps_frame [OF assms(7)]
  have "handler r' = Returned None" if "\<nexists>r''. relay_step r' r''" "\<not> waits_for_room r'"
    using unbroken_stuck_returned [OF r'(1) that(1) _ _ _ _ _ that(2)] assms frame by simp
  moreover have "handler r' \<noteq> Returned err" if "waits_for_room r'" for err
    using waiting_not_returned [OF r'(1) that] assms frame by simp
  moreover have "\<not> waits_for_room r'" if "enough_room r"
    using enough_room_goes [OF relay_steps_room [OF assms(7,2) ok that]] .
  ultimately show ?thesis using r' frame relay_returned [OF r'(1)] by auto
qed

text \<open>C19. As long as one peer of a forwarded connection keeps its stream open and nothing breaks,
  forwardConnection does not return and closes neither connection, however long it runs: the end
  of one stream is not passed on, so that a client that waits for the server's close, or a
  server that waits for the client's, waits for ever.\<close>

theorem ends_are_not_passed_on:
  assumes "relay_reach r" and "goroutine r \<noteq> Not_started"
    and "\<not> broken (conn r)" and "\<not> broken (targetConn r)"
    and "\<not> (ended (conn r) \<and> ended (targetConn r))" and "(relay_step ^^ n) r r'"
  shows "\<not> closed (conn r') \<and> \<not> closed (targetConn r') \<and> (\<nexists>err. handler r' = Returned err)"
proof -
  have r': "relay_ok r'" using relay_run_length [OF assms(6) relay_reach_ok [OF assms(1)]] by simp
  note frame = relay_steps_frame [OF assms(6)]
  have "handler r' \<noteq> Returned (Some e)" for e
    using r' frame assms(2-4) by (auto simp: relay_ok_def closing_ok_def)
  moreover have "handler r' \<noteq> Returned None"
    using relay_returned [OF r'] frame assms(5) by auto
  ultimately have "\<nexists>err. handler r' = Returned err" by (metis not_Some_eq)
  with r' show ?thesis by (auto simp: relay_ok_def closing_ok_def split: handler_at.splits)
qed

text \<open>C20. Where the copies of a forwarded connection have ended and no step is left, handler and
  goroutine have returned or are blocked exactly as the summary forwardConnection says of the
  errors the dial and the copies ended with.\<close>

theorem relay_refines_forwardConnection:
  assumes "relay_reach r" and "\<nexists>r'. relay_step r r'" and "relay_fate r = Some f"
  shows "forwardConnection f = relay_end r"
proof -
  have ok: "downward_ok r" using relay_reach_ok [OF assms(1)] by (simp add: relay_ok_def)
  have "handler r \<noteq> Downward (Copied (Some e))" for e using assms(2) relay_step.copy_failed by blast
  moreover have "\<not> (handler r = Downward (Copied None) \<and> goroutine r = Upward (Copied None))"
    using assms(2) relay_step.ready by blast
  ultimately show ?thesis
    using ok assms(3)
    by (auto simp: relay_fate_def relay_end_def downward_ok_def forwardConnection_def
        split: goroutine.splits handler_at.splits copier.splits option.splits)
qed

section \<open>A conversation\<close>

text \<open>
  The client sends two bytes and the server one; both end their streams, or only the server does.
\<close>

definition ex_tcp :: "u8 list \<Rightarrow> u8 list \<Rightarrow> u8 list \<Rightarrow> nat \<Rightarrow> bool \<Rightarrow> bool \<Rightarrow> tcp" where
  "ex_tcp s u g m fin cl = \<lparr>sent = s, unread = u, got = g, room = m, ended = fin, broken = False, closed = cl\<rparr>"

definition ex_relay :: "tcp \<Rightarrow> tcp \<Rightarrow> goroutine \<Rightarrow> handler_at \<Rightarrow> relay" where
  "ex_relay c t g h = \<lparr>conn = c, targetConn = t, goroutine = g, handler = h\<rparr>"

lemmas ex_relay_simps = ex_relay_def ex_tcp_def

definition ex_half :: relay where
  "ex_half = ex_relay (ex_tcp [1, 2] [1, 2] [] 1 False False) (ex_tcp [3] [3] [] 2 True False)
     (Upward (Copying [])) (Downward (Copying []))"

definition ex_both :: relay where
  "ex_both = ex_relay (ex_tcp [1, 2] [1, 2] [] 1 True False) (ex_tcp [3] [3] [] 2 True False)
     (Upward (Copying [])) (Downward (Copying []))"

definition ex_done :: relay where
  "ex_done = ex_relay (ex_tcp [1, 2] [] [3] 0 True True) (ex_tcp [3] [] [1, 2] 0 True True) Announced (Returned None)"

lemma ex_client_step:
  "relay_reach (ex_relay c t g h) \<Longrightarrow> peer_step c c' \<Longrightarrow> relay_reach (ex_relay c' t g h)"
  using relay_reach.client [of "ex_relay c t g h" c'] by (simp add: ex_relay_def)

lemma ex_server_step:
  "relay_reach (ex_relay c t (Upward u) h) \<Longrightarrow> peer_step t t' \<Longrightarrow> relay_reach (ex_relay c t' (Upward u) h)"
  using relay_reach.server [of "ex_relay c t (Upward u) h" t'] by (simp add: ex_relay_def)

lemma ex_send: "peer_step (ex_tcp s u g m False False) (ex_tcp (s @ bs) (u @ bs) g m False False)"
  using send [of "ex_tcp s u g m False False" bs] by (simp add: ex_tcp_def)

lemma ex_reads: "peer_step (ex_tcp s u g m f False) (ex_tcp s u g (m + n) f False)"
  using reads [of "ex_tcp s u g m f False" n] by (simp add: ex_tcp_def)

lemma ex_finish: "peer_step (ex_tcp s u g m f False) (ex_tcp s u g m True False)"
  using finish [of "ex_tcp s u g m f False"] by (simp add: ex_tcp_def)

lemma ex_half_reach: "relay_reach ex_half"
proof -
  let ?r = "\<lambda>c t. ex_relay c t (Upward (Copying [])) (Downward (Copying []))"
  have "relay_step new_relay (?r (ex_tcp [] [] [] 0 False False) (ex_tcp [] [] [] 0 False False))"
    using relay_step.dialed [of new_relay] by (simp add: new_relay_def fresh_tcp_def ex_relay_simps)
  from relay_reach.relay [OF relay_reach.start this]
  have "relay_reach (?r (ex_tcp [] [] [] 0 False False) (ex_tcp [] [] [] 0 False False))" .
  from ex_client_step [OF ex_client_step [OF this ex_send [where bs = "[1, 2]"]] ex_reads [where n = 1]]
  have "relay_reach (?r (ex_tcp [1, 2] [1, 2] [] 1 False False) (ex_tcp [] [] [] 0 False False))" by simp
  from ex_server_step [OF ex_server_step [OF this ex_send [where bs = "[3]"]] ex_reads [where n = 2]]
  have "relay_reach (?r (ex_tcp [1, 2] [1, 2] [] 1 False False) (ex_tcp [3] [3] [] 2 False False))" by (simp add: numeral_2_eq_2)
  from ex_server_step [OF this ex_finish] show ?thesis by (simp add: ex_half_def)
qed

lemma ex_both_reach: "relay_reach ex_both"
  using ex_client_step [OF ex_half_reach [unfolded ex_half_def] ex_finish] by (simp add: ex_both_def)

lemma ex_up:
  "copy_step c t x c' t' y \<Longrightarrow> relay_step (ex_relay c t (Upward x) h) (ex_relay c' t' (Upward y) h)"
  using relay_step.upward [of "ex_relay c t (Upward x) h" x c' t' y] by (simp add: ex_relay_def)

lemma ex_down:
  "copy_step t c x t' c' y \<Longrightarrow> relay_step (ex_relay c t g (Downward x)) (ex_relay c' t' g (Downward y))"
  using relay_step.downward [of "ex_relay c t g (Downward x)" x t' c' y] by (simp add: ex_relay_def)

lemma ex_ready:
  "relay_step (ex_relay (ex_tcp s u g m f cl) (ex_tcp s' u' g' m' f' cl') (Upward (Copied None)) (Downward (Copied None)))
     (ex_relay (ex_tcp s u g m f True) (ex_tcp s' u' g' m' f' True) Announced (Returned None))"
  using relay_step.ready [of "ex_relay (ex_tcp s u g m f cl) (ex_tcp s' u' g' m' f' cl') (Upward (Copied None)) (Downward (Copied None))"]
  by (simp add: ex_relay_simps return_closing_def)

lemma ex_read:
  "copy_step (ex_tcp s (x # u) g m f False) d (Copying []) (ex_tcp s [] g m f False) d (Copying (x # u))"
  using copy_step.read_piece [of "ex_tcp s (x # u) g m f False" "x # u" "[]" d] by (simp add: ex_tcp_def)

lemma ex_write:
  "length (x # xs) \<le> m \<Longrightarrow>
     copy_step a (ex_tcp s u g m f False) (Copying (x # xs)) a
       (ex_tcp s u (g @ x # xs) (m - length (x # xs)) f False) (Copying [])"
  using copy_step.write_piece [where zs = "[]" and src = a, of "x # xs" "ex_tcp s u g m f False"] by (simp add: ex_tcp_def)

lemma ex_eof: "copy_step (ex_tcp s [] g m True False) d (Copying []) (ex_tcp s [] g m True False) d (Copied None)"
  by (rule copy_step.eof) (simp_all add: ex_tcp_def)

lemma seven_Suc: "7 = Suc (Suc (Suc (Suc (Suc (Suc (Suc 0))))))"
  by simp

lemma ex_conversation: "(relay_step ^^ 7) ex_both ex_done"
proof -
  have "(relay_step ^^ Suc (Suc (Suc (Suc (Suc (Suc (Suc 0))))))) ex_both
    (ex_relay (ex_tcp [1, 2] [] ([] @ [3]) (1 - length [3 :: u8]) True True)
       (ex_tcp [3] [] ([] @ [1, 2]) (2 - length [1, 2 :: u8]) True True) Announced (Returned None))"
    unfolding ex_both_def
    by (rule relpowp_Suc_I2, rule ex_up, rule ex_read, rule relpowp_Suc_I2, rule ex_up, rule ex_write, simp,
        rule relpowp_Suc_I2, rule ex_up, rule ex_eof, rule relpowp_Suc_I2, rule ex_down, rule ex_read,
        rule relpowp_Suc_I2, rule ex_down, rule ex_write, simp, rule relpowp_Suc_I2, rule ex_down, rule ex_eof,
        rule relpowp_Suc_I2, rule ex_ready, rule relpowp_0_I)
  then show ?thesis by (simp add: seven_Suc ex_done_def del: relpowp.simps)
qed

text \<open>Without the client's end, its bytes and the server's are delivered, and then everything waits.\<close>

definition ex_waiting :: relay where
  "ex_waiting = ex_relay (ex_tcp [1, 2] [] [3] 0 False False) (ex_tcp [3] [] [1, 2] 0 True False)
     (Upward (Copying [])) (Downward (Copied None))"

lemma five_Suc: "5 = Suc (Suc (Suc (Suc (Suc 0))))"
  by simp

lemma ex_waits: "(relay_step ^^ 5) ex_half ex_waiting"
proof -
  have "(relay_step ^^ Suc (Suc (Suc (Suc (Suc 0))))) ex_half
    (ex_relay (ex_tcp [1, 2] [] ([] @ [3]) (1 - length [3 :: u8]) False False)
       (ex_tcp [3] [] ([] @ [1, 2]) (2 - length [1, 2 :: u8]) True False)
       (Upward (Copying [])) (Downward (Copied None)))"
    unfolding ex_half_def
    by (rule relpowp_Suc_I2, rule ex_up, rule ex_read, rule relpowp_Suc_I2, rule ex_up, rule ex_write, simp,
        rule relpowp_Suc_I2, rule ex_down, rule ex_read, rule relpowp_Suc_I2, rule ex_down, rule ex_write, simp,
        rule relpowp_Suc_I2, rule ex_down, rule ex_eof, rule relpowp_0_I)
  then show ?thesis by (simp add: five_Suc ex_waiting_def del: relpowp.simps)
qed

lemma relay_steps_reach: "(relay_step ^^ n) r r' \<Longrightarrow> relay_reach r \<Longrightarrow> relay_reach r'"
  by (induction n arbitrary: r') (auto intro: relay_reach.relay)

lemma ex_done_stuck: "\<nexists>r. relay_step ex_done r"
  by (auto elim: relay_stepE simp: ex_done_def ex_relay_def)

lemma ex_waiting_stuck: "\<nexists>r. relay_step ex_waiting r"
  by (auto elim!: relay_stepE copy_stepE simp: ex_waiting_def ex_relay_simps)

lemma relay_bytes_in_order_witness:
  "got (targetConn ex_done) = sent (conn ex_done) \<and> got (conn ex_done) = sent (targetConn ex_done)"
  using relay_bytes_in_order [OF relay_steps_reach [OF ex_conversation ex_both_reach]]
  by (simp add: ex_done_def ex_relay_def)

lemma relay_delivers_witness:
  "7 \<le> relay_weight ex_both \<and> \<not> waits_for_room ex_done \<and> handler ex_done = Returned None \<and>
   got (targetConn ex_done) = [1, 2] \<and> got (conn ex_done) = [3]"
  using relay_delivers [OF ex_both_reach _ _ _ _ _ ex_conversation] ex_done_stuck
  by (simp add: ex_both_def ex_relay_simps enough_room_def)

lemma ends_are_not_passed_on_witness:
  "\<not> closed (conn ex_waiting) \<and> \<not> closed (targetConn ex_waiting) \<and> (\<nexists>err. handler ex_waiting = Returned err)"
  by (rule ends_are_not_passed_on [OF ex_half_reach _ _ _ _ ex_waits]) (simp_all add: ex_half_def ex_relay_simps)

lemma relay_refines_forwardConnection_witness:
  "forwardConnection \<lparr>target_nil = False, dial_error = None, to_target = None, to_client = None\<rparr> = relay_end ex_done"
  by (rule relay_refines_forwardConnection [OF relay_steps_reach [OF ex_conversation ex_both_reach] ex_done_stuck])
    (simp add: relay_fate_def ex_done_def ex_relay_def)

end
