(* ===== verification/Printing_Run.thy ===== *)
theory Printing_Run
  imports Printing_Proxy Relay
begin

text \<open>
  The goroutines of \<^verbatim>\<open>handleHttpConn\<close> in \<^verbatim>\<open>httpPrintingProxy.go\<close> as a step relation: the one that prints
  what the client sends and hands it on through a pipe, the one that parses the request and has
  it intercepted or connected to its server, those that \<^verbatim>\<open>intercept\<close> and
  \<^verbatim>\<open>connectClientToServerDirectly\<close> start, and the handler itself, which waits for two channels.
  The connections are those of \<open>Relay\<close>: peers send, read, end their streams and break at any
  moment, and any of the goroutines may close them. The target address is not nil, and a response
  is written once it has been read.
\<close>

section \<open>The state\<close>

text \<open>
  \<^verbatim>\<open>net/http\<close> on bytes: what \<^verbatim>\<open>ReadRequest\<close> makes of the bytes so far (\<open>None\<close> if it needs more),
  whether they contain the whole body, what \<^verbatim>\<open>Request.Write\<close> writes of them, and what
  \<^verbatim>\<open>Response.Write\<close> writes of the bytes of a response.
\<close>

record http_library =
  lib_ReadRequest :: "u8 list \<Rightarrow> http_request go option"
  lib_body_read :: "u8 list \<Rightarrow> bool"
  lib_request_bytes :: "u8 list \<Rightarrow> u8 list"
  lib_response_bytes :: "u8 list \<Rightarrow> u8 list go option"

text \<open>
  The printing goroutine reads; or it has printed nothing yet of the chunk \<open>c\<close>, of which \<open>ys\<close> was
  not taken from the pipe yet (\<open>Handing ys c\<close>); or it has seen the end of the stream and sends on
  \<^verbatim>\<open>printRequestReady\<close>; or it has logged another error and is gone.
\<close>

datatype reader = Reading | Handing "u8 list" "u8 list" | At_end | Announced_end | Gave_up

text \<open>\<^verbatim>\<open>request.Write(targetConn)\<close>: the rest of the body is read from the pipe, and the request written.\<close>

datatype sending = Reading_body | Writing "u8 list" | Request_sent | Send_failed

text \<open>
  The goroutine that serves the request: it parses; has the request; is in \<^verbatim>\<open>intercept\<close>; is in
  \<^verbatim>\<open>connectClientToServerDirectly\<close>, copying from the server; sends on \<^verbatim>\<open>ready\<close>; has sent; has closed
  the pipe and is gone.
\<close>

datatype work =
    Parsing | Parsed http_request | Intercepting sending | Connected copier
  | Announcing | Announced_ready | Gone

text \<open>The goroutines of \<^verbatim>\<open>intercept\<close>: one reads the response, the other writes it and closes.\<close>

datatype answerer = No_answer | Awaiting "u8 list" | Answering_with "u8 list" | Both_closed

datatype handler_state = Awaits_ready | Awaits_print | Handler_returned

record printing =
  client :: tcp
  origin :: tcp
  dialed :: bool
  reader :: reader
  printed :: "u8 list list"
  pipe_closed :: bool
  consumed :: "u8 list"
  work :: work
  request_writer :: "sending option"
  answerer :: answerer
  waiting :: handler_state

definition new_printing :: printing where
  "new_printing =
     \<lparr>client = fresh_tcp, origin = fresh_tcp, dialed = False, reader = Reading, printed = [], pipe_closed = False,
      consumed = [], work = Parsing, request_writer = None, answerer = No_answer, waiting = Awaits_ready\<rparr>"

definition close_both :: "printing \<Rightarrow> printing" where
  "close_both p =
     p\<lparr>client := (client p)\<lparr>closed := True\<rparr>, origin := (origin p)\<lparr>closed := True\<rparr>\<rparr>"

section \<open>Steps\<close>

text \<open>
  \<^verbatim>\<open>printRequest\<close>, reading through the \<^verbatim>\<open>TeeReader\<close>: a chunk is printed once the pipe's other side has
  taken all of it; a write to a closed pipe fails, and so does a read of a closed connection.
\<close>

inductive printRequest_step :: "printing \<Rightarrow> printing \<Rightarrow> bool" where
  read_chunk: "reader p = Reading \<Longrightarrow> \<not> closed (client p) \<Longrightarrow> unread (client p) = c @ ys \<Longrightarrow> c \<noteq> [] \<Longrightarrow>
    length c \<le> 1024 \<Longrightarrow> printRequest_step p (p\<lparr>client := (client p)\<lparr>unread := ys\<rparr>, reader := Handing c c\<rparr>)"
| chunk_printed: "reader p = Handing [] c \<Longrightarrow>
    printRequest_step p (p\<lparr>reader := Reading, printed := printed p @ [c]\<rparr>)"
| end_seen: "reader p = Reading \<Longrightarrow> \<not> closed (client p) \<Longrightarrow> unread (client p) = [] \<Longrightarrow> ended (client p) \<Longrightarrow>
    printRequest_step p (p\<lparr>reader := At_end\<rparr>)"
| read_failed: "reader p = Reading \<Longrightarrow> closed (client p) \<or> broken (client p) \<Longrightarrow>
    printRequest_step p (p\<lparr>reader := Gave_up\<rparr>)"
| pipe_failed: "reader p = Handing ys c \<Longrightarrow> ys \<noteq> [] \<Longrightarrow> pipe_closed p \<Longrightarrow>
    printRequest_step p (p\<lparr>reader := Gave_up\<rparr>)"

text \<open>A read of the pipe takes a piece of the chunk that is being written to it.\<close>

inductive pipe_read :: "printing \<Rightarrow> printing \<Rightarrow> bool" where
  take_piece: "reader p = Handing (xs @ ys) c \<Longrightarrow> xs \<noteq> [] \<Longrightarrow> \<not> pipe_closed p \<Longrightarrow>
    pipe_read p (p\<lparr>reader := Handing ys c, consumed := consumed p @ xs\<rparr>)"

text \<open>\<^verbatim>\<open>Request.Write\<close> to the server. Nobody closes the pipe at the client's end of stream.\<close>

inductive send_step :: "http_library \<Rightarrow> sending \<Rightarrow> printing \<Rightarrow> sending \<Rightarrow> printing \<Rightarrow> bool" for L where
  read_body: "\<not> lib_body_read L (consumed p) \<Longrightarrow> pipe_read p p' \<Longrightarrow> send_step L Reading_body p Reading_body p'"
| body_read: "lib_body_read L (consumed p) \<Longrightarrow>
    send_step L Reading_body p (Writing (lib_request_bytes L (consumed p))) p"
| body_lost: "\<not> lib_body_read L (consumed p) \<Longrightarrow> pipe_closed p \<Longrightarrow> send_step L Reading_body p Send_failed p"
| write_request: "ys \<noteq> [] \<Longrightarrow> \<not> closed (origin p) \<Longrightarrow> length ys \<le> room (origin p) \<Longrightarrow>
    send_step L (Writing (ys @ zs)) p (Writing zs)
      (p\<lparr>origin := (origin p)\<lparr>got := got (origin p) @ ys, room := room (origin p) - length ys\<rparr>\<rparr>)"
| request_written: "send_step L (Writing []) p Request_sent p"
| write_failed: "xs \<noteq> [] \<Longrightarrow> closed (origin p) \<or> broken (origin p) \<Longrightarrow> send_step L (Writing xs) p Send_failed p"

text \<open>
  \<^verbatim>\<open>intercept\<close> and its two goroutines. The error of \<^verbatim>\<open>Write\<close> is ignored. A response that cannot be
  read is nil, and then both connections are closed at once.
\<close>

inductive intercept_step :: "http_library \<Rightarrow> InterceptLink list \<Rightarrow> printing \<Rightarrow> printing \<Rightarrow> bool" for L links where
  intercept_dial_failed: "work p = Parsed req \<Longrightarrow> intercept_links links req \<Longrightarrow>
    intercept_step L links p (p\<lparr>work := Gone, pipe_closed := True\<rparr>)"
| intercept_dialed: "work p = Parsed req \<Longrightarrow> intercept_links links req \<Longrightarrow>
    intercept_step L links p (p\<lparr>work := Intercepting Reading_body, dialed := True\<rparr>)"
| intercept_sends: "work p = Intercepting w \<Longrightarrow> send_step L w p w' p' \<Longrightarrow>
    intercept_step L links p (p'\<lparr>work := Intercepting w'\<rparr>)"
| intercept_returns: "work p = Intercepting w \<Longrightarrow> w = Request_sent \<or> w = Send_failed \<Longrightarrow>
    intercept_step L links p (p\<lparr>work := Announcing, answerer := Awaiting []\<rparr>)"
| read_response: "answerer p = Awaiting xs \<Longrightarrow> lib_response_bytes L xs = None \<Longrightarrow> \<not> closed (origin p) \<Longrightarrow>
    unread (origin p) = ys @ zs \<Longrightarrow> ys \<noteq> [] \<Longrightarrow>
    intercept_step L links p (p\<lparr>origin := (origin p)\<lparr>unread := zs\<rparr>, answerer := Awaiting (xs @ ys)\<rparr>)"
| response_read: "answerer p = Awaiting xs \<Longrightarrow> lib_response_bytes L xs = Some (Ret bs) \<Longrightarrow>
    intercept_step L links p (p\<lparr>answerer := Answering_with bs\<rparr>)"
| response_nil: "answerer p = Awaiting xs \<Longrightarrow>
    (\<exists>e. lib_response_bytes L xs = Some (Err e)) \<or>
      lib_response_bytes L xs = None \<and>
        (closed (origin p) \<or> broken (origin p) \<or> ended (origin p) \<and> unread (origin p) = []) \<Longrightarrow>
    intercept_step L links p (close_both (p\<lparr>answerer := Both_closed\<rparr>))"
| answer_piece: "answerer p = Answering_with (ys @ zs) \<Longrightarrow> ys \<noteq> [] \<Longrightarrow> \<not> closed (client p) \<Longrightarrow>
    length ys \<le> room (client p) \<Longrightarrow>
    intercept_step L links p
      (p\<lparr>answerer := Answering_with zs,
         client := (client p)\<lparr>got := got (client p) @ ys, room := room (client p) - length ys\<rparr>\<rparr>)"
| answered: "answerer p = Answering_with bs \<Longrightarrow> bs = [] \<or> closed (client p) \<or> broken (client p) \<Longrightarrow>
    intercept_step L links p (close_both (p\<lparr>answerer := Both_closed\<rparr>))"

text \<open>
  \<^verbatim>\<open>connectClientToServerDirectly\<close>: a goroutine sends the request, the function itself copies the
  server's bytes to the client; its deferred calls close both connections, also the client's,
  before the caller goes on.
\<close>

inductive connectClientToServerDirectly_step :: "http_library \<Rightarrow> InterceptLink list \<Rightarrow> printing \<Rightarrow> printing \<Rightarrow> bool" for L links where
  direct_dial_failed: "work p = Parsed req \<Longrightarrow> \<not> intercept_links links req \<Longrightarrow>
    connectClientToServerDirectly_step L links p (p\<lparr>work := Announcing\<rparr>)"
| direct_dialed: "work p = Parsed req \<Longrightarrow> \<not> intercept_links links req \<Longrightarrow>
    connectClientToServerDirectly_step L links p (p\<lparr>work := Connected (Copying []), dialed := True, request_writer := Some Reading_body\<rparr>)"
| direct_sends: "request_writer p = Some w \<Longrightarrow> send_step L w p w' p' \<Longrightarrow>
    connectClientToServerDirectly_step L links p (p'\<lparr>request_writer := Some w'\<rparr>)"
| direct_copies: "work p = Connected c \<Longrightarrow> copy_step (origin p) (client p) c t s c' \<Longrightarrow>
    connectClientToServerDirectly_step L links p (p\<lparr>origin := t, client := s, work := Connected c'\<rparr>)"
| direct_copy_failed: "work p = Connected (Copied (Some e)) \<Longrightarrow>
    connectClientToServerDirectly_step L links p (close_both (p\<lparr>work := Announcing\<rparr>))"
| direct_ready: "work p = Connected (Copied None) \<Longrightarrow> request_writer p = Some Request_sent \<Longrightarrow>
    connectClientToServerDirectly_step L links p (close_both (p\<lparr>work := Announcing, request_writer := None\<rparr>))"

text \<open>
  \<^verbatim>\<open>handleHttpConn\<close>: its goroutine parses what comes through the pipe, and announces its end unless
  the request does not parse or the interception fails; the handler receives from \<^verbatim>\<open>ready\<close> and
  then from \<^verbatim>\<open>printRequestReady\<close>, and closes the connection.
\<close>

inductive handleHttpConn_step :: "http_library \<Rightarrow> printing \<Rightarrow> printing \<Rightarrow> bool" for L where
  parse_more: "work p = Parsing \<Longrightarrow> lib_ReadRequest L (consumed p) = None \<Longrightarrow> pipe_read p p' \<Longrightarrow>
    handleHttpConn_step L p p'"
| parsed: "work p = Parsing \<Longrightarrow> lib_ReadRequest L (consumed p) = Some r \<Longrightarrow> parseHttpRequest r = Ret req \<Longrightarrow>
    handleHttpConn_step L p (p\<lparr>work := Parsed req\<rparr>)"
| parse_failed: "work p = Parsing \<Longrightarrow> lib_ReadRequest L (consumed p) = Some r \<Longrightarrow> parseHttpRequest r = Err e \<Longrightarrow>
    handleHttpConn_step L p (p\<lparr>work := Gone, pipe_closed := True\<rparr>)"
| ready: "work p = Announcing \<Longrightarrow> waiting p = Awaits_ready \<Longrightarrow>
    handleHttpConn_step L p (p\<lparr>work := Announced_ready, waiting := Awaits_print\<rparr>)"
| leave: "work p = Announced_ready \<Longrightarrow> handleHttpConn_step L p (p\<lparr>work := Gone, pipe_closed := True\<rparr>)"
| print_ready: "reader p = At_end \<Longrightarrow> waiting p = Awaits_print \<Longrightarrow>
    handleHttpConn_step L p
      (p\<lparr>reader := Announced_end, waiting := Handler_returned, client := (client p)\<lparr>closed := True\<rparr>\<rparr>)"

inductive printing_step :: "http_library \<Rightarrow> InterceptLink list \<Rightarrow> printing \<Rightarrow> printing \<Rightarrow> bool" for L links where
  by_reader: "printRequest_step p p' \<Longrightarrow> printing_step L links p p'"
| by_intercept: "intercept_step L links p p' \<Longrightarrow> printing_step L links p p'"
| by_direct: "connectClientToServerDirectly_step L links p p' \<Longrightarrow> printing_step L links p p'"
| by_handler: "handleHttpConn_step L p p' \<Longrightarrow> printing_step L links p p'"
| by_client: "peer_step (client p) c \<Longrightarrow> printing_step L links p (p\<lparr>client := c\<rparr>)"
| by_origin: "dialed p \<Longrightarrow> peer_step (origin p) c \<Longrightarrow> printing_step L links p (p\<lparr>origin := c\<rparr>)"

abbreviation printing_run :: "http_library \<Rightarrow> InterceptLink list \<Rightarrow> printing \<Rightarrow> printing \<Rightarrow> bool" where
  "printing_run L links \<equiv> (printing_step L links)\<^sup>*\<^sup>*"

section \<open>What every step keeps\<close>

text \<open>
  What was printed, what is in hand and what is unread is what the client sent, and what went
  through the pipe is as far as the printing goroutine is with its chunks. It has seen the end
  of the stream only after everything was printed and handed on.
\<close>

definition reader_ok :: "printing \<Rightarrow> bool" where
  "reader_ok p =
     (case reader p of
        Reading \<Rightarrow> sent (client p) = concat (printed p) @ unread (client p) \<and> consumed p = concat (printed p)
      | Handing ys c \<Rightarrow> (\<exists>xs. c = xs @ ys \<and> sent (client p) = concat (printed p) @ c @ unread (client p) \<and>
          consumed p = concat (printed p) @ xs)
      | Gave_up \<Rightarrow> prefix (consumed p) (sent (client p))
      | _ \<Rightarrow> ended (client p) \<and> sent (client p) = concat (printed p) \<and> consumed p = sent (client p))"

definition printing_ok :: "printing \<Rightarrow> bool" where
  "printing_ok p \<longleftrightarrow> reader_ok p \<and> (waiting p = Handler_returned \<longleftrightarrow> reader p = Announced_end) \<and>
     (answerer p = Both_closed \<longrightarrow> closed (client p))"

text \<open>
  The printing goroutine will not see the end of the client's stream: it has met an error, or the
  connection was closed before, or the pipe was closed when something was still to be handed on.
\<close>

definition cannot_see_end :: "printing \<Rightarrow> bool" where
  "cannot_see_end p \<longleftrightarrow>
     reader p = Gave_up \<or>
     closed (client p) \<and> reader p \<noteq> At_end \<and> reader p \<noteq> Announced_end \<or>
     pipe_closed p \<and> consumed p \<noteq> sent (client p)"

text \<open>A step that leaves the printing goroutine and its input alone.\<close>

definition leaves_reader :: "printing \<Rightarrow> printing \<Rightarrow> bool" where
  "leaves_reader p p' \<longleftrightarrow>
     reader p' = reader p \<and> consumed p' = consumed p \<and> printed p' = printed p \<and> waiting p' = waiting p \<and>
     sent (client p') = sent (client p) \<and> unread (client p') = unread (client p) \<and>
     ended (client p') = ended (client p) \<and> (closed (client p) \<longrightarrow> closed (client p')) \<and>
     (pipe_closed p \<longrightarrow> pipe_closed p') \<and>
     (answerer p' = Both_closed \<longrightarrow> answerer p = Both_closed \<or> closed (client p'))"

lemma leaves_reader_ok: "leaves_reader p p' \<Longrightarrow> printing_ok p \<Longrightarrow> printing_ok p'"
  by (auto simp: leaves_reader_def printing_ok_def reader_ok_def split: reader.splits)

lemma leaves_reader_end: "leaves_reader p p' \<Longrightarrow> cannot_see_end p \<Longrightarrow> cannot_see_end p'"
  by (auto simp: leaves_reader_def cannot_see_end_def)

lemma pipe_read_ok: "pipe_read p p' \<Longrightarrow> printing_ok p \<Longrightarrow> printing_ok p'"
proof (induction rule: pipe_read.induct)
  case (take_piece p xs ys c)
  then show ?case by (auto simp: printing_ok_def reader_ok_def)
qed

lemma pipe_read_end: "pipe_read p p' \<Longrightarrow> printing_ok p \<Longrightarrow> cannot_see_end p \<Longrightarrow> cannot_see_end p'"
  by (induction rule: pipe_read.induct) (auto simp: cannot_see_end_def)

lemma send_step_cases:
  "send_step L w p w' p' \<Longrightarrow> pipe_read p p' \<or> (\<exists>c. p' = p\<lparr>origin := c\<rparr>)"
proof (induction rule: send_step.induct)
  case (body_read p)
  have "p = p\<lparr>origin := origin p\<rparr>" by simp
  then show ?case by blast
next
  case (body_lost p)
  have "p = p\<lparr>origin := origin p\<rparr>" by simp
  then show ?case by blast
next
  case (request_written p)
  have "p = p\<lparr>origin := origin p\<rparr>" by simp
  then show ?case by blast
next
  case (write_failed xs p)
  have "p = p\<lparr>origin := origin p\<rparr>" by simp
  then show ?case by blast
qed blast+

text \<open>The other goroutines take a piece from the pipe, or do not touch it, and go on.\<close>

definition goes_on :: "printing \<Rightarrow> printing \<Rightarrow> bool" where
  "goes_on p p' \<longleftrightarrow> (\<exists>q. (q = p \<or> pipe_read p q) \<and> leaves_reader q p')"

lemma goes_on_alone: "leaves_reader p p' \<Longrightarrow> goes_on p p'"
  by (auto simp: goes_on_def)

lemma goes_on_ok: "goes_on p p' \<Longrightarrow> printing_ok p \<Longrightarrow> printing_ok p'"
  unfolding goes_on_def using leaves_reader_ok pipe_read_ok by blast

lemma goes_on_end: "goes_on p p' \<Longrightarrow> printing_ok p \<Longrightarrow> cannot_see_end p \<Longrightarrow> cannot_see_end p'"
  unfolding goes_on_def using leaves_reader_end pipe_read_end by blast

lemma goes_on_send:
  assumes "send_step L w p w' p'" and "\<And>q. leaves_reader q (f q)" and "\<And>c. leaves_reader p (f (p\<lparr>origin := c\<rparr>))"
  shows "goes_on p (f p')"
  using send_step_cases [OF assms(1)] assms(2,3) unfolding goes_on_def by blast

lemma intercept_step_goes_on: "intercept_step L links p p' \<Longrightarrow> goes_on p p'"
proof (induction rule: intercept_step.induct)
  case (intercept_sends p w w' p')
  show ?case by (rule goes_on_send [OF intercept_sends(2)]) (simp_all add: leaves_reader_def)
qed (rule goes_on_alone; simp add: leaves_reader_def close_both_def)+

lemma connectClientToServerDirectly_goes_on: "connectClientToServerDirectly_step L links p p' \<Longrightarrow> goes_on p p'"
proof (induction rule: connectClientToServerDirectly_step.induct)
  case (direct_sends p w w' p')
  show ?case by (rule goes_on_send [OF direct_sends(2)]) (simp_all add: leaves_reader_def)
next
  case (direct_copies p c t s c')
  with copy_step_frame [OF direct_copies(2)] show ?case
    by (intro goes_on_alone) (simp add: leaves_reader_def)
qed (rule goes_on_alone; simp add: leaves_reader_def close_both_def)+

lemma printRequest_step_ok: "printRequest_step p p' \<Longrightarrow> printing_ok p \<Longrightarrow> printing_ok p'"
  by (induction rule: printRequest_step.induct) (auto simp: printing_ok_def reader_ok_def)

lemma printRequest_step_end: "printRequest_step p p' \<Longrightarrow> printing_ok p \<Longrightarrow> cannot_see_end p \<Longrightarrow> cannot_see_end p'"
  by (induction rule: printRequest_step.induct) (auto simp: cannot_see_end_def)

lemma handleHttpConn_step_ok: "handleHttpConn_step L p p' \<Longrightarrow> printing_ok p \<Longrightarrow> printing_ok p'"
proof (induction rule: handleHttpConn_step.induct)
  case (parse_more p p')
  then show ?case using pipe_read_ok by blast
qed (auto simp: printing_ok_def reader_ok_def split: reader.splits)

lemma handleHttpConn_step_end: "handleHttpConn_step L p p' \<Longrightarrow> printing_ok p \<Longrightarrow> cannot_see_end p \<Longrightarrow> cannot_see_end p'"
proof (induction rule: handleHttpConn_step.induct)
  case (parse_more p p')
  then show ?case using pipe_read_end by blast
qed (auto simp: cannot_see_end_def printing_ok_def reader_ok_def)

lemma client_peer_ok:
  assumes "peer_step (client p) c" and "printing_ok p"
  shows "printing_ok (p\<lparr>client := c\<rparr>)" and "cannot_see_end p \<Longrightarrow> cannot_see_end (p\<lparr>client := c\<rparr>)"
  using assms
  by (auto elim!: peer_stepE simp: printing_ok_def reader_ok_def cannot_see_end_def split: reader.splits)

lemma printing_step_ok:
  assumes "printing_step L links p p'" and "printing_ok p"
  shows "printing_ok p'" and "cannot_see_end p \<Longrightarrow> cannot_see_end p'"
proof -
  have "printing_ok p' \<and> (cannot_see_end p \<longrightarrow> cannot_see_end p')"
    using assms
  proof (induction rule: printing_step.induct)
    case (by_reader p p')
    then show ?case using printRequest_step_ok printRequest_step_end by blast
  next
    case (by_intercept p p')
    then show ?case using intercept_step_goes_on goes_on_ok goes_on_end by blast
  next
    case (by_direct p p')
    then show ?case using connectClientToServerDirectly_goes_on goes_on_ok goes_on_end by blast
  next
    case (by_handler p p')
    then show ?case using handleHttpConn_step_ok handleHttpConn_step_end by blast
  next
    case (by_client p c)
    then show ?case using client_peer_ok by blast
  next
    case (by_origin p c)
    have "leaves_reader p (p\<lparr>origin := c\<rparr>)" by (simp add: leaves_reader_def)
    with by_origin show ?case using leaves_reader_ok leaves_reader_end by blast
  qed
  then show "printing_ok p'" and "cannot_see_end p \<Longrightarrow> cannot_see_end p'" by simp_all
qed

lemma printing_run_ok:
  "printing_run L links p p' \<Longrightarrow> printing_ok p \<Longrightarrow> printing_ok p' \<and> (cannot_see_end p \<longrightarrow> cannot_see_end p')"
  by (induction rule: rtranclp_induct) (use printing_step_ok in blast)+

lemma new_printing_ok: "printing_ok new_printing"
  by (simp add: printing_ok_def reader_ok_def new_printing_def fresh_tcp_def)

section \<open>Properties\<close>

text \<open>C34. The printing proxy's handler with its goroutines, a client and a server that do anything
  at any time: it returns only after the client has ended its stream, and then everything the
  client sent was printed and handed to the goroutine that serves the request. It never returns
  once the printing goroutine has met an error, or the client's connection was closed before
  that goroutine saw the end of the stream, or the pipe was closed when something the client
  sent was not handed on. In particular, when intercept or the direct connection has closed the
  connection of a client that has not ended its stream, as one does that waits for its answer,
  the handler waits for ever.\<close>

theorem printing_handler_returns:
  assumes "printing_run L links new_printing p" and "printing_run L links p p'"
  shows "(waiting p' = Handler_returned \<longrightarrow>
      ended (client p') \<and> concat (printed p') = sent (client p') \<and> consumed p' = sent (client p')) \<and>
    (cannot_see_end p \<longrightarrow> waiting p' \<noteq> Handler_returned) \<and>
    ((answerer p = Both_closed \<or> closed (client p)) \<and> \<not> ended (client p) \<longrightarrow> cannot_see_end p)"
proof -
  have p: "printing_ok p" using printing_run_ok [OF assms(1) new_printing_ok] by blast
  note p' = printing_run_ok [OF assms(2) p]
  have "cannot_see_end p" if "answerer p = Both_closed \<or> closed (client p)" "\<not> ended (client p)"
    using p that by (auto simp: printing_ok_def reader_ok_def cannot_see_end_def)
  moreover have "waiting p' \<noteq> Handler_returned" if "cannot_see_end p"
    using p' that by (auto simp: printing_ok_def reader_ok_def cannot_see_end_def)
  ultimately show ?thesis using p' by (auto simp: printing_ok_def reader_ok_def)
qed

text \<open>
  An intercepted client that keeps its connection open: it sends its request of one byte, gets
  the response, and the connection is closed below the printing goroutine.
\<close>

definition ex_library :: http_library where
  "ex_library =
     \<lparr>lib_ReadRequest = (\<lambda>bs. if bs = [] then None else Some (Ret
        \<lparr>req_method = ''GET'', req_url = \<lparr>url_scheme = [], url_host = [], url_path = ''/'', url_rawquery = [],
           url_forcequery = False, url_escaped_host = [], url_escaped_path = ''/''\<rparr>,
         req_host = ''h'', req_headers = Map.empty\<rparr>)),
      lib_body_read = (\<lambda>bs. True), lib_request_bytes = (\<lambda>bs. bs),
      lib_response_bytes = (\<lambda>bs. if bs = [] then None else Some (Ret bs))\<rparr>"

definition ex_links :: "InterceptLink list" where
  "ex_links = [\<lparr>link_Url = [], link_Intercept = True\<rparr>]"

abbreviation ex_steps :: "printing \<Rightarrow> printing \<Rightarrow> bool" where
  "ex_steps \<equiv> printing_run ex_library ex_links"

lemma ex_then: "ex_steps a b \<Longrightarrow> printing_step ex_library ex_links b c \<Longrightarrow> ex_steps a c"
  by (rule rtranclp.rtrancl_into_rtrancl)

definition ex_at :: "tcp \<Rightarrow> tcp \<Rightarrow> bool \<Rightarrow> reader \<Rightarrow> u8 list list \<Rightarrow> u8 list \<Rightarrow> work \<Rightarrow> answerer \<Rightarrow> printing" where
  "ex_at c t d r pr cons w a =
     \<lparr>client = c, origin = t, dialed = d, reader = r, printed = pr, pipe_closed = False, consumed = cons,
      work = w, request_writer = None, answerer = a, waiting = Awaits_ready\<rparr>"

abbreviation ex_step :: "printing \<Rightarrow> printing \<Rightarrow> bool" where
  "ex_step \<equiv> printing_step ex_library ex_links"

lemma ex_client: "peer_step c c' \<Longrightarrow> ex_step (ex_at c t d r pr k w a) (ex_at c' t d r pr k w a)"
  using by_client [of "ex_at c t d r pr k w a" c'] by (simp add: ex_at_def)

lemma ex_origin: "peer_step t t' \<Longrightarrow> ex_step (ex_at c t True r pr k w a) (ex_at c t' True r pr k w a)"
  using by_origin [of "ex_at c t True r pr k w a" t'] by (simp add: ex_at_def)

lemma ex_chunk:
  "ex_step (ex_at (ex_tcp s [x] g m f False) t d Reading pr k w a)
     (ex_at (ex_tcp s [] g m f False) t d (Handing [x] [x]) pr k w a)"
  using by_reader [OF read_chunk [of "ex_at (ex_tcp s [x] g m f False) t d Reading pr k w a" "[x]" "[]"]]
  by (simp add: ex_at_def ex_tcp_def)

lemma ex_taken:
  "ex_step (ex_at c t d (Handing [x] [x]) pr [] Parsing a) (ex_at c t d (Handing [] [x]) pr [x] Parsing a)"
  using by_handler [OF parse_more [OF _ _ take_piece [of _ "[x]" "[]" "[x]"],
      of "ex_at c t d (Handing [x] [x]) pr [] Parsing a" ex_library]]
  by (simp add: ex_at_def ex_library_def)

lemma ex_printed: "ex_step (ex_at c t d (Handing [] x) pr k w a) (ex_at c t d Reading (pr @ [x]) k w a)"
  using by_reader [OF chunk_printed [of "ex_at c t d (Handing [] x) pr k w a" x]] by (simp add: ex_at_def)

lemma ex_parsed:
  "\<exists>req. ex_step (ex_at c t d r pr [x] Parsing a) (ex_at c t d r pr [x] (Parsed req) a)"
proof -
  obtain q req where "lib_ReadRequest ex_library [x] = Some q" "parseHttpRequest q = Ret req"
    by (simp add: ex_library_def parseHttpRequest_def)
  with by_handler [OF parsed [of "ex_at c t d r pr [x] Parsing a" ex_library q req]] show ?thesis
    by (intro exI [of _ req]) (simp add: ex_at_def)
qed

lemma ex_dialed:
  "ex_step (ex_at c t False r pr k (Parsed req) a) (ex_at c t True r pr k (Intercepting Reading_body) a)"
  using by_intercept [OF intercept_dialed [of "ex_at c t False r pr k (Parsed req) a" req ex_links ex_library]]
  by (simp add: ex_at_def ex_links_def)

lemma ex_sends:
  "send_step ex_library w (ex_at c t d r pr k (Intercepting w) a) w' (ex_at c t' d r pr k (Intercepting w) a) \<Longrightarrow>
     ex_step (ex_at c t d r pr k (Intercepting w) a) (ex_at c t' d r pr k (Intercepting w') a)"
  using by_intercept [OF intercept_sends [of "ex_at c t d r pr k (Intercepting w) a" w ex_library w'
      "ex_at c t' d r pr k (Intercepting w) a" ex_links]]
  by (simp add: ex_at_def)

lemma ex_body: "send_step ex_library Reading_body (ex_at c t d r pr k w a) (Writing k) (ex_at c t d r pr k w a)"
  using body_read [of ex_library "ex_at c t d r pr k w a"] by (simp add: ex_at_def ex_library_def)

lemma ex_request:
  "send_step ex_library (Writing [x]) (ex_at c (ex_tcp s u g (Suc m) f False) d r pr k w a) (Writing [])
     (ex_at c (ex_tcp s u (g @ [x]) m f False) d r pr k w a)"
  using write_request [of "[x]" "ex_at c (ex_tcp s u g (Suc m) f False) d r pr k w a" ex_library "[]"]
  by (simp add: ex_at_def ex_tcp_def)

lemma ex_returns:
  "ex_step (ex_at c t d r pr k (Intercepting Request_sent) a) (ex_at c t d r pr k Announcing (Awaiting []))"
  using by_intercept [OF intercept_returns [of "ex_at c t d r pr k (Intercepting Request_sent) a"]]
  by (simp add: ex_at_def)

lemma ex_response:
  "ex_step (ex_at c (ex_tcp s [x] g m f False) d r pr k w (Awaiting []))
     (ex_at c (ex_tcp s [] g m f False) d r pr k w (Awaiting [x]))"
  using by_intercept [OF read_response [of "ex_at c (ex_tcp s [x] g m f False) d r pr k w (Awaiting [])" "[]"
      ex_library "[x]" "[]"]]
  by (simp add: ex_at_def ex_tcp_def ex_library_def)

lemma ex_answer: "ex_step (ex_at c t d r pr k w (Awaiting [x])) (ex_at c t d r pr k w (Answering_with [x]))"
  using by_intercept [OF response_read [of "ex_at c t d r pr k w (Awaiting [x])" "[x]" ex_library "[x]"]]
  by (simp add: ex_at_def ex_library_def)

lemma ex_piece:
  "ex_step (ex_at (ex_tcp s u g (Suc m) f False) t d r pr k w (Answering_with [x]))
     (ex_at (ex_tcp s u (g @ [x]) m f False) t d r pr k w (Answering_with []))"
  using by_intercept [OF answer_piece [of "ex_at (ex_tcp s u g (Suc m) f False) t d r pr k w (Answering_with [x])" "[x]" "[]"]]
  by (simp add: ex_at_def ex_tcp_def)

lemma ex_closes:
  "ex_step (ex_at (ex_tcp s u g m f False) (ex_tcp s' u' g' m' f' False) d r pr k w (Answering_with []))
     (ex_at (ex_tcp s u g m f True) (ex_tcp s' u' g' m' f' True) d r pr k w Both_closed)"
  using by_intercept [OF answered [of "ex_at (ex_tcp s u g m f False) (ex_tcp s' u' g' m' f' False) d r pr k w (Answering_with [])" "[]"]]
  by (simp add: ex_at_def ex_tcp_def close_both_def)

definition ex_left :: printing where
  "ex_left = ex_at (ex_tcp [1] [] [9] 0 False True) (ex_tcp [9] [] [1] 0 False True) True Reading [[1]] [1]
     Announcing Both_closed"

lemma ex_left_run: "ex_steps new_printing ex_left"
proof -
  let ?c = "ex_tcp [1] [] [] 1 False False" and ?t = "ex_tcp [] [] [] 0 False False"
  have "ex_steps new_printing (ex_at ?t ?t False Reading [] [] Parsing No_answer)"
    by (simp add: new_printing_def ex_at_def fresh_tcp_def ex_tcp_def)
  from ex_then [OF ex_then [OF this ex_client [OF ex_send [where bs = "[1]"]]] ex_client [OF ex_reads [where n = 1]]]
  have "ex_steps new_printing (ex_at (ex_tcp [1] [1] [] 1 False False) ?t False Reading [] [] Parsing No_answer)"
    by simp
  from ex_then [OF ex_then [OF ex_then [OF this ex_chunk] ex_taken] ex_printed]
  have 1: "ex_steps new_printing (ex_at ?c ?t False Reading [[1]] [1] Parsing No_answer)" by simp
  obtain req where "ex_step (ex_at ?c ?t False Reading [[1]] [1] Parsing No_answer)
      (ex_at ?c ?t False Reading [[1]] [1] (Parsed req) No_answer)"
    using ex_parsed by blast
  from ex_then [OF ex_then [OF ex_then [OF ex_then [OF 1 this] ex_dialed] ex_sends [OF ex_body]]
      ex_origin [OF ex_reads [where n = 1]]]
  have "ex_steps new_printing (ex_at ?c (ex_tcp [] [] [] (Suc 0) False False) True Reading [[1]] [1]
      (Intercepting (Writing [1])) No_answer)" by simp
  from ex_then [OF ex_then [OF ex_then [OF this ex_sends [OF ex_request]] ex_sends [OF request_written]] ex_returns]
  have "ex_steps new_printing (ex_at ?c (ex_tcp [] [] [1] 0 False False) True Reading [[1]] [1]
      Announcing (Awaiting []))" by simp
  from ex_then [OF this ex_origin [OF ex_send [where bs = "[9]"]]]
  have "ex_steps new_printing (ex_at (ex_tcp [1] [] [] (Suc 0) False False) (ex_tcp [9] [9] [1] 0 False False) True
      Reading [[1]] [1] Announcing (Awaiting []))" by simp
  from ex_then [OF ex_then [OF ex_then [OF ex_then [OF this ex_response] ex_answer] ex_piece] ex_closes]
  show ?thesis by (simp add: ex_left_def)
qed

lemma printing_handler_returns_witness:
  "got (client ex_left) = [9] \<and> cannot_see_end ex_left \<and> waiting ex_left \<noteq> Handler_returned"
  using printing_handler_returns [OF ex_left_run rtranclp.rtrancl_refl] by (simp add: ex_left_def ex_at_def ex_tcp_def)

end
