(* ===== verification/Old_Proxy.thy ===== *)
theory Old_Proxy
  imports Printing_Proxy
begin

text \<open>
  The proxy of \<^verbatim>\<open>httpProxy.go.old\<close>, which is no longer compiled: the ancestor of the printing proxy,
  with a different preparation of the request and a handler for responses that writes them
  itself. \<^verbatim>\<open>initConfig\<close>, \<^verbatim>\<open>printRequest\<close> and \<^verbatim>\<open>shouldIntercept\<close> are the printing proxy's, word for
  word; the goroutines of \<^verbatim>\<open>handleHttpConn\<close> are not modelled again.
\<close>

section \<open>Requests\<close>

text \<open>
  \<^verbatim>\<open>fixRequest\<close> parses a new URL from the Host header and the decoded path and stores it even if
  the parser \<open>url_Parse\<close> failed and returned nil, here \<open>None\<close>.
\<close>

definition fixRequest :: "(string \<Rightarrow> URL go) \<Rightarrow> http_request \<Rightarrow> http_request option" where
  "fixRequest url_Parse request =
     (case url_Parse (''http://'' @ req_host request @ url_path (req_url request)) of
        Ret newURL \<Rightarrow> Some (request\<lparr>req_url := newURL\<rparr>)
      | _ \<Rightarrow> None)"

text \<open>The query of the client's URL is lost.\<close>

lemma fixRequest_drops_query:
  "fixRequest url_Parse (r\<lparr>req_url := u\<lparr>url_rawquery := x\<rparr>\<rparr>) =
     fixRequest url_Parse (r\<lparr>req_url := u\<lparr>url_rawquery := y\<rparr>\<rparr>)"
  by (simp add: fixRequest_def split: go.split)

section \<open>Responses\<close>

datatype stream_end = At_EOF | Read_failed

record old_response =
  old_Status :: string
  old_Header :: "(string \<times> string list) list"
  old_Body :: "string list"
  old_Body_end :: stream_end

text \<open>
  A closed pipe is an error for this \<^verbatim>\<open>printResponse\<close>. Its goroutine reads the console's pipe, which
  \<^verbatim>\<open>handleResponse\<close> closes only when it returns: as long as that waits for the announcement,
  there is no end of file to read.
\<close>

definition old_printResponse ::
  "string \<Rightarrow> (string \<times> string list) list \<Rightarrow> string list \<Rightarrow> pipe_end option \<Rightarrow> string list \<times> bool" where
  "old_printResponse status hdrs chunks e =
     ((''HTTP/1.1 '' @ status @ crlf) #
        map (\<lambda>(k, v). k @ '': '' @ join_comma v @ crlf) hdrs @ [crlf] @ chunks,
      e = Some Pipe_EOF)"

text \<open>
  What \<^verbatim>\<open>handleResponse\<close> writes to the client, whose connection takes \<open>n\<close> pieces of the body, and
  how it ends. The errors of the writes of the head are ignored; the copy stops at the first error
  of either side. The pipe has no end (\<open>None\<close>) while the function waits.
\<close>

definition old_handleResponse :: "nat \<Rightarrow> old_response \<Rightarrow> string list \<times> thread_end" where
  "old_handleResponse n res =
     (case multi_write n (old_Body res) of
        (client, console, written) \<Rightarrow>
          ((''HTTP/1.1 '' @ old_Status res @ crlf) #
             map (\<lambda>(k, v). k @ '': '' @ join_comma v @ crlf) (old_Header res) @ [crlf] @ client,
           if \<not> (written \<and> old_Body_end res = At_EOF) then Returns
           else if snd (old_printResponse (old_Status res) (old_Header res) console None) then Returns
           else Blocks))"

text \<open>A response that is copied without an error blocks the function for ever, after the client got it.\<close>

lemma old_handleResponse_blocks:
  "snd (old_handleResponse n res) = Blocks \<longleftrightarrow> length (old_Body res) \<le> n \<and> old_Body_end res = At_EOF"
  by (simp add: old_handleResponse_def multi_write_take old_printResponse_def)

text \<open>The client gets the head and as much of the body as its connection takes.\<close>

lemma old_client_is_answered:
  "length (old_Body res) \<le> n \<Longrightarrow>
     fst (old_handleResponse n res) = (''HTTP/1.1 '' @ old_Status res @ crlf) #
       map (\<lambda>(k, v). k @ '': '' @ join_comma v @ crlf) (old_Header res) @ [crlf] @ old_Body res"
  by (simp add: old_handleResponse_def multi_write_take)

end
