(* ===== verification/Unit_Tests.thy ===== *)
theory Unit_Tests
  imports Caches Old_Proxy Program_Properties Statistics
begin

text \<open>
  The repository's own tests, \<^verbatim>\<open>memcachedClient_test.go\<close>, \<^verbatim>\<open>dummyPrinterCache_test.go\<close> and
  \<^verbatim>\<open>httpPrintingProxy_test.go\<close>, as evaluations of the model: what they expect holds of it; and the
  server of \<^verbatim>\<open>test/main.go\<close>.
\<close>

section \<open>The memcached client\<close>

text \<open>\<^verbatim>\<open>minimemcached\<close>, the server of the tests: its items, and whether it runs.\<close>

record mini =
  items :: "string \<rightharpoonup> gob"
  online :: bool

definition mini_miss :: go_error where
  "mini_miss = Go_error ''memcache: cache miss''"

definition mini_refused :: go_error where
  "mini_refused = Go_error ''connect: connection refused''"

definition minimemcached :: "mini memcache" where
  "minimemcached =
     \<lparr>mc_Get = (\<lambda>key s. (if \<not> online s then Err mini_refused
                         else case items s key of None \<Rightarrow> Err mini_miss | Some b \<Rightarrow> Ret b, s)),
      mc_Set = (\<lambda>key b ttl s. if online s then (Ret (), s\<lparr>items := (items s)(key \<mapsto> b)\<rparr>) else (Err mini_refused, s)),
      mc_Delete = (\<lambda>key s. if \<not> online s then (Err mini_refused, s)
                           else if items s key = None then (Err mini_miss, s)
                           else (Ret (), s\<lparr>items := (items s)(key := None)\<rparr>)),
      mc_FlushAll = (\<lambda>s. if online s then (Ret (), s\<lparr>items := Map.empty\<rparr>) else (Err mini_refused, s)),
      mc_Ping = (\<lambda>s. (if online s then Ret () else Err mini_refused, s)),
      mc_ErrCacheMiss = mini_miss\<rparr>"

definition empty_mini :: mini where
  "empty_mini = \<lparr>items = Map.empty, online = True\<rparr>"

definition test_key :: string where
  "test_key = ''testHost/testBucket/testKey''"

definition test_obj :: object where
  "test_obj = \<lparr>obj_Key = test_key, obj_Data = Some [116, 101, 115, 116, 68, 97, 116, 97], obj_Headers = Map.empty\<rparr>"

definition ErrInitializer :: go_error where
  "ErrInitializer = Go_error ''initializer error''"

definition initializer :: "object option go \<Rightarrow> 's initializer" where
  "initializer r = (\<lambda>s. (r, s))"

abbreviation put_state :: mini where
  "put_state \<equiv> snd (memcached_set minimemcached 120 (Some test_obj) empty_mini)"

lemmas memcached_run =
  minimemcached_def empty_mini_def test_key_def test_obj_def initializer_def ErrInitializer_def
  memcached_initialize_def memcached_get_def memcached_set_def memcached_Get_def memcached_Delete_def
  serializeObj_def ErrInitializerNil_def ErrInvalidKey_def ErrObjectNil_def ErrDataNil_def ErrCacheMiss_def
  mini_miss_def mini_refused_def

lemma TestInitialize:
  fixes s :: mini
  defines "s \<equiv> snd (memcached_initialize minimemcached 120 ''testKey'' (Some (initializer (Ret (Some test_obj)))) empty_mini)"
  shows "fst (memcached_initialize minimemcached 120 ''testKey'' (Some (initializer (Ret (Some test_obj)))) empty_mini) =
      Ret (Some test_obj)"
    and "fst (memcached_initialize minimemcached 120 ''testKey'' (Some (initializer (Ret (Some test_obj)))) s) =
      Ret (Some test_obj)"
    and "fst (memcached_initialize minimemcached 120 ''errorKey'' (Some (initializer (Err ErrInitializer))) s) =
      Err (Wrapped ''initializer error'' ErrInitializer)"
    and "fst (memcached_initialize minimemcached 120 ''nilKey'' None s) = Err ErrInitializerNil"
  by (simp_all add: s_def memcached_run)

lemma TestPut:
  "fst (memcached_set minimemcached 120 (Some test_obj) empty_mini) = Ret ()"
  "fst (memcached_Get minimemcached 120 test_key (Some (initializer (Err mini_miss))) put_state) = Ret (Some test_obj)"
  "fst (memcached_set minimemcached 120 (Some test_obj) put_state) = Ret ()"
  "fst (memcached_set minimemcached 120 None put_state) = Err ErrObjectNil"
  "fst (memcached_set minimemcached 120 (Some (test_obj\<lparr>obj_Data := None\<rparr>)) put_state) = Err ErrDataNil"
  "fst (memcached_set minimemcached 120 (Some test_obj) (put_state\<lparr>online := False\<rparr>)) = Err mini_refused"
  by (simp_all add: memcached_run)

lemma TestGet:
  "fst (memcached_Get minimemcached 120 test_key (Some (initializer (Err mini_miss))) put_state) = Ret (Some test_obj)"
  "fst (memcached_Get minimemcached 120 ''testHost/testBucket/testKey2'' (Some (initializer (Err ErrCacheMiss))) put_state) =
     Err (Wrapped ''initializer error'' ErrCacheMiss)"
  "fst (memcached_Get minimemcached 120 test_key (Some (initializer (Err ErrCacheMiss))) (put_state\<lparr>online := False\<rparr>)) =
     Err (Wrapped ''initializer error'' ErrCacheMiss)"
  by (simp_all add: memcached_run)

lemma TestDelete:
  "fst (memcached_Delete minimemcached test_key put_state) = Ret ()"
  "fst (memcached_Delete minimemcached test_key (snd (memcached_Delete minimemcached test_key put_state))) =
     Err ErrCacheMiss"
  "fst (memcached_Delete minimemcached ''testHost/testBucket'' put_state) = Err ErrInvalidKey"
  "fst (memcached_Delete minimemcached test_key (put_state\<lparr>online := False\<rparr>)) = Err mini_refused"
  by (simp_all add: memcached_run)

text \<open>
  The tests do not notice that an object is put under any key that is not empty, while a key with
  fewer than two slashes is never looked up: the second call of \<open>TestInitialize\<close> has not found
  the object of the first one.
\<close>

lemma short_keys_are_write_only:
  assumes "obj_Key o1 \<noteq> []" and "length (split_at (CHR ''/'') (obj_Key o1)) < 3" and "obj_Data o1 \<noteq> None"
    and "online s"
  shows "fst (memcached_set minimemcached ttl (Some o1) s) = Ret ()"
    and "memcached_get M (obj_Key o1) t = (Err ErrInvalidKey, t)"
  using assms by (auto simp: memcached_set_def memcached_get_def minimemcached_def serializeObj_def)

section \<open>The dummy cache\<close>

lemmas dummy_run = dummy_Get_def dummy_get_def dummy_initialize_def dummy_Put_def initializer_def

lemma TestDummyPrinterCache:
  "fst (dummy_Get test_key (Some (initializer (Ret (Some test_obj)))) ([test_key \<mapsto> test_obj], ())) = Ret (Some test_obj)"
  "fst (dummy_Get ''dummy_key'' (Some (initializer (Err ErrCacheMiss))) (Map.empty, ())) = Err ErrCacheMiss"
  "fst (dummy_Get test_key (Some (initializer (Ret (Some test_obj)))) (Map.empty, ())) = Ret (Some test_obj)"
  "dummy_Put (Some test_obj) (Map.empty, ()) = (Ret (), [test_key \<mapsto> test_obj], ())"
  by (simp_all add: dummy_run test_obj_def)

section \<open>The links of the printing proxy\<close>

definition test_links :: "InterceptLink list" where
  "test_links =
     [\<lparr>link_Url = ''http://example.com'', link_Intercept = True\<rparr>,
      \<lparr>link_Url = ''http://example.org'', link_Intercept = False\<rparr>]"

text \<open>\<^verbatim>\<open>http.NewRequest\<close>, unlike the parser of the proxy, keeps the scheme of its URL.\<close>

definition new_request :: "string \<Rightarrow> http_request" where
  "new_request host =
     \<lparr>req_method = ''GET'',
      req_url = \<lparr>url_scheme = ''http'', url_host = host, url_path = [], url_rawquery = [], url_forcequery = False,
                 url_escaped_host = host, url_escaped_path = []\<rparr>,
      req_host = host, req_headers = Map.empty\<rparr>"

lemma TestShouldIntercept:
  "intercept_links test_links (new_request ''example.com'')"
  "\<not> intercept_links test_links (new_request ''example.org'')"
  "\<not> intercept_links test_links (new_request ''example.net'')"
  by (simp_all add: test_links_def new_request_def url_String_def)

section \<open>The test server\<close>

text \<open>
  \<^verbatim>\<open>test/main.go\<close> answers every request with the address it comes from. It listens on port 8000, where
  the README has the interception tried out.
\<close>

definition test_server_port :: u16 where
  "test_server_port = 8000"

definition test_server_handler :: "string \<Rightarrow> string" where
  "test_server_handler clientIP = ''Hello, '' @ clientIP @ newline"

text \<open>A connection to the test server is not intercepted, so that it greets its client itself.\<close>

lemma test_server_not_intercepted:
  assumes "bpf_kernel K ok obs cookie cp" and "ok k" and "user_port ctx = ucast (htons e test_server_port)"
  shows "\<exists>k'. cg_connect4 e K h k ctx = (1, k', ctx) \<and> ok k' \<and> obs k' = obs k"
proof (rule bpf_kernel.connect4_pass [OF assms(1,2)])
  have "(ucast (htons e test_server_port) :: u32) \<noteq> ucast (htons e 9000)"
    by (cases e) (simp_all add: test_server_port_def htons_def bswap16_def)
  with assms(3) show "\<not> intercepted e (v_config (obs k)) h ctx" by (simp add: intercepted_def)
qed

end
