(* ===== verification/Spec2Isabelle.thy ===== *)
theory Spec2Isabelle
  imports Pool_Serving Timed_Run Helper_Calls Printing_Run Unit_Tests
begin

text \<open>
  A verification of the transparent caching proxy for object storage: the eBPF programs of
  \<^verbatim>\<open>proxy.c\<close> and the Go program around them.

  \<^bold>\<open>The program.\<close> A client's connect() to port 9000 runs \<^verbatim>\<open>cg_connect4\<close>, which sends it to the
  proxy on the local host and stores the original destination in \<^verbatim>\<open>map_socks\<close> under the socket's
  cookie. When the connection is established \<^verbatim>\<open>cg_sock_ops\<close> stores the cookie in \<^verbatim>\<open>map_ports\<close>
  under the client's source port. The Go proxy accepts the connection and asks for
  SO_ORIGINAL_DST; \<^verbatim>\<open>cg_sock_opt\<close> answers from the two maps and deletes both entries. A worker
  of the proxy then reads an HTTP request, and if the MinIO adapter intercepts it answers from a
  cache, which is filled from the original destination; other requests are forwarded there.

  \<^bold>\<open>Theories, in the order of the data's way.\<close>
  \<^item> \<open>Prelude\<close>: machine integers, theorem collections, generic lemmas.
  \<^item> \<open>Byte_Order\<close>: the conversions of \<^verbatim>\<open>bpf-utils.h\<close> for both byte orders, and stores to memory.
  \<^item> \<open>Helper_Types\<close>, \<open>Helper_Table\<close>, \<open>Helper_Calls\<close>: the 211 prototypes of \<^verbatim>\<open>bpf-builtin.h\<close> as
    data, and the sequence of numbered helper calls each program makes on each path.
  \<^item> \<open>Bpf_Kernel\<close>: \<^verbatim>\<open>struct Config\<close>, \<^verbatim>\<open>struct Socket\<close>, and what the programs use of the kernel, a
    record of operations over an arbitrary state. Its contract is the locale \<open>bpf_kernel\<close> over two
    copies of \<open>bpf_hash\<close>; \<open>bpf_kernel_room\<close> and \<open>bpf_kernel_rcu\<close> add when updates succeed and
    that a deleted element stays readable.
  \<^item> \<open>Proxy_Progs\<close>: the three programs.
  \<^item> \<open>Nat_Spec\<close>: their abstract specification, an address-translation table, with the refinement
    of each program in the locale's context.
  \<^item> \<open>Slot_Table\<close>, \<open>Slot_Kernel\<close>: a kernel whose hash maps are tables of slots, on which the
    locales are interpreted; deleted slots are reused, as in the kernel's preallocated maps.
  \<^item> \<open>Events\<close>: sequences of hook events, refinement of runs, isolation of clients.
  \<^item> \<open>Interleaving\<close>: programs that run at the same time, with \<^verbatim>\<open>cg_sock_opt\<close> split between its
    two deletions, as an inductive step relation and its invariant.
  \<^item> \<open>Program_Properties\<close>: the properties of the eBPF programs.
  \<^item> \<open>Go_Target\<close>: \<^verbatim>\<open>getOriginalTargetFromConn\<close>, the dispatch of \<^verbatim>\<open>handleConnection\<close> and the
    publication of the configuration, from \<^verbatim>\<open>main.go\<close>.
  \<^item> \<open>Go_Strings\<close>, \<open>Object_Storage\<close>: the adapters of \<^verbatim>\<open>objectStorage/\<close>, as a record of methods.
  \<^item> \<open>Caches\<close>: the four caches of \<^verbatim>\<open>cache/\<close> and the contract \<open>object_cache\<close>, a Hoare triple for
    \<^verbatim>\<open>Get\<close> with an initializer; \<open>bigcache_store\<close> and \<open>memcache_store\<close> are what the two real ones
    need of their packages.
  \<^item> \<open>Caching_Proxy\<close>: the handlers of \<^verbatim>\<open>httpCachingProxy.go\<close> and \<^verbatim>\<open>httpCachingTimedProxy.go\<close>.
  \<^item> \<open>Proxy_Contract\<close>: the contract \<open>http_net\<close> of the network, the locale \<open>caching_proxy\<close> in which
    the handler is shown to answer honestly, and the equivalence of the timed handler with the
    plain one over the contract \<open>timed_cache\<close>.
  \<^item> \<open>Object_World\<close>: a network with failures and stores, on which the contracts are discharged,
    and sequences of clients with late puts and evictions.
  \<^item> \<open>Concurrent_World\<close>: the same with other workers acting before every operation of a handler:
    the contracts are stable under their actions (locale \<open>interference\<close>), so that the handler's
    results hold for interleaved runs. \<open>Proxy_Properties\<close> has the properties.
  \<^item> \<open>Worker_Pool\<close>: accept loop, queue, workers, collectors and the connection counter of \<^verbatim>\<open>run\<close>
    as an inductive step relation, with a summary of \<^verbatim>\<open>forwardConnection\<close>: how its copies ended.
    \<open>Pool_Jobs\<close>: the pool's runs with the connections they accepted, paired as multisets with the
    results the workers reported for them. \<open>Pool_Serving\<close>: the same pool on the state its workers
    share, each turn of a worker one step that cannot be taken while the handler would wait for a
    peer (\<open>stalls\<close>); its contract \<open>serving_handler\<close> is what the caching proxy keeps.
  \<^item> \<open>Relay\<close>: \<^verbatim>\<open>forwardConnection\<close> byte by byte, with both peers at work, and writes that wait until
    the peer has made room; it refines the summary.
  \<^item> \<open>Statistics\<close>: the log of \<^verbatim>\<open>bigcacheWrapper.go\<close> and the lines of both CSV files.
  \<^item> \<open>Startup\<close>: \<^verbatim>\<open>run\<close> up to its accept loop as steps between the events of other processes, which
    run into the hooks as soon as they are attached, and what \<^verbatim>\<open>main\<close> does on a signal.
  \<^item> \<open>Printing_Proxy\<close>, \<open>Printing_Run\<close>, \<open>Old_Proxy\<close>: what the program does not run,
    \<^verbatim>\<open>httpPrintingProxy.go\<close> with its goroutines, its pipe and every \<^verbatim>\<open>Close\<close> as a step relation,
    \<^verbatim>\<open>handler.go\<close>, and what is different in \<^verbatim>\<open>httpProxy.go.old\<close>. \<open>Unit_Tests\<close>: the
    repository's tests, evaluated on the model, and the server of \<^verbatim>\<open>test/main.go\<close>.
  \<^item> \<open>Connection\<close>: the way of one connection from connect() through the programs and
    \<^verbatim>\<open>handleConnection\<close> to the caching proxy.
  \<^item> \<open>Timed_Run\<close>: \<^verbatim>\<open>handleConnectionTimed\<close>, a turn of \<^verbatim>\<open>timedProxyWorker\<close> with the number of its
    worker, and the pool over them.
  \<^item> This theory: the properties that join the eBPF programs to the Go side.

  \<^bold>\<open>What is shown.\<close> The programs refine the table on every run; a redirected
  connection's destination is recovered, end to end, on a little-endian host and is not disturbed
  by other clients; verdicts, buffer bounds and the sequence of helper calls are right on every
  path; with concurrent programs every stored entry stays well formed. The caching proxy is
  transparent if the object key determines the answer, and the timed proxy does the same. The
  worker pool keeps its accounts and drains if every handler returns; with caching proxies that
  work on one network and cache it serves every connection that does not stall as long as fewer
  than 1000 do, each turn answering for the server of its connection, and in timed mode each turn
  leaves one entry with the number of its worker. Clients that miss the cache before a put has
  run all fetch, and the last put wins. In bypass mode bytes arrive in order, and complete if the
  peers read, but the end of one stream is not passed on. The hooks see a zero configuration until
  \<^verbatim>\<open>run\<close> comes to its accept loop, and it comes there exactly if the calls it depends on succeed.
  Theorems of kind error, and some of the others, state what the code does where it goes wrong: a
  full map, abandoned connections, a big-endian host, a reused map element, a failed system call,
  a nil address, an empty object, keys that coincide, a failed reply, silent clients, a blocked
  forwarder, a printing handler whose connection is closed below it.

  \<^bold>\<open>Conventions and bounds.\<close> The kernel, the network, the stores behind the
  caches, the clock and system calls are parameters; results of Go functions are
  \<open>Ret\<close>, \<open>Err\<close> or \<open>Panic\<close>. No definition uses fuel; the
  termination of the pool and of the forwarder is a weight that every internal step decreases.
  The program sets no deadline on a connection: whether a handler waits for a peer is a parameter
  of the pool, and theorems that something is served or returns name the condition.
  Integers of the C programs are words; Go's \<^verbatim>\<open>int\<close> and
  \<^verbatim>\<open>int64\<close> are \<open>int\<close>, as none of them can overflow here. A
  handler's operations on the shared cache are the points where other workers act; the network
  operations of different connections do not affect each other.

  \<^bold>\<open>Not modelled.\<close> Logging and the display of the connection counter; the goroutines of the
  handler in \<^verbatim>\<open>httpProxy.go.old\<close>, which is not compiled; the parsing of HTTP messages
  and of JSON, which are packages; the attributes \<^verbatim>\<open>SEC\<close> and \<^verbatim>\<open>INLINE\<close> of \<^verbatim>\<open>bpf-utils.h\<close>, which
  only concern the compiler and the loader; the build files, which have no behaviour of the program.
\<close>

section \<open>From the client's connect() to the proxy's address\<close>








text \<open>C2. On a little-endian host, a client's intercepted connect() to port 9000, followed by its
  established connection and any events of other clients in between, lets the proxy's
  SO_ORIGINAL_DST query return exactly the address the client asked for and port 9000, through
  the bytes cg_sock_opt writes and the bytes getOriginalTargetFromConn reads; handleConnection
  hands exactly that address to the HTTP proxy, or in bypass mode to the forwarder.\<close>

theorem end_to_end:
  assumes "bpf_kernel_full K ok obs cookie cp" and "ok k"
    and "intercepted LE (v_config (obs k)) h ctx"
    and "accepts (v_socks (obs k)) (cookie (sk_id h))"
    and "\<forall>q. v_ports (obs k) q \<noteq> Some (cookie (sk_id h))"
    and "family ops = AF_INET" and "op ops = BPF_SOCK_OPS_ACTIVE_ESTABLISHED_CB"
    and "list_all (foreign LE cookie (cookie (sk_id h)) (ucast (local_port ops))) (evs1 @ evs2)"
    and "accepts (v_ports (obs (run LE K k (Connect h ctx # evs1)))) (ucast (local_port ops))"
    and "is_query q" and "ntohs LE (sk_dst_port (sk q)) = ucast (local_port ops)"
    and "optval q = replicate 16 0"
    and "let q' = snd (snd (cg_sock_opt LE K (run LE K k (life h ctx evs1 ops evs2)) q))
         in retval q' = 0 \<longrightarrow> sys (replicate 16 0) = (0, optval q')"
  shows "getOriginalTargetFromConn None True sys =
    ([], Some \<lparr>IP = net_IPv4 (store32 LE (user_ip4 ctx) ! 0) (store32 LE (user_ip4 ctx) ! 1)
                             (store32 LE (user_ip4 ctx) ! 2) (store32 LE (user_ip4 ctx) ! 3),
              Port = 9000\<rparr>, None) \<and>
    snd (handleConnection bypass (getOriginalTargetFromConn None True sys)) =
      (if bypass then Forward_raw (Some (requested_address ctx)) else Handle_http (Some (requested_address ctx)))"
  using target_recovered [of K ok obs cookie cp k h ctx ops evs1 evs2 q sys, OF assms]
  by (simp add: requested_address_def handleConnection_def)

lemma end_to_end_witness:
  "getOriginalTargetFromConn None True ex_sys =
    ([], Some \<lparr>IP = net_IPv4 (store32 LE (user_ip4 ex_addr) ! 0) (store32 LE (user_ip4 ex_addr) ! 1)
                             (store32 LE (user_ip4 ex_addr) ! 2) (store32 LE (user_ip4 ex_addr) ! 3),
              Port = 9000\<rparr>, None) \<and>
    snd (handleConnection True (getOriginalTargetFromConn None True ex_sys)) =
      (if True then Forward_raw (Some (requested_address ex_addr)) else Handle_http (Some (requested_address ex_addr)))"
proof (rule end_to_end [OF slot.bpf_kernel_full_axioms ex_state_ok])
  show "list_all (foreign LE slot_cookie (slot_cookie (sk_id ex_hook)) (ucast (local_port ex_ops))) (ex_other @ ex_other)"
    using ex_foreign by (simp add: ex_hook_def)
  show "accepts (v_ports (kstate_view (run LE slot_kernel ex_state (Connect ex_hook ex_addr # ex_other))))
          (ucast (local_port ex_ops))"
    using ex_ports_room by (simp only: kstate_view_sel ex_ops_sel)
  show "let q' = snd (snd (cg_sock_opt LE slot_kernel
                 (run LE slot_kernel ex_state (life ex_hook ex_addr ex_other ex_ops ex_other)) ex_query))
        in retval q' = 0 \<longrightarrow> ex_sys (replicate 16 0) = (0, optval q')"
    by (rule ex_sys_answers)
  show "optval ex_query = replicate 16 0" by (simp add: ex_query_def)
qed simp_all

section \<open>A pool of caching proxies\<close>

text \<open>C3. The worker pool whose 1000 workers run the caching proxy on one shared network and cache
  that keep their contracts. The condition stalls, which is arbitrary, says which handlers wait
  in which states: for a client that sends no request, a server that does not answer or a peer
  that does not read (no deadline is set). While connections are accepted and the environment
  changes the shared state in any way that keeps it good: every turn that comes back has
  answered its request as the server of its connection may (nothing if none can be read); the
  accepted connections are, each once, those of the turns and those on their way; internal steps
  are bounded by the pool's weight, and where none is left and fewer than 1000 accepted
  connections stall, the accept loop waits in Accept, only connections that stall are not
  served, and the counter is their number. If all workers hold connections that always stall, no
  further turn comes back.\<close>

theorem proxies_serve_all_connections:
  assumes "caching_proxy Get N good_state out chan answers good adapters"
    and H: "H = (\<lambda>i c s. proxyWorker_turn (handleConnection_run N Get adapters fwd False ([], Some (dst c), None) s))"
    and request: "request = (\<lambda>s. fst (http_ReadRequest N s))"
    and "serving_run MAX_WORKERS MAX_BUFFER_SIZE stalls H request out good_state cs (p, s, turns)"
    and "(serve_step MAX_BUFFER_SIZE stalls H request out ^^ n) (p, s, turns) (p', s', turns')"
  shows "n \<le> pool_weight p \<and> list_all (fine_answer answers dst) turns' \<and>
    mset cs = mset (map turn_conn turns') + waiting_conns p' \<and>
    ((\<nexists>y. serve_step MAX_BUFFER_SIZE stalls H request out (p', s', turns') y) \<and>
       length (filter (\<lambda>c. stalls c s') cs) < MAX_WORKERS \<longrightarrow>
       acceptor p' = Accepting \<and> (\<forall>c \<in># waiting_conns p'. stalls c s') \<and>
       connections p' = int (size (waiting_conns p'))) \<and>
    (all_workers_held stalls p \<longrightarrow> workers p' = workers p \<and> turns' = turns)"
  using serving_handler.serving_serves_all
      [OF caching_proxy.worker_handler [OF assms(1), where stalls = stalls and fwd = fwd and dst = dst, folded H request] assms(4,5)]
    held_workers_stay [OF assms(5)]
  by blast

text \<open>The connection carries a request, which is answered; connections numbered 9 would stall.\<close>

lemma proxies_serve_all_connections_witness:
  "\<exists>s' turns'. 7 \<le> pool_weight (ex_pool (1, requested_address ex_addr) :: (nat \<times> TCPAddr, int) pool) \<and>
     list_all (fine_answer (\<lambda>a q res. res = same_origin a q) snd) turns' \<and>
     mset [(1, requested_address ex_addr)] =
       mset (map turn_conn turns') + waiting_conns (ex_final 0 :: (nat \<times> TCPAddr, int) pool) \<and>
     connections (ex_final 0 :: (nat \<times> TCPAddr, int) pool) =
       int (size (waiting_conns (ex_final 0 :: (nat \<times> TCPAddr, int) pool)))"
proof -
  let ?s = "empty_world\<lparr>w_inbox := Some ex_q\<rparr>" and ?c = "(1, requested_address ex_addr) :: nat \<times> TCPAddr"
  define stalls where "stalls = (\<lambda>(c :: nat \<times> TCPAddr) (s :: world). fst c = 9)"
  define H where "H = (\<lambda>(i :: nat) (c :: nat \<times> TCPAddr) s. proxyWorker_turn (handleConnection_run (world_net same_origin)
    (bigcache_Get (world_bigcache (\<lambda>key data. True))) [NewMinIOAdapter minio_host] (\<lambda>a s. (Ret (), s)) False ([], Some (snd c), None) s))"
  define request where "request = (\<lambda>s. fst (http_ReadRequest (world_net same_origin) s))"
  have ok: "world_ok minio_host same_origin ?s" by (simp add: world_ok_def empty_world_def)
  have goes: "\<not> stalls ?c ?s" by (simp add: stalls_def)
  have handler: "serving_handler stalls H request w_out (world_ok minio_host same_origin)
      (fine_answer (\<lambda>a q res. res = same_origin a q) snd)"
    unfolding H_def request_def by (rule caching_proxy.worker_handler [OF ex_world.proxy.caching_proxy_axioms])
  obtain s' r ms where turn: "H 0 ?c ?s = (Ret (), (s', r))" "w_out s' = w_out ?s @ ms"
    using serving_handler.turn_law [OF handler, of ?s ?c 0] ok goes by blast
  have "snd (snd (H 0 ?c ?s)) = 0" by (simp add: H_def proxyWorker_turn_def split: prod.split)
  with turn(1) have r: "r = 0" by simp
  note steps = ex_serving [where stalls = stalls and H = H and out = w_out and request = request, OF goes turn, unfolded r]
  have few: "length (filter (\<lambda>c. stalls c s') [?c]) < MAX_WORKERS" by (simp add: stalls_def MAX_WORKERS_def)
  from proxies_serve_all_connections [OF ex_world.proxy.caching_proxy_axioms H_def request_def
      ex_serving_run [where good_state = "world_ok minio_host same_origin", OF ok] steps]
    ex_serving_stuck [of stalls H request w_out 0 s'] few
  show ?thesis by (intro exI) blast
qed

section \<open>The user-space side\<close>

lemma published_configuration_spares_proxy:
  assumes K: "bpf_kernel K ok obs cookie cp" and i: "ok k" and h: "drop_bit 32 (task h) = pid"
  shows "\<exists>k1 k2. publish_config K pid k = (0, k1) \<and>
           v_config (obs k1) = \<lparr>proxy_port = 18000, proxy_pid = pid\<rparr> \<and>
           cg_connect4 e K h k1 ctx = (1, k2, ctx) \<and> obs k2 = obs k1"
proof -
  obtain rc k1 where u: "publish_config K pid k = (rc, k1)" by fastforce
  then have k1: "rc = 0" "ok k1" "obs k1 = (obs k)\<lparr>v_config := \<lparr>proxy_port = 18000, proxy_pid = pid\<rparr>\<rparr>"
    using bpf_kernel.config_update [OF K i] by (auto simp: publish_config_def PROXY_PORT_def)
  then have "\<not> intercepted e (v_config (obs k1)) h ctx"
    using h by (simp add: intercepted_def)
  from bpf_kernel.connect4_pass [OF K k1(2) this] u k1 show ?thesis by auto
qed

lemma published_configuration_spares_proxy_witness:
  "\<exists>k1 k2. publish_config slot_kernel 100 boot = (0, k1) \<and>
     v_config (kstate_view k1) = \<lparr>proxy_port = 18000, proxy_pid = 100\<rparr> \<and>
     cg_connect4 LE slot_kernel \<lparr>task = push_bit 32 100, sk_id = 3\<rparr> k1 ex_addr = (1, k2, ex_addr) \<and>
     kstate_view k2 = kstate_view k1"
  by (rule published_configuration_spares_proxy [OF slot.bpf_kernel_axioms boot_ok]) simp

lemma failed_query_is_not_reported:
  assumes "sys (replicate 16 0) = (n, replicate 16 0)" and "n \<noteq> 0"
  shows "getOriginalTargetFromConn None True sys =
    ([(''getsockopt SO_ORIGINAL_DST failed'', Errno n)],
     Some \<lparr>IP = net_IPv4 0 0 0 0, Port = 0\<rparr>, None)"
  using assms by (simp add: getOriginalTargetFromConn_def getsockopt_def sockaddr_of_bytes_def)

lemma failed_query_is_not_reported_witness:
  "getOriginalTargetFromConn None True (\<lambda>b. (2, b)) =
    ([(''getsockopt SO_ORIGINAL_DST failed'', Errno 2)],
     Some \<lparr>IP = net_IPv4 0 0 0 0, Port = 0\<rparr>, None)"
  by (rule failed_query_is_not_reported) simp_all

end
